theory Spec2Isabelle
  imports Complex_Main
begin

section \<open>The pull-request scraper: store, upsert layer and driver\<close>

text \<open>
  The program (\<^verbatim>\<open>src/main.py\<close>, schema in \<^verbatim>\<open>src/db_init.py\<close>) walks a paginated
  GraphQL source and writes each page into an SQLite database through
  \<^verbatim>\<open>insert ... on conflict ...\<close> statements. The embedding below keeps the Python
  functions under their own names. Each SQL statement of the source is a function
  \<open>insert_<table>\<close> on an explicit database value; an exception of the Python run
  (\<^verbatim>\<open>TypeError\<close> of \<^verbatim>\<open>int(None)\<close>, \<^verbatim>\<open>sqlite3.IntegrityError\<close> of a constraint, ...) is
  the \<open>Inl\<close> branch of the result.

  Reading conventions.
  \<^item> The database value is what the single connection \<^verbatim>\<open>con\<close> sees; \<^verbatim>\<open>con.commit()\<close>
    does not change that view and is therefore not a step of the model.
  \<^item> The JSON input is typed as the comments of the GraphQL query in the source type
    it: an absent key and a JSON \<^verbatim>\<open>null\<close> are both \<open>None\<close> (\<^verbatim>\<open>dict.get\<close> makes no
    difference between them), list elements are objects.
  \<^item> A text is a list of characters; the model covers texts whose characters have
    code points below 256, where the byte order of the stored UTF-8 text is the order of
    the code points.
\<close>

subsection \<open>Exceptions\<close>

datatype error =
    TypeError            \<comment> \<open>\<^verbatim>\<open>int(None)\<close>\<close>
  | ValueError           \<comment> \<open>\<^verbatim>\<open>int(s)\<close> for a text that is no decimal literal\<close>
  | OverflowError        \<comment> \<open>an integer parameter outside the 64-bit range of SQLite\<close>
  | IntegrityError       \<comment> \<open>NOT NULL or FOREIGN KEY constraint failed\<close>
  | IndexError           \<comment> \<open>\<^verbatim>\<open>token_pool[current_token_idx]\<close> out of range\<close>
  | AttributeError       \<comment> \<open>\<^verbatim>\<open>result.message\<close> on a dict\<close>
  | TransportError       \<comment> \<open>any exception of the transport other than \<^verbatim>\<open>TransportServerError\<close>\<close>

subsection \<open>Python's \<^verbatim>\<open>int\<close>\<close>

definition is_digit :: "char \<Rightarrow> bool" where
  "is_digit c = (48 \<le> (of_char c :: nat) \<and> (of_char c :: nat) \<le> 57)"

definition digit_val :: "char \<Rightarrow> int" where
  "digit_val c = int (of_char c) - 48"

definition is_space :: "char \<Rightarrow> bool" where
  "is_space c = ((of_char c :: nat) \<in> {9, 10, 11, 12, 13, 32, 133, 160})"

text \<open>Digits with single underscores between them, as the literal syntax of \<^verbatim>\<open>int(str)\<close>.\<close>

fun parse_digits :: "int \<Rightarrow> string \<Rightarrow> int option" where
  "parse_digits acc [] = Some acc"
| "parse_digits acc (c # cs) =
     (if is_digit c then parse_digits (acc * 10 + digit_val c) cs
      else if c = CHR ''_'' then
        (case cs of [] \<Rightarrow> None
         | d # ds \<Rightarrow> if is_digit d then parse_digits acc cs else None)
      else None)"

definition parse_unsigned :: "string \<Rightarrow> int option" where
  "parse_unsigned s =
     (case s of [] \<Rightarrow> None
      | c # cs \<Rightarrow> if is_digit c then parse_digits 0 s else None)"

definition strip :: "string \<Rightarrow> string" where
  "strip s = rev (dropWhile is_space (rev (dropWhile is_space s)))"

text \<open>
  \<^verbatim>\<open>int(x)\<close> for \<^verbatim>\<open>x = d.get(key)\<close> holding a numeric text: \<^verbatim>\<open>None\<close> raises
  \<^verbatim>\<open>TypeError\<close>, a text that is no literal raises \<^verbatim>\<open>ValueError\<close>; a literal of more
  than 4300 digits is refused with \<^verbatim>\<open>ValueError\<close> as well.
\<close>

definition py_int_str :: "string option \<Rightarrow> error + int" where
  "py_int_str x =
     (case x of None \<Rightarrow> Inl TypeError
      | Some s \<Rightarrow>
        (let t = strip s;
             r = (case t of [] \<Rightarrow> None
                  | c # cs \<Rightarrow>
                      if c = CHR ''-'' then map_option uminus (parse_unsigned cs)
                      else if c = CHR ''+'' then parse_unsigned cs
                      else parse_unsigned t)
         in if 4300 < length (filter is_digit t) then Inl ValueError
            else case r of None \<Rightarrow> Inl ValueError | Some i \<Rightarrow> Inr i))"

text \<open>\<^verbatim>\<open>int(x)\<close> for a JSON number or boolean.\<close>

definition py_int :: "int option \<Rightarrow> error + int" where
  "py_int x = (case x of None \<Rightarrow> Inl TypeError | Some i \<Rightarrow> Inr i)"

definition py_int_bool :: "bool option \<Rightarrow> error + int" where
  "py_int_bool x = (case x of None \<Rightarrow> Inl TypeError | Some b \<Rightarrow> Inr (if b then 1 else 0))"

subsection \<open>SQLite values\<close>

definition in_int64 :: "int \<Rightarrow> bool" where
  "in_int64 i = (- 9223372036854775808 \<le> i \<and> i \<le> 9223372036854775807)"

definition opt_in_int64 :: "int option \<Rightarrow> bool" where
  "opt_in_int64 x = (case x of None \<Rightarrow> True | Some i \<Rightarrow> in_int64 i)"

text \<open>\<^verbatim>\<open>coalesce(x, y)\<close>: the first argument that is not NULL.\<close>

definition coalesce :: "'a option \<Rightarrow> 'a option \<Rightarrow> 'a option" where
  "coalesce x y = (case x of None \<Rightarrow> y | Some v \<Rightarrow> Some v)"

text \<open>
  A new rowid of a table without \<^verbatim>\<open>AUTOINCREMENT\<close>: one more than the largest rowid
  present, 1 in an empty table. (At the largest 64-bit rowid SQLite picks an unused one
  at random; the model does not reach it.)
\<close>

definition next_rowid :: "int list \<Rightarrow> int" where
  "next_rowid ids = (case ids of [] \<Rightarrow> 1 | i # js \<Rightarrow> fold max js i + 1)"

text \<open>The BINARY collation: texts compared character code by character code.\<close>

fun binary_less :: "string \<Rightarrow> string \<Rightarrow> bool" where
  "binary_less [] [] = False"
| "binary_less [] (y # ys) = True"
| "binary_less (x # xs) [] = False"
| "binary_less (x # xs) (y # ys) =
     ((of_char x :: nat) < of_char y \<or> (x = y \<and> binary_less xs ys))"

text \<open>
  The \<^verbatim>\<open>LIKE\<close> operator with its defaults: \<^verbatim>\<open>%\<close> matches any run of characters,
  \<^verbatim>\<open>_\<close> any one character, there is no escape character, and the letters A-Z match
  their lower-case forms; every other character matches itself only. (SQLite refuses a
  pattern of more than 50000 bytes; the model does not reach that limit.)
\<close>

definition ascii_lower :: "char \<Rightarrow> char" where
  "ascii_lower c =
     (if 65 \<le> (of_char c :: nat) \<and> (of_char c :: nat) \<le> 90
      then char_of ((of_char c :: nat) + 32) else c)"

fun like_match :: "string \<Rightarrow> string \<Rightarrow> bool" where
  "like_match [] t = (t = [])"
| "like_match (p # ps) [] = (p = CHR ''%'' \<and> like_match ps [])"
| "like_match (p # ps) (c # cs) =
     (if p = CHR ''%'' then like_match ps (c # cs) \<or> like_match (p # ps) cs
      else (p = CHR ''_'' \<or> ascii_lower p = ascii_lower c) \<and> like_match ps cs)"

subsection \<open>The schema of \<^verbatim>\<open>db_init.py\<close>\<close>

text \<open>
  A column declared \<^verbatim>\<open>not null\<close> has the plain type, any other column an option type.
  The three tables whose \<^verbatim>\<open>id integer primary key\<close> the program supplies itself
  (\<^verbatim>\<open>pull_requests\<close>, \<^verbatim>\<open>reviews\<close>, \<^verbatim>\<open>comments\<close>) are maps from the id to the rest of
  the row. The other tables are lists of rows in the order in which a scan of the table
  delivers them.
\<close>

record author_row =
  a_id :: int
  a_login :: string
  a_name :: "string option"

record pull_request_row =
  p_author_id :: "int option"
  p_title :: string
  p_state :: string
  p_created_at :: string
  p_closed_at :: "string option"
  p_merged_at :: "string option"
  p_additions :: int
  p_deletions :: int
  p_author_association :: string
  p_head_repository_url :: "string option"
  p_is_cross_repository :: int
  p_merge_commit_ci_state :: "string option"
  p_api_total_comments_count :: int

record commit_row =
  c_id :: int
  c_pull_request_id :: "int option"
  c_url :: "string option"
  c_committed_at :: string

record review_row =
  r_author_id :: "int option"
  r_pull_request_id :: "int option"
  r_created_at :: string

record review_thread_row =
  t_id :: int
  t_node_id :: string
  t_pull_request_id :: "int option"

record comment_row =
  m_author_id :: "int option"
  m_pull_request_id :: "int option"
  m_review_id :: "int option"
  m_review_thread_id :: "int option"
  m_created_at :: string

record file_row =
  f_id :: int
  f_pull_request_id :: "int option"
  f_path :: string
  f_change_type :: "string option"
  f_additions :: "int option"
  f_deletions :: "int option"

record label_row =
  l_id :: int
  l_name :: string

record db =
  authors :: "author_row list"
  pull_requests :: "int \<rightharpoonup> pull_request_row"
  commits :: "commit_row list"
  reviews :: "int \<rightharpoonup> review_row"
  review_threads :: "review_thread_row list"
  comments :: "int \<rightharpoonup> comment_row"
  files :: "file_row list"
  author_pull_request :: "(int option \<times> int option) list"
  labels :: "label_row list"
  label_pull_request :: "(int option \<times> int option) list"

definition empty_db :: db where
  "empty_db = \<lparr> authors = [], pull_requests = Map.empty, commits = [], reviews = Map.empty,
     review_threads = [], comments = Map.empty, files = [], author_pull_request = [],
     labels = [], label_pull_request = [] \<rparr>"

text \<open>The parent row of a foreign key exists, or the key is NULL.\<close>

definition author_exists :: "db \<Rightarrow> int option \<Rightarrow> bool" where
  "author_exists d k = (case k of None \<Rightarrow> True | Some i \<Rightarrow> list_ex (\<lambda>a. a_id a = i) (authors d))"

definition pull_request_exists :: "db \<Rightarrow> int option \<Rightarrow> bool" where
  "pull_request_exists d k = (case k of None \<Rightarrow> True | Some i \<Rightarrow> pull_requests d i \<noteq> None)"

definition review_exists :: "db \<Rightarrow> int option \<Rightarrow> bool" where
  "review_exists d k = (case k of None \<Rightarrow> True | Some i \<Rightarrow> reviews d i \<noteq> None)"

definition review_thread_exists :: "db \<Rightarrow> int option \<Rightarrow> bool" where
  "review_thread_exists d k =
     (case k of None \<Rightarrow> True | Some i \<Rightarrow> list_ex (\<lambda>t. t_id t = i) (review_threads d))"

definition label_exists :: "db \<Rightarrow> int option \<Rightarrow> bool" where
  "label_exists d k = (case k of None \<Rightarrow> True | Some i \<Rightarrow> list_ex (\<lambda>l. l_id l = i) (labels d))"

subsection \<open>The JSON of a page\<close>

text \<open>
  One record for each kind of node of the query in \<^verbatim>\<open>prepareQuery\<close>; a field is
  \<open>None\<close> when \<^verbatim>\<open>node.get(key)\<close> is \<^verbatim>\<open>None\<close>. A connection is the object
  \<^verbatim>\<open>{"nodes": [...]}\<close>.
\<close>

record actor_node =
  ac_login :: "string option"
  ac_name :: "string option"

record 'a connection =
  nodes :: "'a list option"

record git_commit_node =
  gc_commitUrl :: "string option"
  gc_committedDate :: "string option"

record commit_node =
  cn_commit :: "git_commit_node option"

record comment_node =
  cm_fullDatabaseId :: "string option"
  cm_author :: "actor_node option"
  cm_createdAt :: "string option"

record review_node =
  rv_author :: "actor_node option"
  rv_createdAt :: "string option"
  rv_fullDatabaseId :: "string option"
  rv_comments :: "comment_node connection option"

record thread_node =
  th_id :: "string option"
  th_comments :: "comment_node connection option"

record file_node =
  fl_path :: "string option"
  fl_changeType :: "string option"
  fl_additions :: "int option"
  fl_deletions :: "int option"

record label_node =
  lb_name :: "string option"

record repository_node =
  hr_url :: "string option"

record rollup_node =
  ru_state :: "string option"

record merge_commit_node =
  mc_statusCheckRollup :: "rollup_node option"

record pull_request_node =
  pr_number :: "int option"
  pr_author :: "actor_node option"
  pr_title :: "string option"
  pr_state :: "string option"
  pr_createdAt :: "string option"
  pr_closedAt :: "string option"
  pr_mergedAt :: "string option"
  pr_additions :: "int option"
  pr_deletions :: "int option"
  pr_commits :: "commit_node connection option"
  pr_comments :: "comment_node connection option"
  pr_reviews :: "review_node connection option"
  pr_reviewThreads :: "thread_node connection option"
  pr_files :: "file_node connection option"
  pr_participants :: "actor_node connection option"
  pr_authorAssociation :: "string option"
  pr_headRepository :: "repository_node option"
  pr_isCrossRepository :: "bool option"
  pr_labels :: "label_node connection option"
  pr_mergeCommit :: "merge_commit_node option"
  pr_totalCommentsCount :: "int option"

text \<open>\<^verbatim>\<open>(node.get(key) or {}).get(field)\<close>: an absent object gives \<^verbatim>\<open>None\<close>.\<close>

definition or_empty :: "'a option \<Rightarrow> ('a \<Rightarrow> 'b option) \<Rightarrow> 'b option" where
  "or_empty obj field = (case obj of None \<Rightarrow> None | Some x \<Rightarrow> field x)"

subsection \<open>Authors\<close>

text \<open>
  A scan of \<^verbatim>\<open>authors\<close> for \<^verbatim>\<open>select id ... where login like ?\<close> runs over the index
  of the \<^verbatim>\<open>unique\<close> column \<^verbatim>\<open>login\<close>, which covers the query; the rows come in the
  BINARY order of their logins, and a new row takes its place in that order.
\<close>

fun index_insert :: "author_row \<Rightarrow> author_row list \<Rightarrow> author_row list" where
  "index_insert a [] = [a]"
| "index_insert a (b # bs) =
     (if binary_less (a_login a) (a_login b) then a # b # bs else b # index_insert a bs)"

text \<open>
  \<^verbatim>\<open>insert into authors (login, name) values (?, ?)
  on conflict (login) do update set name = excluded.name where excluded.name is not null\<close>
\<close>

definition insert_authors :: "string option \<times> string option \<Rightarrow> db \<Rightarrow> error + db" where
  "insert_authors row d =
     (case fst row of
        None \<Rightarrow> Inl IntegrityError
      | Some l \<Rightarrow>
          if list_ex (\<lambda>a. a_login a = l) (authors d) then
            (case snd row of
               None \<Rightarrow> Inr d
             | Some n \<Rightarrow>
                 Inr (d\<lparr>authors :=
                   map (\<lambda>a. if a_login a = l then a\<lparr>a_name := Some n\<rparr> else a) (authors d)\<rparr>))
          else
            Inr (d\<lparr>authors :=
              index_insert
                \<lparr>a_id = next_rowid (map a_id (authors d)), a_login = l, a_name = snd row\<rparr>
                (authors d)\<rparr>))"

text \<open>\<^verbatim>\<open>con.executemany(sql, query_data)\<close>: the statement once for each row, in order.\<close>

fun executemany :: "('r \<Rightarrow> db \<Rightarrow> error + db) \<Rightarrow> 'r list \<Rightarrow> db \<Rightarrow> error + db" where
  "executemany stmt [] d = Inr d"
| "executemany stmt (r # rs) d =
     (case stmt r d of Inl e \<Rightarrow> Inl e | Inr d' \<Rightarrow> executemany stmt rs d')"

definition saveAuthor :: "string \<Rightarrow> string option \<Rightarrow> db \<Rightarrow> error + db" where
  "saveAuthor login name d = insert_authors (Some login, name) d"

definition saveAuthors :: "actor_node list option \<Rightarrow> db \<Rightarrow> error + db" where
  "saveAuthors authors_in d =
     (case authors_in of
        None \<Rightarrow> Inr d
      | Some as \<Rightarrow>
          if as = [] then Inr d
          else executemany insert_authors (map (\<lambda>a. (ac_login a, ac_name a)) as) d)"

definition getAuthorIDByLogin :: "string \<Rightarrow> db \<Rightarrow> int option" where
  "getAuthorIDByLogin login d =
     (case find (\<lambda>a. like_match login (a_login a)) (authors d) of
        None \<Rightarrow> None
      | Some a \<Rightarrow> Some (a_id a))"

text \<open>
  The shared opening of \<^verbatim>\<open>saveComments\<close>, \<^verbatim>\<open>saveReviews\<close> and \<^verbatim>\<open>savePullRequests\<close>:
  \<^verbatim>\<open>author_login = (node.get("author") or {}).get("login")\<close>; when it is not \<^verbatim>\<open>None\<close>
  the author is saved and its id read back.
\<close>

definition resolve_author :: "actor_node option \<Rightarrow> db \<Rightarrow> error + (db \<times> int option)" where
  "resolve_author author d =
     (case or_empty author ac_login of
        None \<Rightarrow> Inr (d, None)
      | Some author_login \<Rightarrow>
          (case saveAuthor author_login None d of
             Inl e \<Rightarrow> Inl e
           | Inr d' \<Rightarrow> Inr (d', getAuthorIDByLogin author_login d')))"

subsection \<open>Commits\<close>

text \<open>
  \<^verbatim>\<open>insert into commits (pull_request_id, url, committed_at) values (?, ?, ?)
  on conflict (pull_request_id, url) do nothing\<close>.
  The order of every statement: the parameters are bound (\<^verbatim>\<open>OverflowError\<close>), the
  NOT NULL columns are checked, then the conflict target (a NULL in a \<^verbatim>\<open>unique\<close> column
  conflicts with nothing), and a row that is written must have its parents.
\<close>

definition insert_commits :: "int \<times> string option \<times> string option \<Rightarrow> db \<Rightarrow> error + db" where
  "insert_commits row d =
     (case row of (pull_request_id, url, committed_at) \<Rightarrow>
        if \<not> in_int64 pull_request_id then Inl OverflowError
        else case committed_at of
          None \<Rightarrow> Inl IntegrityError
        | Some stamp \<Rightarrow>
            if url \<noteq> None \<and>
               list_ex (\<lambda>c. c_pull_request_id c = Some pull_request_id \<and> c_url c = url) (commits d)
            then Inr d
            else if \<not> pull_request_exists d (Some pull_request_id) then Inl IntegrityError
            else Inr (d\<lparr>commits := commits d @
              [\<lparr>c_id = next_rowid (map c_id (commits d)),
                c_pull_request_id = Some pull_request_id, c_url = url, c_committed_at = stamp\<rparr>]\<rparr>))"

definition saveCommits :: "commit_node list option \<Rightarrow> int \<Rightarrow> db \<Rightarrow> error + db" where
  "saveCommits commits_in pull_request_id d =
     (case commits_in of
        None \<Rightarrow> Inr d
      | Some cs \<Rightarrow>
          if cs = [] then Inr d
          else executemany insert_commits
            (map (\<lambda>commit. (pull_request_id,
                            or_empty (cn_commit commit) gc_commitUrl,
                            or_empty (cn_commit commit) gc_committedDate)) cs) d)"

subsection \<open>Comments\<close>

text \<open>
  \<^verbatim>\<open>insert into comments (id, author_id, pull_request_id, review_id, review_thread_id,
  created_at) values (?, ?, ?, ?, ?, ?) on conflict (id) do update set
  pull_request_id = coalesce(excluded.pull_request_id, comments.pull_request_id),
  review_id = coalesce(excluded.review_id, comments.review_id),
  review_thread_id = coalesce(excluded.review_thread_id, comments.review_thread_id)\<close>.
  On the update path only the three columns of the \<^verbatim>\<open>set\<close> list are checked against
  their parent tables.
\<close>

definition insert_comments ::
  "int \<times> int option \<times> int option \<times> int option \<times> int option \<times> string option \<Rightarrow> db \<Rightarrow> error + db"
where
  "insert_comments row d =
     (case row of (cid, author_id, pull_request_id, review_id, review_thread_id, created_at) \<Rightarrow>
        if \<not> (in_int64 cid \<and> opt_in_int64 author_id \<and> opt_in_int64 pull_request_id \<and>
               opt_in_int64 review_id \<and> opt_in_int64 review_thread_id)
        then Inl OverflowError
        else case created_at of
          None \<Rightarrow> Inl IntegrityError
        | Some stamp \<Rightarrow>
            (case comments d cid of
               Some old \<Rightarrow>
                 (let new = old\<lparr>
                        m_pull_request_id := coalesce pull_request_id (m_pull_request_id old),
                        m_review_id := coalesce review_id (m_review_id old),
                        m_review_thread_id := coalesce review_thread_id (m_review_thread_id old)\<rparr>
                  in if pull_request_exists d (m_pull_request_id new) \<and>
                        review_exists d (m_review_id new) \<and>
                        review_thread_exists d (m_review_thread_id new)
                     then Inr (d\<lparr>comments := (comments d)(cid \<mapsto> new)\<rparr>)
                     else Inl IntegrityError)
             | None \<Rightarrow>
                 if author_exists d author_id \<and> pull_request_exists d pull_request_id \<and>
                    review_exists d review_id \<and> review_thread_exists d review_thread_id
                 then Inr (d\<lparr>comments := (comments d)(cid \<mapsto>
                        \<lparr>m_author_id = author_id, m_pull_request_id = pull_request_id,
                         m_review_id = review_id, m_review_thread_id = review_thread_id,
                         m_created_at = stamp\<rparr>)\<rparr>)
                 else Inl IntegrityError))"

text \<open>
  The loop of \<^verbatim>\<open>saveComments\<close> that builds \<^verbatim>\<open>query_data\<close>: for each comment the author
  is resolved first, then \<^verbatim>\<open>int(comment.get("fullDatabaseId"))\<close> is evaluated. The rows
  are written only after the whole list has been read.
\<close>

fun comments_query_data ::
  "comment_node list \<Rightarrow> int option \<Rightarrow> int option \<Rightarrow> int option \<Rightarrow> db \<Rightarrow>
   error + (db \<times> (int \<times> int option \<times> int option \<times> int option \<times> int option \<times> string option) list)"
where
  "comments_query_data [] pull_request_id review_id review_thread_id d = Inr (d, [])"
| "comments_query_data (comment # rest) pull_request_id review_id review_thread_id d =
     (case resolve_author (cm_author comment) d of
        Inl e \<Rightarrow> Inl e
      | Inr (d1, author_id) \<Rightarrow>
          (case py_int_str (cm_fullDatabaseId comment) of
             Inl e \<Rightarrow> Inl e
           | Inr cid \<Rightarrow>
               (case comments_query_data rest pull_request_id review_id review_thread_id d1 of
                  Inl e \<Rightarrow> Inl e
                | Inr (d2, rows) \<Rightarrow>
                    Inr (d2, (cid, author_id, pull_request_id, review_id, review_thread_id,
                              cm_createdAt comment) # rows))))"

definition saveComments ::
  "comment_node list option \<Rightarrow> int option \<Rightarrow> int option \<Rightarrow> int option \<Rightarrow> db \<Rightarrow> error + db"
where
  "saveComments comments_in pull_request_id review_id review_thread_id d =
     (case comments_in of
        None \<Rightarrow> Inr d
      | Some cs \<Rightarrow>
          if cs = [] then Inr d
          else (case comments_query_data cs pull_request_id review_id review_thread_id d of
                  Inl e \<Rightarrow> Inl e
                | Inr (d', query_data) \<Rightarrow> executemany insert_comments query_data d'))"

subsection \<open>Reviews\<close>

text \<open>
  \<^verbatim>\<open>insert into reviews (id, author_id, pull_request_id, created_at) values (?, ?, ?, ?)
  on conflict (id) do nothing\<close>
\<close>

definition insert_reviews :: "int \<times> int option \<times> int \<times> string option \<Rightarrow> db \<Rightarrow> error + db" where
  "insert_reviews row d =
     (case row of (review_id, author_id, pull_request_id, created_at) \<Rightarrow>
        if \<not> (in_int64 review_id \<and> opt_in_int64 author_id \<and> in_int64 pull_request_id)
        then Inl OverflowError
        else case created_at of
          None \<Rightarrow> Inl IntegrityError
        | Some stamp \<Rightarrow>
            if reviews d review_id \<noteq> None then Inr d
            else if author_exists d author_id \<and> pull_request_exists d (Some pull_request_id)
            then Inr (d\<lparr>reviews := (reviews d)(review_id \<mapsto>
                   \<lparr>r_author_id = author_id, r_pull_request_id = Some pull_request_id,
                    r_created_at = stamp\<rparr>)\<rparr>)
            else Inl IntegrityError)"

text \<open>The body of the loop of \<^verbatim>\<open>saveReviews\<close> and the loop.\<close>

definition saveReview :: "review_node \<Rightarrow> int \<Rightarrow> db \<Rightarrow> error + db" where
  "saveReview review pull_request_id d =
     (case py_int_str (rv_fullDatabaseId review) of
        Inl e \<Rightarrow> Inl e
      | Inr review_id \<Rightarrow>
          (case resolve_author (rv_author review) d of
             Inl e \<Rightarrow> Inl e
           | Inr (d1, author_id) \<Rightarrow>
               (case insert_reviews (review_id, author_id, pull_request_id, rv_createdAt review) d1 of
                  Inl e \<Rightarrow> Inl e
                | Inr d2 \<Rightarrow>
                    saveComments (or_empty (rv_comments review) nodes) None (Some review_id) None d2)))"

fun saveReviews_loop :: "review_node list \<Rightarrow> int \<Rightarrow> db \<Rightarrow> error + db" where
  "saveReviews_loop [] pull_request_id d = Inr d"
| "saveReviews_loop (review # rest) pull_request_id d =
     (case saveReview review pull_request_id d of
        Inl e \<Rightarrow> Inl e
      | Inr d' \<Rightarrow> saveReviews_loop rest pull_request_id d')"

definition saveReviews :: "review_node list option \<Rightarrow> int \<Rightarrow> db \<Rightarrow> error + db" where
  "saveReviews reviews_in pull_request_id d =
     (case reviews_in of
        None \<Rightarrow> Inr d
      | Some rs \<Rightarrow> if rs = [] then Inr d else saveReviews_loop rs pull_request_id d)"

subsection \<open>Review threads\<close>

text \<open>
  \<^verbatim>\<open>insert into review_threads (node_id, pull_request_id) values (?, ?)
  on conflict (node_id) do update set node_id = excluded.node_id returning id\<close>.
  The second component of the result is \<^verbatim>\<open>cur.fetchone()\<close>: the one returned row, the
  \<^verbatim>\<open>id\<close> of the row that was inserted or updated.
\<close>

definition insert_review_threads ::
  "string option \<times> int \<Rightarrow> db \<Rightarrow> error + (db \<times> int option)"
where
  "insert_review_threads row d =
     (case row of (node_id, pull_request_id) \<Rightarrow>
        if \<not> in_int64 pull_request_id then Inl OverflowError
        else case node_id of
          None \<Rightarrow> Inl IntegrityError
        | Some n \<Rightarrow>
            (case find (\<lambda>t. t_node_id t = n) (review_threads d) of
               Some old \<Rightarrow>
                 Inr (d\<lparr>review_threads :=
                        map (\<lambda>t. if t_node_id t = n then t\<lparr>t_node_id := n\<rparr> else t) (review_threads d)\<rparr>,
                      Some (t_id old))
             | None \<Rightarrow>
                 if \<not> pull_request_exists d (Some pull_request_id) then Inl IntegrityError
                 else
                   (let new_id = next_rowid (map t_id (review_threads d))
                    in Inr (d\<lparr>review_threads := review_threads d @
                              [\<lparr>t_id = new_id, t_node_id = n,
                                t_pull_request_id = Some pull_request_id\<rparr>]\<rparr>,
                            Some new_id))))"

definition saveReviewThread :: "thread_node \<Rightarrow> int \<Rightarrow> db \<Rightarrow> error + db" where
  "saveReviewThread thread pull_request_id d =
     (case insert_review_threads (th_id thread, pull_request_id) d of
        Inl e \<Rightarrow> Inl e
      | Inr (d1, res) \<Rightarrow>
          (let thread_id = (case res of None \<Rightarrow> None | Some i \<Rightarrow> Some i)
           in saveComments (or_empty (th_comments thread) nodes) None None thread_id d1))"

fun saveReviewThreads_loop :: "thread_node list \<Rightarrow> int \<Rightarrow> db \<Rightarrow> error + db" where
  "saveReviewThreads_loop [] pull_request_id d = Inr d"
| "saveReviewThreads_loop (thread # rest) pull_request_id d =
     (case saveReviewThread thread pull_request_id d of
        Inl e \<Rightarrow> Inl e
      | Inr d' \<Rightarrow> saveReviewThreads_loop rest pull_request_id d')"

definition saveReviewThreads :: "thread_node list option \<Rightarrow> int \<Rightarrow> db \<Rightarrow> error + db" where
  "saveReviewThreads threads pull_request_id d =
     (case threads of
        None \<Rightarrow> Inr d
      | Some ts \<Rightarrow> if ts = [] then Inr d else saveReviewThreads_loop ts pull_request_id d)"

subsection \<open>Files\<close>

text \<open>
  \<^verbatim>\<open>insert into files (pull_request_id, path, change_type, additions, deletions)
  values (?, ?, ?, ?, ?) on conflict (pull_request_id, path) do nothing\<close>
\<close>

definition insert_files ::
  "int \<times> string option \<times> string option \<times> int option \<times> int option \<Rightarrow> db \<Rightarrow> error + db"
where
  "insert_files row d =
     (case row of (pull_request_id, path, change_type, additions, deletions) \<Rightarrow>
        if \<not> (in_int64 pull_request_id \<and> opt_in_int64 additions \<and> opt_in_int64 deletions)
        then Inl OverflowError
        else case path of
          None \<Rightarrow> Inl IntegrityError
        | Some p \<Rightarrow>
            if list_ex (\<lambda>f. f_pull_request_id f = Some pull_request_id \<and> f_path f = p) (files d)
            then Inr d
            else if \<not> pull_request_exists d (Some pull_request_id) then Inl IntegrityError
            else Inr (d\<lparr>files := files d @
              [\<lparr>f_id = next_rowid (map f_id (files d)),
                f_pull_request_id = Some pull_request_id, f_path = p,
                f_change_type = change_type, f_additions = additions,
                f_deletions = deletions\<rparr>]\<rparr>))"

definition saveFiles :: "file_node list option \<Rightarrow> int \<Rightarrow> db \<Rightarrow> error + db" where
  "saveFiles files_in pull_request_id d =
     (case files_in of
        None \<Rightarrow> Inr d
      | Some fs \<Rightarrow>
          if fs = [] then Inr d
          else executemany insert_files
            (map (\<lambda>file. (pull_request_id, fl_path file, fl_changeType file,
                          fl_additions file, fl_deletions file)) fs) d)"

subsection \<open>Participants\<close>

text \<open>
  \<^verbatim>\<open>insert into author_pull_request (author_id, pull_request_id) values (?, ?)
  on conflict (author_id, pull_request_id) do nothing\<close>
\<close>

definition insert_author_pull_request :: "int \<times> int \<Rightarrow> db \<Rightarrow> error + db" where
  "insert_author_pull_request row d =
     (case row of (author_id, pull_request_id) \<Rightarrow>
        if \<not> (in_int64 author_id \<and> in_int64 pull_request_id) then Inl OverflowError
        else if (Some author_id, Some pull_request_id) \<in> set (author_pull_request d) then Inr d
        else if author_exists d (Some author_id) \<and> pull_request_exists d (Some pull_request_id)
        then Inr (d\<lparr>author_pull_request :=
               author_pull_request d @ [(Some author_id, Some pull_request_id)]\<rparr>)
        else Inl IntegrityError)"

text \<open>
  The second loop of \<^verbatim>\<open>saveParticipants\<close>: an author without a login, or whose login
  matches no stored row, is skipped (\<^verbatim>\<open>continue\<close>).
\<close>

fun participants_query_data :: "actor_node list \<Rightarrow> int \<Rightarrow> db \<Rightarrow> (int \<times> int) list" where
  "participants_query_data [] pull_request_id d = []"
| "participants_query_data (author # rest) pull_request_id d =
     (let author_id = (case ac_login author of
                         None \<Rightarrow> None
                       | Some author_login \<Rightarrow> getAuthorIDByLogin author_login d)
      in case author_id of
           None \<Rightarrow> participants_query_data rest pull_request_id d
         | Some i \<Rightarrow> (i, pull_request_id) # participants_query_data rest pull_request_id d)"

definition saveParticipants :: "actor_node list option \<Rightarrow> int \<Rightarrow> db \<Rightarrow> error + db" where
  "saveParticipants authors_in pull_request_id d =
     (case authors_in of
        None \<Rightarrow> Inr d
      | Some as \<Rightarrow>
          if as = [] then Inr d
          else (case saveAuthors authors_in d of
                  Inl e \<Rightarrow> Inl e
                | Inr d' \<Rightarrow>
                    executemany insert_author_pull_request
                      (participants_query_data as pull_request_id d') d'))"

subsection \<open>Labels\<close>

text \<open>\<^verbatim>\<open>insert into labels (name) values (?) on conflict (name) do nothing\<close>\<close>

definition insert_labels :: "string option \<Rightarrow> db \<Rightarrow> error + db" where
  "insert_labels name d =
     (case name of
        None \<Rightarrow> Inl IntegrityError
      | Some n \<Rightarrow>
          if list_ex (\<lambda>l. l_name l = n) (labels d) then Inr d
          else Inr (d\<lparr>labels := labels d @
                 [\<lparr>l_id = next_rowid (map l_id (labels d)), l_name = n\<rparr>]\<rparr>))"

definition saveLabels :: "label_node list option \<Rightarrow> db \<Rightarrow> error + db" where
  "saveLabels labels_in d =
     (case labels_in of
        None \<Rightarrow> Inr d
      | Some ls \<Rightarrow>
          if ls = [] then Inr d else executemany insert_labels (map lb_name ls) d)"

text \<open>
  \<^verbatim>\<open>select id from labels where name like ?\<close>: the index of \<^verbatim>\<open>name\<close> is no smaller than
  the table, the scan runs over the table in the order of the rowids, which is the order
  in which \<open>insert_labels\<close> appends.
\<close>

definition getLabelIDByName :: "string \<Rightarrow> db \<Rightarrow> int option" where
  "getLabelIDByName name d =
     (case find (\<lambda>l. like_match name (l_name l)) (labels d) of
        None \<Rightarrow> None
      | Some l \<Rightarrow> Some (l_id l))"

text \<open>
  \<^verbatim>\<open>insert into label_pull_request (label_id, pull_request_id) values (?, ?)
  on conflict (label_id, pull_request_id) do nothing\<close>
\<close>

definition insert_label_pull_request :: "int \<times> int \<Rightarrow> db \<Rightarrow> error + db" where
  "insert_label_pull_request row d =
     (case row of (label_id, pull_request_id) \<Rightarrow>
        if \<not> (in_int64 label_id \<and> in_int64 pull_request_id) then Inl OverflowError
        else if (Some label_id, Some pull_request_id) \<in> set (label_pull_request d) then Inr d
        else if label_exists d (Some label_id) \<and> pull_request_exists d (Some pull_request_id)
        then Inr (d\<lparr>label_pull_request :=
               label_pull_request d @ [(Some label_id, Some pull_request_id)]\<rparr>)
        else Inl IntegrityError)"

fun labels_query_data :: "label_node list \<Rightarrow> int \<Rightarrow> db \<Rightarrow> (int \<times> int) list" where
  "labels_query_data [] pull_request_id d = []"
| "labels_query_data (label # rest) pull_request_id d =
     (let label_id = (case lb_name label of
                        None \<Rightarrow> None
                      | Some label_name \<Rightarrow> getLabelIDByName label_name d)
      in case label_id of
           None \<Rightarrow> labels_query_data rest pull_request_id d
         | Some i \<Rightarrow> (i, pull_request_id) # labels_query_data rest pull_request_id d)"

definition linkLabelsWithPullRequest :: "label_node list option \<Rightarrow> int \<Rightarrow> db \<Rightarrow> error + db" where
  "linkLabelsWithPullRequest labels_in pull_request_id d =
     (case labels_in of
        None \<Rightarrow> Inr d
      | Some ls \<Rightarrow>
          if ls = [] then Inr d
          else (case saveLabels labels_in d of
                  Inl e \<Rightarrow> Inl e
                | Inr d' \<Rightarrow>
                    executemany insert_label_pull_request
                      (labels_query_data ls pull_request_id d') d'))"

subsection \<open>Pull requests\<close>

text \<open>
  \<^verbatim>\<open>insert into pull_requests (id, author_id, title, ...) values (?, ..., ?)
  on conflict (id) do update set author_id = excluded.author_id, title = excluded.title,
  ..., api_total_comments_count = excluded.api_total_comments_count\<close>:
  all thirteen columns beside \<^verbatim>\<open>id\<close> are in the \<^verbatim>\<open>set\<close> list. The parameters are
  the id and a row whose NOT NULL columns may still be \<^verbatim>\<open>None\<close>.
\<close>

record pull_request_params =
  q_author_id :: "int option"
  q_title :: "string option"
  q_state :: "string option"
  q_created_at :: "string option"
  q_closed_at :: "string option"
  q_merged_at :: "string option"
  q_additions :: int
  q_deletions :: int
  q_author_association :: "string option"
  q_head_repository_url :: "string option"
  q_is_cross_repository :: int
  q_merge_commit_ci_state :: "string option"
  q_api_total_comments_count :: "int option"

definition insert_pull_requests :: "int \<times> pull_request_params \<Rightarrow> db \<Rightarrow> error + db" where
  "insert_pull_requests row d =
     (case row of (pull_request_id, q) \<Rightarrow>
        if \<not> (in_int64 pull_request_id \<and> opt_in_int64 (q_author_id q) \<and>
               in_int64 (q_additions q) \<and> in_int64 (q_deletions q) \<and>
               in_int64 (q_is_cross_repository q) \<and>
               opt_in_int64 (q_api_total_comments_count q))
        then Inl OverflowError
        else
          (case (q_title q, q_state q, q_created_at q, q_author_association q,
                 q_api_total_comments_count q) of
             (Some title, Some state, Some created_at, Some author_association, Some total_comments) \<Rightarrow>
               if author_exists d (q_author_id q)
               then Inr (d\<lparr>pull_requests := (pull_requests d)(pull_request_id \<mapsto>
                      \<lparr>p_author_id = q_author_id q,
                       p_title = title,
                       p_state = state,
                       p_created_at = created_at,
                       p_closed_at = q_closed_at q,
                       p_merged_at = q_merged_at q,
                       p_additions = q_additions q,
                       p_deletions = q_deletions q,
                       p_author_association = author_association,
                       p_head_repository_url = q_head_repository_url q,
                       p_is_cross_repository = q_is_cross_repository q,
                       p_merge_commit_ci_state = q_merge_commit_ci_state q,
                       p_api_total_comments_count = total_comments\<rparr>)\<rparr>)
               else Inl IntegrityError
           | _ \<Rightarrow> Inl IntegrityError))"

text \<open>
  The tuple of parameters of \<^verbatim>\<open>savePullRequests\<close>; the three \<^verbatim>\<open>int(...)\<close> inside it
  raise \<^verbatim>\<open>TypeError\<close> on \<^verbatim>\<open>None\<close> before the statement runs.
\<close>

definition pull_request_tuple :: "pull_request_node \<Rightarrow> int option \<Rightarrow> error + pull_request_params" where
  "pull_request_tuple pull_request author_id =
     (case py_int (pr_additions pull_request) of
        Inl e \<Rightarrow> Inl e
      | Inr additions \<Rightarrow>
          (case py_int (pr_deletions pull_request) of
             Inl e \<Rightarrow> Inl e
           | Inr deletions \<Rightarrow>
               (case py_int_bool (pr_isCrossRepository pull_request) of
                  Inl e \<Rightarrow> Inl e
                | Inr is_cross \<Rightarrow>
                    Inr \<lparr>q_author_id = author_id,
                         q_title = pr_title pull_request,
                         q_state = pr_state pull_request,
                         q_created_at = pr_createdAt pull_request,
                         q_closed_at = pr_closedAt pull_request,
                         q_merged_at = pr_mergedAt pull_request,
                         q_additions = additions,
                         q_deletions = deletions,
                         q_author_association = pr_authorAssociation pull_request,
                         q_head_repository_url = or_empty (pr_headRepository pull_request) hr_url,
                         q_is_cross_repository = is_cross,
                         q_merge_commit_ci_state =
                           or_empty (or_empty (pr_mergeCommit pull_request) mc_statusCheckRollup)
                             ru_state,
                         q_api_total_comments_count = pr_totalCommentsCount pull_request\<rparr>)))"

text \<open>The first half of the loop body of \<^verbatim>\<open>savePullRequests\<close>: the row of the pull request.\<close>

definition savePullRequest_row :: "pull_request_node \<Rightarrow> db \<Rightarrow> error + (db \<times> int)" where
  "savePullRequest_row pull_request d =
     (case py_int (pr_number pull_request) of
        Inl e \<Rightarrow> Inl e
      | Inr pull_request_id \<Rightarrow>
          (case resolve_author (pr_author pull_request) d of
             Inl e \<Rightarrow> Inl e
           | Inr (d1, author_id) \<Rightarrow>
               (case pull_request_tuple pull_request author_id of
                  Inl e \<Rightarrow> Inl e
                | Inr q \<Rightarrow>
                    (case insert_pull_requests (pull_request_id, q) d1 of
                       Inl e \<Rightarrow> Inl e
                     | Inr d2 \<Rightarrow> Inr (d2, pull_request_id)))))"

text \<open>The second half: the seven nested saves, in the order of the source.\<close>

definition savePullRequest_nested :: "pull_request_node \<Rightarrow> int \<Rightarrow> db \<Rightarrow> error + db" where
  "savePullRequest_nested pull_request pull_request_id d =
     (case saveCommits (or_empty (pr_commits pull_request) nodes) pull_request_id d of
        Inl e \<Rightarrow> Inl e
      | Inr d1 \<Rightarrow>
     (case saveComments (or_empty (pr_comments pull_request) nodes) (Some pull_request_id)
             None None d1 of
        Inl e \<Rightarrow> Inl e
      | Inr d2 \<Rightarrow>
     (case saveReviews (or_empty (pr_reviews pull_request) nodes) pull_request_id d2 of
        Inl e \<Rightarrow> Inl e
      | Inr d3 \<Rightarrow>
     (case saveReviewThreads (or_empty (pr_reviewThreads pull_request) nodes) pull_request_id d3 of
        Inl e \<Rightarrow> Inl e
      | Inr d4 \<Rightarrow>
     (case saveFiles (or_empty (pr_files pull_request) nodes) pull_request_id d4 of
        Inl e \<Rightarrow> Inl e
      | Inr d5 \<Rightarrow>
     (case saveParticipants (or_empty (pr_participants pull_request) nodes) pull_request_id d5 of
        Inl e \<Rightarrow> Inl e
      | Inr d6 \<Rightarrow>
          linkLabelsWithPullRequest (or_empty (pr_labels pull_request) nodes)
            pull_request_id d6))))))"

definition savePullRequest :: "pull_request_node \<Rightarrow> db \<Rightarrow> error + db" where
  "savePullRequest pull_request d =
     (case savePullRequest_row pull_request d of
        Inl e \<Rightarrow> Inl e
      | Inr (d', pull_request_id) \<Rightarrow> savePullRequest_nested pull_request pull_request_id d')"

fun savePullRequests :: "pull_request_node list \<Rightarrow> db \<Rightarrow> error + db" where
  "savePullRequests [] d = Inr d"
| "savePullRequests (pull_request # rest) d =
     (case savePullRequest pull_request d of
        Inl e \<Rightarrow> Inl e
      | Inr d' \<Rightarrow> savePullRequests rest d')"

subsection \<open>Deleting a referenced row\<close>

text \<open>
  The program deletes nothing. The schema says what SQLite does to the referencing rows
  when a row of \<^verbatim>\<open>authors\<close> or of \<^verbatim>\<open>pull_requests\<close> is deleted from outside, with
  \<^verbatim>\<open>PRAGMA foreign_keys = ON\<close>: one \<^verbatim>\<open>on delete\<close> action for each foreign key of
  \<^verbatim>\<open>db_init.py\<close>.
\<close>

datatype on_delete = SetNull | Cascade

definition fk_pull_requests_author_id :: on_delete where
  "fk_pull_requests_author_id = SetNull"

definition fk_commits_pull_request_id :: on_delete where
  "fk_commits_pull_request_id = SetNull"

definition fk_reviews_author_id :: on_delete where
  "fk_reviews_author_id = SetNull"

definition fk_reviews_pull_request_id :: on_delete where
  "fk_reviews_pull_request_id = SetNull"

definition fk_review_threads_pull_request_id :: on_delete where
  "fk_review_threads_pull_request_id = SetNull"

definition fk_comments_author_id :: on_delete where
  "fk_comments_author_id = SetNull"

definition fk_comments_pull_request_id :: on_delete where
  "fk_comments_pull_request_id = SetNull"

definition fk_files_pull_request_id :: on_delete where
  "fk_files_pull_request_id = Cascade"

definition fk_author_pull_request_author_id :: on_delete where
  "fk_author_pull_request_author_id = Cascade"

definition fk_author_pull_request_pull_request_id :: on_delete where
  "fk_author_pull_request_pull_request_id = Cascade"

definition fk_label_pull_request_pull_request_id :: on_delete where
  "fk_label_pull_request_pull_request_id = Cascade"

text \<open>
  The action on a referencing table, given the referencing column and the update that
  sets it to NULL: \<^verbatim>\<open>set null\<close> keeps every row, \<^verbatim>\<open>cascade\<close> removes the rows that
  reference the deleted key.
\<close>

definition on_delete_rows ::
  "on_delete \<Rightarrow> ('r \<Rightarrow> int option) \<Rightarrow> ('r \<Rightarrow> 'r) \<Rightarrow> int \<Rightarrow> 'r list \<Rightarrow> 'r list"
where
  "on_delete_rows action col set_null k rows =
     (case action of
        SetNull \<Rightarrow> map (\<lambda>r. if col r = Some k then set_null r else r) rows
      | Cascade \<Rightarrow> filter (\<lambda>r. col r \<noteq> Some k) rows)"

definition on_delete_map ::
  "on_delete \<Rightarrow> ('r \<Rightarrow> int option) \<Rightarrow> ('r \<Rightarrow> 'r) \<Rightarrow> int \<Rightarrow> (int \<rightharpoonup> 'r) \<Rightarrow> (int \<rightharpoonup> 'r)"
where
  "on_delete_map action col set_null k table =
     (\<lambda>i. case table i of
             None \<Rightarrow> None
           | Some r \<Rightarrow>
               if col r = Some k
               then (case action of SetNull \<Rightarrow> Some (set_null r) | Cascade \<Rightarrow> None)
               else Some r)"

text \<open>\<^verbatim>\<open>delete from authors where id = k\<close>\<close>

definition delete_author :: "int \<Rightarrow> db \<Rightarrow> db" where
  "delete_author k d =
     (if \<not> list_ex (\<lambda>a. a_id a = k) (authors d) then d
      else d\<lparr>
        authors := filter (\<lambda>a. a_id a \<noteq> k) (authors d),
        pull_requests := on_delete_map fk_pull_requests_author_id p_author_id
                           (\<lambda>r. r\<lparr>p_author_id := None\<rparr>) k (pull_requests d),
        reviews := on_delete_map fk_reviews_author_id r_author_id
                     (\<lambda>r. r\<lparr>r_author_id := None\<rparr>) k (reviews d),
        comments := on_delete_map fk_comments_author_id m_author_id
                      (\<lambda>r. r\<lparr>m_author_id := None\<rparr>) k (comments d),
        author_pull_request := on_delete_rows fk_author_pull_request_author_id fst
                                 (\<lambda>r. (None, snd r)) k (author_pull_request d)\<rparr>)"

text \<open>\<^verbatim>\<open>delete from pull_requests where id = k\<close>\<close>

definition delete_pull_request :: "int \<Rightarrow> db \<Rightarrow> db" where
  "delete_pull_request k d =
     (if pull_requests d k = None then d
      else d\<lparr>
        pull_requests := (pull_requests d)(k := None),
        commits := on_delete_rows fk_commits_pull_request_id c_pull_request_id
                     (\<lambda>r. r\<lparr>c_pull_request_id := None\<rparr>) k (commits d),
        reviews := on_delete_map fk_reviews_pull_request_id r_pull_request_id
                     (\<lambda>r. r\<lparr>r_pull_request_id := None\<rparr>) k (reviews d),
        review_threads := on_delete_rows fk_review_threads_pull_request_id t_pull_request_id
                            (\<lambda>r. r\<lparr>t_pull_request_id := None\<rparr>) k (review_threads d),
        comments := on_delete_map fk_comments_pull_request_id m_pull_request_id
                      (\<lambda>r. r\<lparr>m_pull_request_id := None\<rparr>) k (comments d),
        files := on_delete_rows fk_files_pull_request_id f_pull_request_id
                   (\<lambda>r. r\<lparr>f_pull_request_id := None\<rparr>) k (files d),
        author_pull_request := on_delete_rows fk_author_pull_request_pull_request_id snd
                                 (\<lambda>r. (fst r, None)) k (author_pull_request d),
        label_pull_request := on_delete_rows fk_label_pull_request_pull_request_id snd
                                (\<lambda>r. (fst r, None)) k (label_pull_request d)\<rparr>)"

subsection \<open>The driver\<close>

text \<open>
  The module-level loop of \<^verbatim>\<open>main.py\<close>. Its variables are the fields of \<open>driver\<close>;
  \<open>clock\<close> is the value that \<^verbatim>\<open>time.perf_counter()\<close> returns at the present moment, an
  exact number of seconds, and \<^verbatim>\<open>time.sleep(t)\<close> moves it on by \<open>t\<close>. The transport is
  outside the program: a run is given the replies of the transport in the order of
  the calls of \<^verbatim>\<open>executeQuery\<close>, each with the time that passes while the call is
  answered. \<^verbatim>\<open>token_pool\<close> is a parameter.
\<close>

definition PRS_PER_REQUEST :: nat where
  "PRS_PER_REQUEST = 10"

definition COST_PER_MINUTE :: int where
  "COST_PER_MINUTE = 1900"

record page_info =
  pi_hasNextPage :: bool
  pi_endCursor :: "string option"

record pull_requests_page =
  pp_nodes :: "pull_request_node list"
  pp_pageInfo :: page_info

text \<open>
  The answer of \<^verbatim>\<open>client.execute\<close>: the keys \<^verbatim>\<open>repository\<close> and \<^verbatim>\<open>rateLimit\<close> when
  they are in the dict (the latter with its \<^verbatim>\<open>cost\<close>), and whether \<^verbatim>\<open>message\<close> is.
\<close>

record query_result =
  qr_repository :: "pull_requests_page option"
  qr_rateLimit :: "int option"
  qr_message :: bool

datatype reply =
    Raise_TransportServerError string   \<comment> \<open>with \<^verbatim>\<open>str(e)\<close>\<close>
  | Raise_other
  | Return query_result

record timed_reply =
  tr_elapsed :: real
  tr_reply :: reply

record driver =
  current_token_idx :: nat
  current_cost :: int
  start :: real
  has_next_page :: bool
  next_page_after :: "string option"
  saved_pull_requests :: nat
  con :: db
  clock :: real

text \<open>A call of \<^verbatim>\<open>executeQuery\<close> as the transport sees it.\<close>

record request =
  rq_token :: string
  rq_after :: "string option"
  rq_time :: real

datatype outcome =
    Continue driver     \<comment> \<open>back to the test of the \<^verbatim>\<open>while\<close>\<close>
  | Exit                \<comment> \<open>\<^verbatim>\<open>safeExit()\<close>\<close>
  | Crash error         \<comment> \<open>an exception that nothing catches\<close>

text \<open>\<^verbatim>\<open>sub in s\<close> for two texts.\<close>

fun starts_with :: "string \<Rightarrow> string \<Rightarrow> bool" where
  "starts_with [] s = True"
| "starts_with (p # ps) [] = False"
| "starts_with (p # ps) (c # cs) = (p = c \<and> starts_with ps cs)"

fun contains :: "string \<Rightarrow> string \<Rightarrow> bool" where
  "contains sub [] = (sub = [])"
| "contains sub (c # cs) = (starts_with sub (c # cs) \<or> contains sub cs)"

definition sleep :: "real \<Rightarrow> driver \<Rightarrow> driver" where
  "sleep t s = s\<lparr>clock := clock s + t\<rparr>"

text \<open>Lines 559 to 566: the cooldown at the head of the loop body.\<close>

definition cooldown_gate :: "driver \<Rightarrow> driver" where
  "cooldown_gate s =
     (if current_cost s \<ge> COST_PER_MINUTE then
        (let cur = clock s;
             cooldown = 60 - (cur - start s);
             s1 = (if cooldown > 0 then sleep cooldown s else s)
         in s1\<lparr>current_cost := 0, start := clock s1\<rparr>)
      else s)"

text \<open>The \<^verbatim>\<open>except TransportServerError\<close> clause.\<close>

definition on_server_error :: "string list \<Rightarrow> string \<Rightarrow> driver \<Rightarrow> outcome" where
  "on_server_error token_pool err s =
     (if \<not> contains ''rate limit exceeded'' err \<and> \<not> contains ''Unauthorized'' err then Exit
      else
        (let s1 = s\<lparr>current_token_idx := current_token_idx s + 1\<rparr>
         in if current_token_idx s1 \<ge> length token_pool then Exit else Continue s1))"

text \<open>The rest of the \<^verbatim>\<open>try\<close> block once \<^verbatim>\<open>executeQuery\<close> has returned \<open>result\<close>.\<close>

definition on_result :: "query_result \<Rightarrow> driver \<Rightarrow> outcome" where
  "on_result result s =
     (case (qr_repository result, qr_rateLimit result) of
        (Some page, Some cost) \<Rightarrow>
          (let s1 = s\<lparr>current_cost := current_cost s + cost\<rparr>
           in case savePullRequests (pp_nodes page) (con s1) of
                Inl e \<Rightarrow> Crash e
              | Inr d \<Rightarrow>
                  Continue (sleep (1 / 10)
                    (s1\<lparr>con := d,
                        saved_pull_requests := saved_pull_requests s1 + PRS_PER_REQUEST,
                        has_next_page := pi_hasNextPage (pp_pageInfo page),
                        next_page_after :=
                          (if \<not> pi_hasNextPage (pp_pageInfo page) then None
                           else pi_endCursor (pp_pageInfo page))\<rparr>)))
      | _ \<Rightarrow> if \<not> qr_message result then Exit else Crash AttributeError)"

text \<open>
  One pass through the loop body, answered by one reply: the outcome and the request
  that was sent, if one was.
\<close>

definition step :: "string list \<Rightarrow> timed_reply \<Rightarrow> driver \<Rightarrow> outcome \<times> request option" where
  "step token_pool r s =
     (let s1 = cooldown_gate s
      in if current_token_idx s1 \<ge> length token_pool then (Crash IndexError, None)
         else
           (let rq = \<lparr>rq_token = token_pool ! current_token_idx s1,
                      rq_after = next_page_after s1, rq_time = clock s1\<rparr>;
                s2 = s1\<lparr>clock := clock s1 + tr_elapsed r\<rparr>
            in (case tr_reply r of
                  Raise_TransportServerError err \<Rightarrow> on_server_error token_pool err s2
                | Raise_other \<Rightarrow> Crash TransportError
                | Return result \<Rightarrow> on_result result s2,
                Some rq)))"

text \<open>
  The \<^verbatim>\<open>while has_next_page\<close> loop over the replies that have arrived so far, with the
  requests sent, oldest first. \<open>Waiting\<close>: the loop is still running and its next
  request has not been answered.
\<close>

datatype run_outcome =
    Finished driver
  | Waiting driver
  | Exited
  | Crashed error

fun run :: "string list \<Rightarrow> timed_reply list \<Rightarrow> driver \<Rightarrow> run_outcome \<times> request list" where
  "run token_pool [] s = (if has_next_page s then Waiting s else Finished s, [])"
| "run token_pool (r # rs) s =
     (if \<not> has_next_page s then (Finished s, [])
      else
        (case step token_pool r s of
           (Continue s', rq) \<Rightarrow>
             (case run token_pool rs s' of (out, rqs) \<Rightarrow> (out, case_option [] (\<lambda>q. [q]) rq @ rqs))
         | (Exit, rq) \<Rightarrow> (Exited, case_option [] (\<lambda>q. [q]) rq)
         | (Crash e, rq) \<Rightarrow> (Crashed e, case_option [] (\<lambda>q. [q]) rq)))"

text \<open>The variables as the module initialises them, at time \<open>now\<close> on database \<open>d\<close>.\<close>

definition initial_driver :: "real \<Rightarrow> db \<Rightarrow> driver" where
  "initial_driver now d =
     \<lparr>current_token_idx = 0, current_cost = 0, start = now, has_next_page = True,
      next_page_after = None, saved_pull_requests = 0, con = d, clock = now\<rparr>"

text \<open>
  What one reply adds to \<^verbatim>\<open>current_cost\<close>: \<^verbatim>\<open>rate_limit["cost"]\<close> of a returned result;
  a raised error adds nothing. And the time one pass through the loop takes once its
  request is out: the wait for the reply, and \<^verbatim>\<open>time.sleep(.1)\<close> after a returned result.
\<close>

definition reported_cost :: "timed_reply \<Rightarrow> int" where
  "reported_cost r =
     (case tr_reply r of
        Return result \<Rightarrow> (case qr_rateLimit result of None \<Rightarrow> 0 | Some cost \<Rightarrow> cost)
      | _ \<Rightarrow> 0)"

definition pass_time :: "timed_reply \<Rightarrow> real" where
  "pass_time r = tr_elapsed r + (case tr_reply r of Return result \<Rightarrow> 1 / 10 | _ \<Rightarrow> 0)"

subsection \<open>Example data\<close>

text \<open>Concrete databases and inputs at which the theorems below are instantiated.\<close>

definition c1_db0 :: db where
  "c1_db0 = empty_db\<lparr>
     pull_requests := [5 \<mapsto> \<lparr>p_author_id = None, p_title = ''t'', p_state = ''OPEN'',
       p_created_at = ''2023-08-31T12:16:25Z'', p_closed_at = None, p_merged_at = None,
       p_additions = 1, p_deletions = 0, p_author_association = ''NONE'',
       p_head_repository_url = None, p_is_cross_repository = 0,
       p_merge_commit_ci_state = None, p_api_total_comments_count = 1\<rparr>],
     reviews := [7 \<mapsto> \<lparr>r_author_id = None, r_pull_request_id = Some 5,
       r_created_at = ''2023-09-01T00:00:00Z''\<rparr>]\<rparr>"

definition c1_comment :: comment_node where
  "c1_comment = \<lparr>cm_fullDatabaseId = Some ''100'', cm_author = None,
     cm_createdAt = Some ''2023-09-02T00:00:00Z''\<rparr>"

definition c1_db1 :: db where
  "c1_db1 = c1_db0\<lparr>comments := [100 \<mapsto> \<lparr>m_author_id = None, m_pull_request_id = Some 5,
     m_review_id = None, m_review_thread_id = None, m_created_at = ''2023-09-02T00:00:00Z''\<rparr>]\<rparr>"

definition c1_db2 :: db where
  "c1_db2 = c1_db0\<lparr>comments := [100 \<mapsto> \<lparr>m_author_id = None, m_pull_request_id = Some 5,
     m_review_id = Some 7, m_review_thread_id = None, m_created_at = ''2023-09-02T00:00:00Z''\<rparr>]\<rparr>"

definition c1_old :: comment_row where
  "c1_old = \<lparr>m_author_id = None, m_pull_request_id = Some 5,
     m_review_id = None, m_review_thread_id = None, m_created_at = ''2023-09-02T00:00:00Z''\<rparr>"




definition c2_db :: db where
  "c2_db = empty_db\<lparr>authors := [\<lparr>a_id = 1, a_login = ''alice'', a_name = Some ''Alice A''\<rparr>]\<rparr>"

definition c3_old :: pull_request_row where
  "c3_old = \<lparr>p_author_id = Some 1, p_title = ''old title'', p_state = ''OPEN'',
     p_created_at = ''2023-08-31T12:16:25Z'', p_closed_at = None, p_merged_at = None,
     p_additions = 1, p_deletions = 2, p_author_association = ''NONE'',
     p_head_repository_url = Some ''https://example.org/fork'', p_is_cross_repository = 0,
     p_merge_commit_ci_state = Some ''SUCCESS'', p_api_total_comments_count = 3\<rparr>"

definition c3_new :: pull_request_row where
  "c3_new = \<lparr>p_author_id = Some 2, p_title = ''new title'', p_state = ''MERGED'',
     p_created_at = ''2023-09-01T00:00:00Z'', p_closed_at = Some ''2023-09-05T00:00:00Z'',
     p_merged_at = Some ''2023-09-05T00:00:00Z'',
     p_additions = 10, p_deletions = 20, p_author_association = ''MEMBER'',
     p_head_repository_url = None, p_is_cross_repository = 1,
     p_merge_commit_ci_state = None, p_api_total_comments_count = 0\<rparr>"

definition c3_db0 :: db where
  "c3_db0 = empty_db\<lparr>
     authors := [\<lparr>a_id = 1, a_login = ''alice'', a_name = None\<rparr>],
     pull_requests := [5 \<mapsto> c3_old]\<rparr>"

definition c3_db1 :: db where
  "c3_db1 = empty_db\<lparr>
     authors := [\<lparr>a_id = 1, a_login = ''alice'', a_name = None\<rparr>,
                 \<lparr>a_id = 2, a_login = ''bob'', a_name = None\<rparr>],
     pull_requests := [5 \<mapsto> c3_new]\<rparr>"

definition c3_pr :: pull_request_node where
  "c3_pr = \<lparr>pr_number = Some 5,
     pr_author = Some \<lparr>ac_login = Some ''bob'', ac_name = None\<rparr>, pr_title = Some ''new title'',
     pr_state = Some ''MERGED'', pr_createdAt = Some ''2023-09-01T00:00:00Z'',
     pr_closedAt = Some ''2023-09-05T00:00:00Z'', pr_mergedAt = Some ''2023-09-05T00:00:00Z'',
     pr_additions = Some 10, pr_deletions = Some 20,
     pr_commits = None, pr_comments = None, pr_reviews = None, pr_reviewThreads = None,
     pr_files = None, pr_participants = None,
     pr_authorAssociation = Some ''MEMBER'', pr_headRepository = None,
     pr_isCrossRepository = Some True, pr_labels = None, pr_mergeCommit = None,
     pr_totalCommentsCount = Some 0\<rparr>"

definition c4_db :: db where
  "c4_db = c1_db0\<lparr>
     authors := [\<lparr>a_id = 1, a_login = ''alice'', a_name = Some ''Alice A''\<rparr>],
     commits := [\<lparr>c_id = 1, c_pull_request_id = Some 5,
                  c_url = Some ''https://example.org/commit/1'',
                  c_committed_at = ''2023-08-31T12:00:00Z''\<rparr>],
     files := [\<lparr>f_id = 1, f_pull_request_id = Some 5, f_path = ''clang/lib/a.cpp'',
                f_change_type = Some ''ADDED'', f_additions = Some 3, f_deletions = Some 0\<rparr>],
     author_pull_request := [(Some 1, Some 5)],
     labels := [\<lparr>l_id = 1, l_name = ''clang''\<rparr>],
     label_pull_request := [(Some 1, Some 5)]\<rparr>"

definition c4_commit :: commit_node where
  "c4_commit = \<lparr>cn_commit = Some \<lparr>gc_commitUrl = Some ''https://example.org/commit/1'',
     gc_committedDate = Some ''2024-01-01T00:00:00Z''\<rparr>\<rparr>"

definition c4_file :: file_node where
  "c4_file = \<lparr>fl_path = Some ''clang/lib/a.cpp'', fl_changeType = Some ''MODIFIED'',
     fl_additions = Some 40, fl_deletions = Some 2\<rparr>"

definition c4_label :: label_node where
  "c4_label = \<lparr>lb_name = Some ''clang''\<rparr>"

definition c4_review :: review_node where
  "c4_review = \<lparr>rv_author = None, rv_createdAt = Some ''2024-01-01T00:00:00Z'',
     rv_fullDatabaseId = Some ''7'', rv_comments = None\<rparr>"

definition c4_participant :: actor_node where
  "c4_participant = \<lparr>ac_login = Some ''alice'', ac_name = None\<rparr>"

definition c4_review_bob :: review_node where
  "c4_review_bob = \<lparr>rv_author = Some \<lparr>ac_login = Some ''bob'', ac_name = None\<rparr>,
     rv_createdAt = Some ''2024-01-01T00:00:00Z'',
     rv_fullDatabaseId = Some ''7'', rv_comments = None\<rparr>"

definition c4_db_bob :: db where
  "c4_db_bob = c4_db\<lparr>
     authors := [\<lparr>a_id = 1, a_login = ''alice'', a_name = Some ''Alice A''\<rparr>,
                 \<lparr>a_id = 2, a_login = ''bob'', a_name = None\<rparr>]\<rparr>"

definition c4_commit_undated :: commit_node where
  "c4_commit_undated = \<lparr>cn_commit = Some \<lparr>gc_commitUrl = Some ''https://example.org/commit/1'',
     gc_committedDate = None\<rparr>\<rparr>"

definition c5_db0 :: db where
  "c5_db0 = c1_db0\<lparr>review_threads :=
     [\<lparr>t_id = 3, t_node_id = ''PRRT_kwDOa'', t_pull_request_id = Some 5\<rparr>]\<rparr>"

definition c5_db1 :: db where
  "c5_db1 = c5_db0\<lparr>comments := [100 \<mapsto> \<lparr>m_author_id = None, m_pull_request_id = None,
     m_review_id = None, m_review_thread_id = Some 3, m_created_at = ''2023-09-02T00:00:00Z''\<rparr>]\<rparr>"

definition c5_thread :: thread_node where
  "c5_thread = \<lparr>th_id = Some ''PRRT_kwDOa'', th_comments = Some \<lparr>nodes = Some [c1_comment]\<rparr>\<rparr>"

definition c7_first :: timed_reply where
  "c7_first = \<lparr>tr_elapsed = 1 / 2,
     tr_reply = Return \<lparr>qr_repository = Some \<lparr>pp_nodes = [],
         pp_pageInfo = \<lparr>pi_hasNextPage = True, pi_endCursor = Some ''cursor''\<rparr>\<rparr>,
       qr_rateLimit = Some 1900, qr_message = False\<rparr>\<rparr>"

definition c7_state :: driver where
  "c7_state = \<lparr>current_token_idx = 0, current_cost = 1900, start = 0, has_next_page = True,
     next_page_after = Some ''cursor'', saved_pull_requests = 10, con = empty_db, clock = 3 / 5\<rparr>"

definition c7_reply :: timed_reply where
  "c7_reply = \<lparr>tr_elapsed = 1 / 2,
     tr_reply = Return \<lparr>qr_repository = Some \<lparr>pp_nodes = [],
         pp_pageInfo = \<lparr>pi_hasNextPage = False, pi_endCursor = None\<rparr>\<rparr>,
       qr_rateLimit = Some 1, qr_message = False\<rparr>\<rparr>"

definition c6_fail :: timed_reply where
  "c6_fail = \<lparr>tr_elapsed = 1,
     tr_reply = Raise_TransportServerError ''401, message=Unauthorized, url=https://api.github.com/graphql''\<rparr>"

definition c8_comment :: comment_node where
  "c8_comment = \<lparr>cm_fullDatabaseId = None, cm_author = None,
     cm_createdAt = Some ''2023-09-02T00:00:00Z''\<rparr>"

definition c8_review :: review_node where
  "c8_review = \<lparr>rv_author = None, rv_createdAt = Some ''2023-09-02T00:00:00Z'',
     rv_fullDatabaseId = None, rv_comments = None\<rparr>"

definition c9_db :: db where
  "c9_db = c4_db\<lparr>
     pull_requests := [5 \<mapsto> c3_old],
     reviews := [7 \<mapsto> \<lparr>r_author_id = Some 1, r_pull_request_id = Some 5,
       r_created_at = ''2023-09-01T00:00:00Z''\<rparr>],
     review_threads := [\<lparr>t_id = 3, t_node_id = ''PRRT_kwDOa'', t_pull_request_id = Some 5\<rparr>],
     comments := [100 \<mapsto> \<lparr>m_author_id = Some 1, m_pull_request_id = Some 5,
       m_review_id = Some 7, m_review_thread_id = None,
       m_created_at = ''2023-09-02T00:00:00Z''\<rparr>]\<rparr>"

section \<open>Properties\<close>

subsection \<open>Which tables a save writes\<close>

lemma insert_authors_frame:
  assumes "insert_authors row d = Inr d'"
  shows "d' = d\<lparr>authors := authors d'\<rparr>"
proof (cases "fst row")
  case None
  with assms show ?thesis by (simp add: insert_authors_def)
next
  case (Some l)
  show ?thesis
  proof (cases "list_ex (\<lambda>a. a_login a = l) (authors d)")
    case True
    with Some assms show ?thesis
      by (cases "snd row") (simp_all add: insert_authors_def, fastforce+)
  next
    case False
    with Some assms show ?thesis
      by (simp add: insert_authors_def, fastforce)
  qed
qed

lemma executemany_insert_authors_frame:
  "executemany insert_authors rows d = Inr d' \<Longrightarrow> d' = d\<lparr>authors := authors d'\<rparr>"
proof (induction rows arbitrary: d)
  case Nil
  then show ?case by simp
next
  case (Cons row rows)
  from Cons.prems obtain d1 where
    d1: "insert_authors row d = Inr d1" and rest: "executemany insert_authors rows d1 = Inr d'"
    by (simp split: sum.splits)
  from insert_authors_frame [OF d1] Cons.IH [OF rest] show ?case
    by (metis db.surjective db.update_convs(1))
qed

lemma saveAuthor_frame: "saveAuthor login name d = Inr d' \<Longrightarrow> d' = d\<lparr>authors := authors d'\<rparr>"
  unfolding saveAuthor_def by (rule insert_authors_frame)

lemma saveAuthors_frame: "saveAuthors as d = Inr d' \<Longrightarrow> d' = d\<lparr>authors := authors d'\<rparr>"
  unfolding saveAuthors_def
  by (cases as) (simp_all split: if_splits add: executemany_insert_authors_frame)

lemma resolve_author_frame:
  assumes "resolve_author author d = Inr (d', i)"
  shows "d' = d\<lparr>authors := authors d'\<rparr>"
proof (cases "or_empty author ac_login")
  case None
  with assms show ?thesis by (simp add: resolve_author_def)
next
  case (Some l)
  with assms obtain d1 where "saveAuthor l None d = Inr d1" and "d' = d1"
    by (simp add: resolve_author_def split: sum.splits)
  then show ?thesis using saveAuthor_frame by blast
qed

lemma comments_query_data_frame:
  "comments_query_data cs pr rv th d = Inr (d', rows) \<Longrightarrow> d' = d\<lparr>authors := authors d'\<rparr>"
proof (induction cs arbitrary: d rows)
  case Nil
  then show ?case by simp
next
  case (Cons c cs)
  from Cons.prems obtain d1 a k rows1 where
    r: "resolve_author (cm_author c) d = Inr (d1, a)" and
    k: "py_int_str (cm_fullDatabaseId c) = Inr k" and
    rest: "comments_query_data cs pr rv th d1 = Inr (d', rows1)"
    by (simp split: sum.splits prod.splits)
  from resolve_author_frame [OF r] Cons.IH [OF rest] show ?case
    by (metis db.surjective db.update_convs(1))
qed
subsection \<open>Authors: the name is only ever enriched\<close>

lemma find_login_upd_name:
  "find (\<lambda>a. a_login a = l) (map (\<lambda>a. if a_login a = l then a\<lparr>a_name := n\<rparr> else a) xs)
   = map_option (\<lambda>a. a\<lparr>a_name := n\<rparr>) (find (\<lambda>a. a_login a = l) xs)"
  by (induction xs) simp_all

lemma upd_name_ids:
  "map a_id (map (\<lambda>a. if a_login a = l then a\<lparr>a_name := n\<rparr> else a) xs) = map a_id xs"
  by (induction xs) simp_all

lemma upd_name_logins:
  "map a_login (map (\<lambda>a. if a_login a = l then a\<lparr>a_name := n\<rparr> else a) xs) = map a_login xs"
  by (induction xs) simp_all

lemma upd_name_others:
  "filter (\<lambda>a. a_login a \<noteq> l) (map (\<lambda>a. if a_login a = l then a\<lparr>a_name := n\<rparr> else a) xs)
   = filter (\<lambda>a. a_login a \<noteq> l) xs"
  by (induction xs) simp_all

lemma find_login_list_ex:
  "find (\<lambda>a. a_login a = l) xs = Some r \<Longrightarrow> list_ex (\<lambda>a. a_login a = l) xs"
  by (induction xs) (simp_all split: if_splits)

lemma insert_authors_conflict:
  "list_ex (\<lambda>a. a_login a = l) (authors d) \<Longrightarrow>
   insert_authors (Some l, n) d =
     Inr (case n of None \<Rightarrow> d
          | Some x \<Rightarrow> d\<lparr>authors := map (\<lambda>a. if a_login a = l then a\<lparr>a_name := Some x\<rparr> else a) (authors d)\<rparr>)"
  by (simp add: insert_authors_def split: option.splits)

text \<open>
  C2. For a stored author row \<open>r\<close> with login \<open>login\<close> (whatever its name is): saving
  the login with a null name returns the database unchanged, so the name stays what it
  was; saving it with a name \<open>n2\<close> that is not null succeeds and leaves the row as \<open>r\<close>
  with the name \<open>n2\<close>, its id and login as before and every row of another login
  untouched. \<^verbatim>\<open>saveAuthor\<close> and the one-row \<^verbatim>\<open>saveAuthors\<close> agree.
\<close>

theorem author_name_never_regresses:
  "find (\<lambda>a. a_login a = login) (authors d) = Some r \<Longrightarrow>
     saveAuthor login None d = Inr d \<and>
     saveAuthors (Some [\<lparr>ac_login = Some login, ac_name = None\<rparr>]) d = Inr d \<and>
     (\<exists>d'. saveAuthor login (Some n2) d = Inr d' \<and>
           saveAuthors (Some [\<lparr>ac_login = Some login, ac_name = Some n2\<rparr>]) d = Inr d' \<and>
           find (\<lambda>a. a_login a = login) (authors d') = Some (r\<lparr>a_name := Some n2\<rparr>) \<and>
           map a_id (authors d') = map a_id (authors d) \<and>
           map a_login (authors d') = map a_login (authors d) \<and>
           filter (\<lambda>a. a_login a \<noteq> login) (authors d') =
             filter (\<lambda>a. a_login a \<noteq> login) (authors d))"
proof -
  assume f: "find (\<lambda>a. a_login a = login) (authors d) = Some r"
  then have ex: "list_ex (\<lambda>a. a_login a = login) (authors d)"
    by (rule find_login_list_ex)
  define d' where
    "d' = d\<lparr>authors := map (\<lambda>a. if a_login a = login then a\<lparr>a_name := Some n2\<rparr> else a) (authors d)\<rparr>"
  have a1: "saveAuthor login None d = Inr d"
    by (simp add: saveAuthor_def insert_authors_conflict [OF ex])
  have a2: "saveAuthors (Some [\<lparr>ac_login = Some login, ac_name = None\<rparr>]) d = Inr d"
    by (simp add: saveAuthors_def insert_authors_conflict [OF ex])
  have b1: "saveAuthor login (Some n2) d = Inr d'"
    by (simp add: saveAuthor_def insert_authors_conflict [OF ex] d'_def)
  have b2: "saveAuthors (Some [\<lparr>ac_login = Some login, ac_name = Some n2\<rparr>]) d = Inr d'"
    by (simp add: saveAuthors_def insert_authors_conflict [OF ex] d'_def)
  have b3: "find (\<lambda>a. a_login a = login) (authors d') = Some (r\<lparr>a_name := Some n2\<rparr>)"
    by (simp add: d'_def find_login_upd_name f)
  have b5: "map a_id (authors d') = map a_id (authors d)"
    by (simp add: d'_def upd_name_ids)
  have b6: "map a_login (authors d') = map a_login (authors d)"
    by (simp add: d'_def upd_name_logins)
  have b7: "filter (\<lambda>a. a_login a \<noteq> login) (authors d') =
            filter (\<lambda>a. a_login a \<noteq> login) (authors d)"
    by (simp add: d'_def upd_name_others)
  show ?thesis
    by (intro conjI a1 a2 exI [of _ d'] b1 b2 b3 b5 b6 b7)
qed

theorem author_name_never_regresses_witness:
  "find (\<lambda>a. a_login a = ''alice'') (authors c2_db)
     = Some \<lparr>a_id = 1, a_login = ''alice'', a_name = Some ''Alice A''\<rparr> \<and>
   saveAuthor ''alice'' None c2_db = Inr c2_db \<and>
   saveAuthors (Some [\<lparr>ac_login = Some ''alice'', ac_name = None\<rparr>]) c2_db = Inr c2_db \<and>
   (\<exists>d'. saveAuthor ''alice'' (Some ''Al'') c2_db = Inr d' \<and>
         saveAuthors (Some [\<lparr>ac_login = Some ''alice'', ac_name = Some ''Al''\<rparr>]) c2_db = Inr d' \<and>
         find (\<lambda>a. a_login a = ''alice'') (authors d')
           = Some (\<lparr>a_id = 1, a_login = ''alice'', a_name = Some ''Alice A''\<rparr>\<lparr>a_name := Some ''Al''\<rparr>) \<and>
         map a_id (authors d') = map a_id (authors c2_db) \<and>
         map a_login (authors d') = map a_login (authors c2_db) \<and>
         filter (\<lambda>a. a_login a \<noteq> ''alice'') (authors d') =
           filter (\<lambda>a. a_login a \<noteq> ''alice'') (authors c2_db))"
proof -
  have h: "find (\<lambda>a. a_login a = ''alice'') (authors c2_db)
     = Some \<lparr>a_id = 1, a_login = ''alice'', a_name = Some ''Alice A''\<rparr>"
    by (simp add: c2_db_def empty_db_def)
  show ?thesis
    by (rule conjI [OF h author_name_never_regresses [OF h, of "''Al''"]])
qed
subsection \<open>Comments: the parent links are merged\<close>

text \<open>What the \<^verbatim>\<open>do update\<close> of \<open>insert_comments\<close> makes of a stored row.\<close>

definition merge_links :: "int option \<Rightarrow> int option \<Rightarrow> int option \<Rightarrow> comment_row \<Rightarrow> comment_row" where
  "merge_links pr rv th old =
     old\<lparr>m_pull_request_id := (if pr = None then m_pull_request_id old else pr),
         m_review_id := (if rv = None then m_review_id old else rv),
         m_review_thread_id := (if th = None then m_review_thread_id old else th)\<rparr>"

lemma coalesce_if: "coalesce x y = (if x = None then y else x)"
  by (cases x) (simp_all add: coalesce_def)

lemma merge_links_idem: "merge_links pr rv th (merge_links pr rv th old) = merge_links pr rv th old"
  by (simp add: merge_links_def)

lemma insert_comments_result:
  "insert_comments (cid, a, pr, rv, th, ca) d =
     Inr (d\<lparr>comments := (comments d)(cid \<mapsto>
            (case comments d cid of
               Some old \<Rightarrow> merge_links pr rv th old
             | None \<Rightarrow> \<lparr>m_author_id = a, m_pull_request_id = pr, m_review_id = rv,
                        m_review_thread_id = th, m_created_at = the ca\<rparr>))\<rparr>)
   \<or> (\<exists>e. insert_comments (cid, a, pr, rv, th, ca) d = Inl e)"
  by (simp add: insert_comments_def Let_def coalesce_if merge_links_def split: option.splits)

lemma insert_comments_Inr:
  assumes "insert_comments (cid, a, pr, rv, th, ca) d = Inr d'"
  shows "d' = d\<lparr>comments := (comments d)(cid \<mapsto>
            (case comments d cid of
               Some old \<Rightarrow> merge_links pr rv th old
             | None \<Rightarrow> \<lparr>m_author_id = a, m_pull_request_id = pr, m_review_id = rv,
                        m_review_thread_id = th, m_created_at = the ca\<rparr>))\<rparr>"
  using insert_comments_result [of cid a pr rv th ca d] assms by (elim disjE exE) simp_all

lemma insert_comments_stored:
  assumes "insert_comments (cid, a, pr, rv, th, ca) d = Inr d'" and "comments d k = Some old"
  shows "comments d' k = Some (if k = cid then merge_links pr rv th old else old)"
  using assms(2) by (cases "k = cid") (simp_all add: insert_comments_Inr [OF assms(1)])

lemma executemany_insert_comments_stored:
  assumes "executemany insert_comments rows d = Inr d'"
    and "comments d k = Some old"
    and "\<forall>row \<in> set rows. \<exists>cid a ca. row = (cid, a, pr, rv, th, ca)"
  shows "comments d' k = Some (if k \<in> fst ` set rows then merge_links pr rv th old else old)"
  using assms
proof (induction rows arbitrary: d old)
  case Nil
  then show ?case by simp
next
  case (Cons row rows)
  obtain cid a ca where row: "row = (cid, a, pr, rv, th, ca)"
    using Cons.prems(3) by (simp, blast)
  from Cons.prems(1) obtain d1 where
    d1: "insert_comments row d = Inr d1" and rest: "executemany insert_comments rows d1 = Inr d'"
    by (simp split: sum.splits)
  from insert_comments_stored [OF d1 [unfolded row] Cons.prems(2)]
  have k1: "comments d1 k = Some (if k = cid then merge_links pr rv th old else old)" .
  have all: "\<forall>row \<in> set rows. \<exists>cid a ca. row = (cid, a, pr, rv, th, ca)"
    using Cons.prems(3) by simp
  from Cons.IH [OF rest k1 all] show ?case
    by (simp add: row merge_links_idem)
qed

lemma comments_query_data_rows:
  "comments_query_data cs pr rv th d = Inr (d', rows) \<Longrightarrow>
     (\<forall>row \<in> set rows. \<exists>cid a ca. row = (cid, a, pr, rv, th, ca)) \<and>
     map (\<lambda>row. Inr (fst row)) rows = map (\<lambda>c. py_int_str (cm_fullDatabaseId c)) cs"
proof (induction cs arbitrary: d rows)
  case Nil
  then show ?case by simp
next
  case (Cons c cs)
  from Cons.prems obtain d1 a k rows1 where
    r: "resolve_author (cm_author c) d = Inr (d1, a)" and
    k: "py_int_str (cm_fullDatabaseId c) = Inr k" and
    rest: "comments_query_data cs pr rv th d1 = Inr (d', rows1)" and
    rows: "rows = (k, a, pr, rv, th, cm_createdAt c) # rows1"
    by (simp split: sum.splits prod.splits)
  from Cons.IH [OF rest] show ?case
    by (simp add: rows k)
qed

lemma frame_authors_comments:
  "d' = d\<lparr>authors := xs\<rparr> \<Longrightarrow> comments d' = comments d"
  by simp

lemma saveComments_stored:
  assumes s: "saveComments cs_opt pr rv th d = Inr d'" and k: "comments d k = Some old"
  shows "comments d' k =
     Some (if Inr k \<in> (\<lambda>c. py_int_str (cm_fullDatabaseId c)) ` set (case cs_opt of None \<Rightarrow> [] | Some cs \<Rightarrow> cs)
           then merge_links pr rv th old else old)"
proof (cases cs_opt)
  case None
  with s k show ?thesis by (simp add: saveComments_def)
next
  case (Some cs)
  show ?thesis
  proof (cases "cs = []")
    case True
    with Some s k show ?thesis by (simp add: saveComments_def)
  next
    case False
    with Some s obtain d1 rows where
      q: "comments_query_data cs pr rv th d = Inr (d1, rows)" and
      e: "executemany insert_comments rows d1 = Inr d'"
      by (simp add: saveComments_def split: sum.splits prod.splits)
    from frame_authors_comments [OF comments_query_data_frame [OF q]] k
    have k1: "comments d1 k = Some old" by simp
    from comments_query_data_rows [OF q]
    have shape: "\<forall>row \<in> set rows. \<exists>cid a ca. row = (cid, a, pr, rv, th, ca)"
      and ids: "map (\<lambda>row. Inr (fst row)) rows = map (\<lambda>c. py_int_str (cm_fullDatabaseId c)) cs"
      by simp_all
    have "(k \<in> fst ` set rows) = ((Inr k :: error + int) \<in> set (map (\<lambda>row. Inr (fst row)) rows))"
      by (simp add: image_iff)
    also have "\<dots> = (Inr k \<in> (\<lambda>c. py_int_str (cm_fullDatabaseId c)) ` set cs)"
      by (simp only: ids set_map)
    finally have mem: "(k \<in> fst ` set rows) = (Inr k \<in> (\<lambda>c. py_int_str (cm_fullDatabaseId c)) ` set cs)" .
    from executemany_insert_comments_stored [OF e k1 shape] show ?thesis
      by (simp only: mem Some option.case)
  qed
qed

text \<open>
  C1. A comment row \<open>old\<close> stored under the id \<open>k\<close> is still stored under \<open>k\<close> after
  any successful \<^verbatim>\<open>saveComments\<close>. If \<open>k\<close> is the id of one of the saved records, each of
  \<^verbatim>\<open>pull_request_id\<close>, \<^verbatim>\<open>review_id\<close>, \<^verbatim>\<open>review_thread_id\<close> is the incoming value when
  that is not null and the stored value when it is null, and author and creation time
  are the stored ones; otherwise the row is unchanged. In either case a link that was
  not null is not null afterwards.
\<close>

theorem comment_parent_links_merge:
  assumes "saveComments cs_opt pr rv th d = Inr d'" and "comments d k = Some old"
  shows "\<exists>new. comments d' k = Some new \<and>
     (Inr k \<in> (\<lambda>c. py_int_str (cm_fullDatabaseId c)) ` set (case cs_opt of None \<Rightarrow> [] | Some cs \<Rightarrow> cs) \<longrightarrow>
        m_pull_request_id new = (if pr = None then m_pull_request_id old else pr) \<and>
        m_review_id new = (if rv = None then m_review_id old else rv) \<and>
        m_review_thread_id new = (if th = None then m_review_thread_id old else th) \<and>
        m_author_id new = m_author_id old \<and> m_created_at new = m_created_at old) \<and>
     (Inr k \<notin> (\<lambda>c. py_int_str (cm_fullDatabaseId c)) ` set (case cs_opt of None \<Rightarrow> [] | Some cs \<Rightarrow> cs) \<longrightarrow>
        new = old) \<and>
     (m_pull_request_id old \<noteq> None \<longrightarrow> m_pull_request_id new \<noteq> None) \<and>
     (m_review_id old \<noteq> None \<longrightarrow> m_review_id new \<noteq> None) \<and>
     (m_review_thread_id old \<noteq> None \<longrightarrow> m_review_thread_id new \<noteq> None)"
proof (cases "Inr k \<in> (\<lambda>c. py_int_str (cm_fullDatabaseId c)) ` set (case cs_opt of None \<Rightarrow> [] | Some cs \<Rightarrow> cs)")
  case True
  with saveComments_stored [OF assms] have "comments d' k = Some (merge_links pr rv th old)"
    by (simp only: if_True)
  with True show ?thesis
    by (simp add: merge_links_def)
next
  case False
  with saveComments_stored [OF assms] have "comments d' k = Some old"
    by (simp only: if_False)
  with False show ?thesis
    by simp
qed

lemma c1_first_save: "saveComments (Some [c1_comment]) (Some 5) None None c1_db0 = Inr c1_db1"
  by (simp add: saveComments_def c1_comment_def resolve_author_def or_empty_def py_int_str_def
        strip_def is_space_def parse_unsigned_def is_digit_def digit_val_def Let_def
        insert_comments_def in_int64_def opt_in_int64_def c1_db0_def c1_db1_def empty_db_def
        author_exists_def pull_request_exists_def review_exists_def review_thread_exists_def)

lemma c1_second_save: "saveComments (Some [c1_comment]) None (Some 7) None c1_db1 = Inr c1_db2"
  by (simp add: saveComments_def c1_comment_def resolve_author_def or_empty_def py_int_str_def
        strip_def is_space_def parse_unsigned_def is_digit_def digit_val_def Let_def
        insert_comments_def in_int64_def opt_in_int64_def c1_db0_def c1_db1_def c1_db2_def
        empty_db_def coalesce_def
        author_exists_def pull_request_exists_def review_exists_def review_thread_exists_def)

theorem comment_parent_links_merge_witness:
  "(saveComments (Some [c1_comment]) (Some 5) None None c1_db0 = Inr c1_db1 \<and>
    saveComments (Some [c1_comment]) None (Some 7) None c1_db1 = Inr c1_db2 \<and>
    comments c1_db1 100 = Some c1_old \<and>
    comments c1_db2 100 = Some (c1_old\<lparr>m_review_id := Some 7\<rparr>) \<and>
    dom (comments c1_db2) = {100}) \<and>
   (\<exists>new. comments c1_db2 100 = Some new \<and>
     (Inr 100 \<in> (\<lambda>c. py_int_str (cm_fullDatabaseId c)) ` set (case Some [c1_comment] of None \<Rightarrow> [] | Some cs \<Rightarrow> cs) \<longrightarrow>
        m_pull_request_id new = (if (None :: int option) = None then m_pull_request_id c1_old else None) \<and>
        m_review_id new = (if Some (7::int) = None then m_review_id c1_old else Some 7) \<and>
        m_review_thread_id new = (if (None :: int option) = None then m_review_thread_id c1_old else None) \<and>
        m_author_id new = m_author_id c1_old \<and> m_created_at new = m_created_at c1_old) \<and>
     (Inr 100 \<notin> (\<lambda>c. py_int_str (cm_fullDatabaseId c)) ` set (case Some [c1_comment] of None \<Rightarrow> [] | Some cs \<Rightarrow> cs) \<longrightarrow>
        new = c1_old) \<and>
     (m_pull_request_id c1_old \<noteq> None \<longrightarrow> m_pull_request_id new \<noteq> None) \<and>
     (m_review_id c1_old \<noteq> None \<longrightarrow> m_review_id new \<noteq> None) \<and>
     (m_review_thread_id c1_old \<noteq> None \<longrightarrow> m_review_thread_id new \<noteq> None))"
proof -
  have old: "comments c1_db1 100 = Some c1_old"
    by (simp add: c1_db1_def c1_old_def)
  have new: "comments c1_db2 100 = Some (c1_old\<lparr>m_review_id := Some 7\<rparr>)"
    by (simp add: c1_db2_def c1_old_def)
  have dom: "dom (comments c1_db2) = {100}"
    by (simp add: c1_db2_def c1_db0_def empty_db_def)
  show ?thesis
    by (intro conjI c1_first_save c1_second_save old new dom
          comment_parent_links_merge [OF c1_second_save old])
qed
subsection \<open>The \<^verbatim>\<open>LIKE\<close> operator and the first match of a scan\<close>




lemma like_match_percent_skip: "like_match ps cs \<Longrightarrow> like_match (CHR ''%'' # ps) cs"
  by (cases cs) simp_all

lemma like_match_percent_run: "like_match ps cs \<Longrightarrow> like_match (CHR ''%'' # ps) (xs @ cs)"
  by (induction xs) (simp_all add: like_match_percent_skip)

lemma like_match_same_case:
  "map ascii_lower s = map ascii_lower t \<Longrightarrow> like_match s t"
proof (induction s arbitrary: t)
  case Nil
  then show ?case by simp
next
  case (Cons p ps)
  then obtain c cs where t: "t = c # cs" and
    pc: "ascii_lower p = ascii_lower c" and rest: "map ascii_lower ps = map ascii_lower cs"
    by (cases t) simp_all
  from Cons.IH [OF rest] have m: "like_match ps cs" .
  show ?case
  proof (cases "p = CHR ''%''")
    case True
    from like_match_percent_run [OF m, of "[c]"] show ?thesis by (simp add: t True)
  next
    case False
    with m pc show ?thesis by (simp add: t)
  qed
qed






lemma find_only_match: "filter P xs = [r] \<Longrightarrow> find P xs = Some r"
  by (induction xs) (simp_all split: if_splits)

subsection \<open>Which tables the other saves write\<close>

lemma executemany_rel:
  assumes step: "\<And>r d d'. stmt r d = Inr d' \<Longrightarrow> R d d'"
    and refl: "\<And>d. R d d"
    and trans: "\<And>a b c. R a b \<Longrightarrow> R b c \<Longrightarrow> R a c"
  shows "executemany stmt rs d = Inr d' \<Longrightarrow> R d d'"
proof (induction rs arbitrary: d)
  case Nil
  then show ?case by (simp add: refl)
next
  case (Cons r rs)
  from Cons.prems obtain d1 where
    d1: "stmt r d = Inr d1" and rest: "executemany stmt rs d1 = Inr d'"
    by (simp split: sum.splits)
  from trans [OF step [OF d1] Cons.IH [OF rest]] show ?case .
qed

lemma insert_commits_frame:
  assumes "insert_commits row d = Inr d'"
  shows "d' = d\<lparr>commits := commits d'\<rparr>"
proof -
  obtain p u c where row: "row = (p, u, c)" by (cases row)
  from assms show ?thesis
    unfolding row insert_commits_def
    by (simp split: if_splits option.splits) fastforce+
qed

lemma insert_files_frame:
  assumes "insert_files row d = Inr d'"
  shows "d' = d\<lparr>files := files d'\<rparr>"
proof -
  obtain p pa c a dl where row: "row = (p, pa, c, a, dl)" by (cases row)
  from assms show ?thesis
    unfolding row insert_files_def
    by (simp split: if_splits option.splits) fastforce+
qed

lemma insert_labels_frame:
  assumes "insert_labels name d = Inr d'"
  shows "d' = d\<lparr>labels := labels d'\<rparr>"
  using assms unfolding insert_labels_def
  by (simp split: if_splits option.splits) fastforce+

lemma insert_author_pull_request_frame:
  assumes "insert_author_pull_request row d = Inr d'"
  shows "d' = d\<lparr>author_pull_request := author_pull_request d'\<rparr>"
proof -
  obtain a p where row: "row = (a, p)" by (cases row)
  from assms show ?thesis
    unfolding row insert_author_pull_request_def
    by (simp split: if_splits) fastforce+
qed

lemma insert_label_pull_request_frame:
  assumes "insert_label_pull_request row d = Inr d'"
  shows "d' = d\<lparr>label_pull_request := label_pull_request d'\<rparr>"
proof -
  obtain a p where row: "row = (a, p)" by (cases row)
  from assms show ?thesis
    unfolding row insert_label_pull_request_def
    by (simp split: if_splits) fastforce+
qed

lemma insert_reviews_frame:
  assumes "insert_reviews row d = Inr d'"
  shows "d' = d\<lparr>reviews := reviews d'\<rparr>"
proof -
  obtain i a p c where row: "row = (i, a, p, c)" by (cases row)
  from assms show ?thesis
    unfolding row insert_reviews_def
    by (simp split: if_splits option.splits) fastforce+
qed

lemma insert_review_threads_frame:
  assumes "insert_review_threads row d = Inr (d', res)"
  shows "d' = d\<lparr>review_threads := review_threads d'\<rparr>"
proof -
  obtain n p where row: "row = (n, p)" by (cases row)
  from assms show ?thesis
    unfolding row insert_review_threads_def
    by (simp add: Let_def split: if_splits option.splits) fastforce+
qed

lemma insert_comments_frame:
  assumes "insert_comments row d = Inr d'"
  shows "d' = d\<lparr>comments := comments d'\<rparr>"
proof -
  obtain cid a pr rv th ca where row: "row = (cid, a, pr, rv, th, ca)" by (cases row)
  from insert_comments_Inr [OF assms [unfolded row]] show ?thesis
    by simp
qed

lemma saveCommits_frame:
  assumes "saveCommits cs p d = Inr d'"
  shows "d' = d\<lparr>commits := commits d'\<rparr>"
proof (cases "cs = None \<or> cs = Some []")
  case True
  with assms show ?thesis by (auto simp: saveCommits_def)
next
  case False
  then obtain xs where "cs = Some xs" "xs \<noteq> []" by (cases cs) auto
  with assms obtain rows where "executemany insert_commits rows d = Inr d'"
    by (simp add: saveCommits_def)
  then show ?thesis
    by (rule executemany_rel [where R = "\<lambda>d d'. d' = d\<lparr>commits := commits d'\<rparr>", rotated -1])
       (erule insert_commits_frame, simp, metis db.surjective db.update_convs(3))
qed

lemma saveFiles_frame:
  assumes "saveFiles fs p d = Inr d'"
  shows "d' = d\<lparr>files := files d'\<rparr>"
proof (cases "fs = None \<or> fs = Some []")
  case True
  with assms show ?thesis by (auto simp: saveFiles_def)
next
  case False
  then obtain xs where "fs = Some xs" "xs \<noteq> []" by (cases fs) auto
  with assms obtain rows where "executemany insert_files rows d = Inr d'"
    by (simp add: saveFiles_def)
  then show ?thesis
    by (rule executemany_rel [where R = "\<lambda>d d'. d' = d\<lparr>files := files d'\<rparr>", rotated -1])
       (erule insert_files_frame, simp, metis db.surjective db.update_convs(7))
qed

lemma saveLabels_frame:
  assumes "saveLabels ls d = Inr d'"
  shows "d' = d\<lparr>labels := labels d'\<rparr>"
proof (cases "ls = None \<or> ls = Some []")
  case True
  with assms show ?thesis by (auto simp: saveLabels_def)
next
  case False
  then obtain xs where "ls = Some xs" "xs \<noteq> []" by (cases ls) auto
  with assms obtain rows where "executemany insert_labels rows d = Inr d'"
    by (simp add: saveLabels_def)
  then show ?thesis
    by (rule executemany_rel [where R = "\<lambda>d d'. d' = d\<lparr>labels := labels d'\<rparr>", rotated -1])
       (erule insert_labels_frame, simp, metis db.surjective db.update_convs(9))
qed

lemma executemany_insert_comments_frame:
  assumes "executemany insert_comments rows d = Inr d'"
  shows "d' = d\<lparr>comments := comments d'\<rparr>"
  using assms
  by (rule executemany_rel [where R = "\<lambda>d d'. d' = d\<lparr>comments := comments d'\<rparr>", rotated -1])
     (erule insert_comments_frame, simp, metis db.surjective db.update_convs(6))

lemma executemany_insert_author_pull_request_frame:
  assumes "executemany insert_author_pull_request rows d = Inr d'"
  shows "d' = d\<lparr>author_pull_request := author_pull_request d'\<rparr>"
  using assms
  by (rule executemany_rel
        [where R = "\<lambda>d d'. d' = d\<lparr>author_pull_request := author_pull_request d'\<rparr>", rotated -1])
     (erule insert_author_pull_request_frame, simp, metis db.surjective db.update_convs(8))

lemma executemany_insert_label_pull_request_frame:
  assumes "executemany insert_label_pull_request rows d = Inr d'"
  shows "d' = d\<lparr>label_pull_request := label_pull_request d'\<rparr>"
  using assms
  by (rule executemany_rel
        [where R = "\<lambda>d d'. d' = d\<lparr>label_pull_request := label_pull_request d'\<rparr>", rotated -1])
     (erule insert_label_pull_request_frame, simp, metis db.surjective db.update_convs(10))

text \<open>The tables that \<^verbatim>\<open>saveComments\<close> leaves alone.\<close>

lemma saveComments_keeps:
  assumes "saveComments cs pr rv th d = Inr d'"
  shows "pull_requests d' = pull_requests d \<and> reviews d' = reviews d \<and>
         review_threads d' = review_threads d \<and> commits d' = commits d \<and>
         files d' = files d \<and> labels d' = labels d \<and>
         author_pull_request d' = author_pull_request d \<and>
         label_pull_request d' = label_pull_request d"
proof (cases "cs = None \<or> cs = Some []")
  case True
  with assms show ?thesis by (auto simp: saveComments_def)
next
  case False
  then obtain xs where "cs = Some xs" "xs \<noteq> []" by (cases cs) auto
  with assms obtain d1 rows where
    q: "comments_query_data xs pr rv th d = Inr (d1, rows)" and
    e: "executemany insert_comments rows d1 = Inr d'"
    by (simp add: saveComments_def split: sum.splits prod.splits)
  have "d' = d\<lparr>authors := authors d1, comments := comments d'\<rparr>"
    using comments_query_data_frame [OF q] executemany_insert_comments_frame [OF e]
    by (metis db.update_convs(1))
  then show ?thesis
    by (metis db.select_convs db.surjective db.update_convs(1) db.update_convs(6))
qed

lemma resolve_author_keeps:
  assumes "resolve_author author d = Inr (d', i)"
  shows "pull_requests d' = pull_requests d \<and> reviews d' = reviews d \<and>
         review_threads d' = review_threads d \<and> comments d' = comments d \<and>
         commits d' = commits d \<and> files d' = files d \<and> labels d' = labels d \<and>
         author_pull_request d' = author_pull_request d \<and>
         label_pull_request d' = label_pull_request d"
  using resolve_author_frame [OF assms]
  by (metis db.select_convs db.surjective db.update_convs(1))

lemma saveReview_pull_requests:
  assumes "saveReview review p d = Inr d'"
  shows "pull_requests d' = pull_requests d"
proof -
  from assms obtain k d1 a d2 where
    r: "resolve_author (rv_author review) d = Inr (d1, a)" and
    i: "insert_reviews (k, a, p, rv_createdAt review) d1 = Inr d2" and
    c: "saveComments (or_empty (rv_comments review) nodes) None (Some k) None d2 = Inr d'"
    by (simp add: saveReview_def split: sum.splits prod.splits)
  have "pull_requests d2 = pull_requests d1"
    using insert_reviews_frame [OF i] by (metis db.select_convs(2) db.surjective db.update_convs(4))
  with resolve_author_keeps [OF r] saveComments_keeps [OF c] show ?thesis by simp
qed

lemma saveReviews_pull_requests:
  assumes "saveReviews rs p d = Inr d'"
  shows "pull_requests d' = pull_requests d"
proof -
  have loop: "saveReviews_loop xs p d = Inr d' \<Longrightarrow> pull_requests d' = pull_requests d" for xs d
  proof (induction xs arbitrary: d)
    case Nil
    then show ?case by simp
  next
    case (Cons x xs)
    from Cons.prems obtain d1 where
      a: "saveReview x p d = Inr d1" and b: "saveReviews_loop xs p d1 = Inr d'"
      by (simp split: sum.splits)
    from saveReview_pull_requests [OF a] Cons.IH [OF b] show ?case by simp
  qed
  from assms show ?thesis
    by (cases rs) (simp_all add: saveReviews_def loop split: if_splits)
qed

lemma saveReviewThread_pull_requests:
  assumes "saveReviewThread thread p d = Inr d'"
  shows "pull_requests d' = pull_requests d"
proof -
  from assms obtain d1 res where
    i: "insert_review_threads (th_id thread, p) d = Inr (d1, res)" and
    c: "saveComments (or_empty (th_comments thread) nodes) None None
          (case res of None \<Rightarrow> None | Some i \<Rightarrow> Some i) d1 = Inr d'"
    by (simp add: saveReviewThread_def Let_def split: sum.splits prod.splits)
  have "pull_requests d1 = pull_requests d"
    using insert_review_threads_frame [OF i]
    by (metis db.select_convs(2) db.surjective db.update_convs(5))
  with saveComments_keeps [OF c] show ?thesis by simp
qed

lemma saveReviewThreads_pull_requests:
  assumes "saveReviewThreads ts p d = Inr d'"
  shows "pull_requests d' = pull_requests d"
proof -
  have loop: "saveReviewThreads_loop xs p d = Inr d' \<Longrightarrow> pull_requests d' = pull_requests d" for xs d
  proof (induction xs arbitrary: d)
    case Nil
    then show ?case by simp
  next
    case (Cons x xs)
    from Cons.prems obtain d1 where
      a: "saveReviewThread x p d = Inr d1" and b: "saveReviewThreads_loop xs p d1 = Inr d'"
      by (simp split: sum.splits)
    from saveReviewThread_pull_requests [OF a] Cons.IH [OF b] show ?case by simp
  qed
  from assms show ?thesis
    by (cases ts) (simp_all add: saveReviewThreads_def loop split: if_splits)
qed

lemma saveParticipants_pull_requests:
  assumes "saveParticipants as p d = Inr d'"
  shows "pull_requests d' = pull_requests d"
proof (cases "as = None \<or> as = Some []")
  case True
  with assms show ?thesis by (auto simp: saveParticipants_def)
next
  case False
  then obtain xs where "as = Some xs" "xs \<noteq> []" by (cases as) auto
  with assms obtain d1 rows where
    a: "saveAuthors as d = Inr d1" and
    e: "executemany insert_author_pull_request rows d1 = Inr d'"
    by (simp add: saveParticipants_def split: sum.splits)
  have "pull_requests d1 = pull_requests d"
    using saveAuthors_frame [OF a] by (metis db.select_convs(2) db.surjective db.update_convs(1))
  moreover have "pull_requests d' = pull_requests d1"
    using executemany_insert_author_pull_request_frame [OF e]
    by (metis db.select_convs(2) db.surjective db.update_convs(8))
  ultimately show ?thesis by simp
qed

lemma linkLabelsWithPullRequest_pull_requests:
  assumes "linkLabelsWithPullRequest ls p d = Inr d'"
  shows "pull_requests d' = pull_requests d"
proof (cases "ls = None \<or> ls = Some []")
  case True
  with assms show ?thesis by (auto simp: linkLabelsWithPullRequest_def)
next
  case False
  then obtain xs where "ls = Some xs" "xs \<noteq> []" by (cases ls) auto
  with assms obtain d1 rows where
    a: "saveLabels ls d = Inr d1" and
    e: "executemany insert_label_pull_request rows d1 = Inr d'"
    by (simp add: linkLabelsWithPullRequest_def split: sum.splits)
  have "pull_requests d1 = pull_requests d"
    using saveLabels_frame [OF a] by (metis db.select_convs(2) db.surjective db.update_convs(9))
  moreover have "pull_requests d' = pull_requests d1"
    using executemany_insert_label_pull_request_frame [OF e]
    by (metis db.select_convs(2) db.surjective db.update_convs(10))
  ultimately show ?thesis by simp
qed

lemma savePullRequest_nested_pull_requests:
  assumes "savePullRequest_nested pull_request p d = Inr d'"
  shows "pull_requests d' = pull_requests d"
proof -
  from assms obtain d1 d2 d3 d4 d5 d6 where
    s1: "saveCommits (or_empty (pr_commits pull_request) nodes) p d = Inr d1" and
    s2: "saveComments (or_empty (pr_comments pull_request) nodes) (Some p) None None d1 = Inr d2" and
    s3: "saveReviews (or_empty (pr_reviews pull_request) nodes) p d2 = Inr d3" and
    s4: "saveReviewThreads (or_empty (pr_reviewThreads pull_request) nodes) p d3 = Inr d4" and
    s5: "saveFiles (or_empty (pr_files pull_request) nodes) p d4 = Inr d5" and
    s6: "saveParticipants (or_empty (pr_participants pull_request) nodes) p d5 = Inr d6" and
    s7: "linkLabelsWithPullRequest (or_empty (pr_labels pull_request) nodes) p d6 = Inr d'"
    by (simp add: savePullRequest_nested_def split: sum.splits)
  have "pull_requests d1 = pull_requests d"
    using saveCommits_frame [OF s1] by (metis db.select_convs(2) db.surjective db.update_convs(3))
  moreover have "pull_requests d5 = pull_requests d4"
    using saveFiles_frame [OF s5] by (metis db.select_convs(2) db.surjective db.update_convs(7))
  ultimately show ?thesis
    using saveComments_keeps [OF s2] saveReviews_pull_requests [OF s3]
      saveReviewThreads_pull_requests [OF s4] saveParticipants_pull_requests [OF s6]
      linkLabelsWithPullRequest_pull_requests [OF s7]
    by simp
qed

subsection \<open>Pull requests: every column is refreshed\<close>

lemma insert_pull_requests_Inr:
  assumes "insert_pull_requests (n, q) d = Inr d'"
  shows "\<exists>title state created_at author_association total_comments.
     q_title q = Some title \<and> q_state q = Some state \<and> q_created_at q = Some created_at \<and>
     q_author_association q = Some author_association \<and>
     q_api_total_comments_count q = Some total_comments \<and>
     d' = d\<lparr>pull_requests := (pull_requests d)(n \<mapsto>
            \<lparr>p_author_id = q_author_id q,
             p_title = title,
             p_state = state,
             p_created_at = created_at,
             p_closed_at = q_closed_at q,
             p_merged_at = q_merged_at q,
             p_additions = q_additions q,
             p_deletions = q_deletions q,
             p_author_association = author_association,
             p_head_repository_url = q_head_repository_url q,
             p_is_cross_repository = q_is_cross_repository q,
             p_merge_commit_ci_state = q_merge_commit_ci_state q,
             p_api_total_comments_count = total_comments\<rparr>)\<rparr>"
  using assms
  by (cases "q_title q"; cases "q_state q"; cases "q_created_at q";
      cases "q_author_association q"; cases "q_api_total_comments_count q")
     (simp_all add: insert_pull_requests_def split: if_splits, (fastforce+)?)

lemma pull_request_tuple_Inr:
  assumes "pull_request_tuple pull_request a = Inr q"
  shows "\<exists>additions deletions is_cross.
     pr_additions pull_request = Some additions \<and> pr_deletions pull_request = Some deletions \<and>
     pr_isCrossRepository pull_request = Some is_cross \<and>
     q = \<lparr>q_author_id = a,
          q_title = pr_title pull_request,
          q_state = pr_state pull_request,
          q_created_at = pr_createdAt pull_request,
          q_closed_at = pr_closedAt pull_request,
          q_merged_at = pr_mergedAt pull_request,
          q_additions = additions,
          q_deletions = deletions,
          q_author_association = pr_authorAssociation pull_request,
          q_head_repository_url = or_empty (pr_headRepository pull_request) hr_url,
          q_is_cross_repository = (if is_cross then 1 else 0),
          q_merge_commit_ci_state =
            or_empty (or_empty (pr_mergeCommit pull_request) mc_statusCheckRollup) ru_state,
          q_api_total_comments_count = pr_totalCommentsCount pull_request\<rparr>"
  using assms
  by (cases "pr_additions pull_request"; cases "pr_deletions pull_request";
      cases "pr_isCrossRepository pull_request")
     (simp_all add: pull_request_tuple_def py_int_def py_int_bool_def, (fastforce+)?)


lemma find_first_match:
  "find P xs = Some r \<Longrightarrow> \<exists>pre post. xs = pre @ r # post \<and> P r \<and> (\<forall>x \<in> set pre. \<not> P x)"
proof (induction xs)
  case Nil
  then show ?case by simp
next
  case (Cons x xs)
  show ?case
  proof (cases "P x")
    case True
    with Cons.prems have "x = r" by simp
    with True have "x # xs = [] @ r # xs \<and> P r \<and> (\<forall>x \<in> set []. \<not> P x)" by simp
    then show ?thesis by blast
  next
    case False
    with Cons.prems have "find P xs = Some r" by simp
    from Cons.IH [OF this] obtain pre post where
      d: "xs = pre @ r # post" and p: "P r" and n: "\<forall>x \<in> set pre. \<not> P x"
      by blast
    from d p n False have "x # xs = (x # pre) @ r # post \<and> P r \<and> (\<forall>y \<in> set (x # pre). \<not> P y)"
      by simp
    then show ?thesis by blast
  qed
qed

lemma index_insert_mem: "a \<in> set (index_insert a xs)"
  by (induction xs) simp_all

lemma list_ex_login_mem:
  "list_ex (\<lambda>a. a_login a = l) xs \<Longrightarrow> \<exists>r \<in> set xs. a_login r = l"
  by (simp add: list_ex_iff)

lemma saveAuthor_None_result:
  "saveAuthor l None d =
     Inr (if list_ex (\<lambda>a. a_login a = l) (authors d) then d
          else d\<lparr>authors := index_insert
                 \<lparr>a_id = next_rowid (map a_id (authors d)), a_login = l, a_name = None\<rparr>
                 (authors d)\<rparr>)"
  by (simp add: saveAuthor_def insert_authors_def)

lemma saveAuthor_None_stores:
  assumes "saveAuthor l None d = Inr d1"
  shows "\<exists>r \<in> set (authors d1). a_login r = l"
proof (cases "list_ex (\<lambda>a. a_login a = l) (authors d)")
  case True
  with assms have "d1 = d" by (simp add: saveAuthor_None_result)
  with list_ex_login_mem [OF True] show ?thesis by simp
next
  case False
  define new where "new = \<lparr>a_id = next_rowid (map a_id (authors d)), a_login = l, a_name = None\<rparr>"
  from False assms have "authors d1 = index_insert new (authors d)"
    by (simp add: saveAuthor_None_result new_def) fastforce
  then have "new \<in> set (authors d1)" by (simp add: index_insert_mem)
  moreover have "a_login new = l" by (simp add: new_def)
  ultimately show ?thesis by blast
qed

lemma resolved_author_id:
  assumes "resolve_author author d = Inr (d1, a)"
  shows "(or_empty author ac_login = None \<longrightarrow> d1 = d \<and> a = None) \<and>
     (\<forall>l. or_empty author ac_login = Some l \<longrightarrow>
        saveAuthor l None d = Inr d1 \<and>
        (\<exists>r \<in> set (authors d1). a_login r = l) \<and>
        a = getAuthorIDByLogin l d1 \<and>
        (\<exists>pre r post. authors d1 = pre @ r # post \<and> like_match l (a_login r) \<and>
           (\<forall>x \<in> set pre. \<not> like_match l (a_login x)) \<and> a = Some (a_id r)) \<and>
        (\<forall>r0. filter (\<lambda>r. like_match l (a_login r)) (authors d1) = [r0] \<longrightarrow>
           a_login r0 = l \<and> a = Some (a_id r0)))"
proof (rule conjI)
  show "or_empty author ac_login = None \<longrightarrow> d1 = d \<and> a = None"
  proof (rule impI)
    assume n: "or_empty author ac_login = None"
    from assms show "d1 = d \<and> a = None" by (simp add: resolve_author_def n)
  qed
next
  show "\<forall>l. or_empty author ac_login = Some l \<longrightarrow>
        saveAuthor l None d = Inr d1 \<and>
        (\<exists>r \<in> set (authors d1). a_login r = l) \<and>
        a = getAuthorIDByLogin l d1 \<and>
        (\<exists>pre r post. authors d1 = pre @ r # post \<and> like_match l (a_login r) \<and>
           (\<forall>x \<in> set pre. \<not> like_match l (a_login x)) \<and> a = Some (a_id r)) \<and>
        (\<forall>r0. filter (\<lambda>r. like_match l (a_login r)) (authors d1) = [r0] \<longrightarrow>
           a_login r0 = l \<and> a = Some (a_id r0))"
  proof (intro allI impI)
    fix l assume l: "or_empty author ac_login = Some l"
    from assms l have sv: "saveAuthor l None d = Inr d1" and a: "a = getAuthorIDByLogin l d1"
      by (simp_all add: resolve_author_def split: sum.splits)
    from saveAuthor_None_stores [OF sv] obtain r1 where
      r1: "r1 \<in> set (authors d1)" and r1l: "a_login r1 = l" by blast
    have self: "like_match l (a_login r1)"
      using like_match_same_case [of l l] by (simp add: r1l)
    have "find (\<lambda>r. like_match l (a_login r)) (authors d1) \<noteq> None"
      using r1 self by (simp add: find_None_iff) blast
    then obtain r where f: "find (\<lambda>r. like_match l (a_login r)) (authors d1) = Some r"
      by blast
    have ar: "a = Some (a_id r)" by (simp add: a getAuthorIDByLogin_def f)
    from find_first_match [OF f] obtain pre post where
      first: "authors d1 = pre @ r # post \<and> like_match l (a_login r) \<and>
              (\<forall>x \<in> set pre. \<not> like_match l (a_login x))"
      by blast
    have stored: "\<exists>r \<in> set (authors d1). a_login r = l" using r1 r1l by blast
    have decomp: "\<exists>pre r post. authors d1 = pre @ r # post \<and> like_match l (a_login r) \<and>
           (\<forall>x \<in> set pre. \<not> like_match l (a_login x)) \<and> a = Some (a_id r)"
      using first ar by blast
    have only: "\<forall>r0. filter (\<lambda>r. like_match l (a_login r)) (authors d1) = [r0] \<longrightarrow>
           a_login r0 = l \<and> a = Some (a_id r0)"
    proof (intro allI impI)
      fix r0 assume o: "filter (\<lambda>r. like_match l (a_login r)) (authors d1) = [r0]"
      from find_only_match [OF o] f have "r = r0" by simp
      moreover have "r1 \<in> set (filter (\<lambda>r. like_match l (a_login r)) (authors d1))"
        using r1 self by simp
      then have "r1 = r0" by (simp only: o) simp
      ultimately show "a_login r0 = l \<and> a = Some (a_id r0)" using ar r1l by simp
    qed
    show "saveAuthor l None d = Inr d1 \<and>
        (\<exists>r \<in> set (authors d1). a_login r = l) \<and>
        a = getAuthorIDByLogin l d1 \<and>
        (\<exists>pre r post. authors d1 = pre @ r # post \<and> like_match l (a_login r) \<and>
           (\<forall>x \<in> set pre. \<not> like_match l (a_login x)) \<and> a = Some (a_id r)) \<and>
        (\<forall>r0. filter (\<lambda>r. like_match l (a_login r)) (authors d1) = [r0] \<longrightarrow>
           a_login r0 = l \<and> a = Some (a_id r0))"
      by (intro conjI sv stored a decomp only)
  qed
qed

lemma resolve_author_any_pull_requests:
  "resolve_author author d = Inr (d1, a) \<Longrightarrow>
   resolve_author author (d\<lparr>pull_requests := m\<rparr>) = Inr (d1\<lparr>pull_requests := m\<rparr>, a)"
  by (cases "or_empty author ac_login")
     (auto simp add: resolve_author_def saveAuthor_None_result getAuthorIDByLogin_def)

text \<open>
  C3. After a successful \<^verbatim>\<open>savePullRequests\<close> of one record, the row stored under its
  number holds, in every one of the thirteen columns, the value that came in with the
  record; the row that was stored before does not occur in the result, nothing of it is
  kept. The column \<^verbatim>\<open>author_id\<close> is NULL when the record has no author login. With a
  login, the author is saved first, so that a row with this login is stored, and
  \<^verbatim>\<open>author_id\<close> is the id of the first row, in login order, whose login the incoming
  login matches under \<^verbatim>\<open>LIKE\<close>; the row with the incoming login is one of the matching
  rows, and it is the one referenced whenever no other stored login matches. The id is the
  same whatever was stored under the number before.
\<close>

theorem pull_request_full_refresh:
  assumes "savePullRequests [pull_request] d = Inr d'"
  shows "\<exists>n title state created_at author_association total_comments additions deletions
          is_cross d1 author_id.
     pr_number pull_request = Some n \<and>
     pr_title pull_request = Some title \<and>
     pr_state pull_request = Some state \<and>
     pr_createdAt pull_request = Some created_at \<and>
     pr_authorAssociation pull_request = Some author_association \<and>
     pr_totalCommentsCount pull_request = Some total_comments \<and>
     pr_additions pull_request = Some additions \<and>
     pr_deletions pull_request = Some deletions \<and>
     pr_isCrossRepository pull_request = Some is_cross \<and>
     resolve_author (pr_author pull_request) d = Inr (d1, author_id) \<and>
     (\<forall>old. resolve_author (pr_author pull_request)
              (d\<lparr>pull_requests := (pull_requests d)(n := old)\<rparr>) =
            Inr (d1\<lparr>pull_requests := (pull_requests d)(n := old)\<rparr>, author_id)) \<and>
     (or_empty (pr_author pull_request) ac_login = None \<longrightarrow> d1 = d \<and> author_id = None) \<and>
     (\<forall>l. or_empty (pr_author pull_request) ac_login = Some l \<longrightarrow>
        saveAuthor l None d = Inr d1 \<and>
        (\<exists>r \<in> set (authors d1). a_login r = l) \<and>
        author_id = getAuthorIDByLogin l d1 \<and>
        (\<exists>pre r post. authors d1 = pre @ r # post \<and> like_match l (a_login r) \<and>
           (\<forall>x \<in> set pre. \<not> like_match l (a_login x)) \<and> author_id = Some (a_id r)) \<and>
        (\<forall>r0. filter (\<lambda>r. like_match l (a_login r)) (authors d1) = [r0] \<longrightarrow>
           a_login r0 = l \<and> author_id = Some (a_id r0))) \<and>
     pull_requests d' n = Some
       \<lparr>p_author_id = author_id,
        p_title = title,
        p_state = state,
        p_created_at = created_at,
        p_closed_at = pr_closedAt pull_request,
        p_merged_at = pr_mergedAt pull_request,
        p_additions = additions,
        p_deletions = deletions,
        p_author_association = author_association,
        p_head_repository_url = or_empty (pr_headRepository pull_request) hr_url,
        p_is_cross_repository = (if is_cross then 1 else 0),
        p_merge_commit_ci_state =
          or_empty (or_empty (pr_mergeCommit pull_request) mc_statusCheckRollup) ru_state,
        p_api_total_comments_count = total_comments\<rparr>"
proof -
  from assms have "savePullRequest pull_request d = Inr d'"
    by (simp split: sum.splits)
  then obtain d2 n where
    row: "savePullRequest_row pull_request d = Inr (d2, n)" and
    nested: "savePullRequest_nested pull_request n d2 = Inr d'"
    by (simp add: savePullRequest_def split: sum.splits prod.splits)
  from row obtain d1 a q where
    n: "pr_number pull_request = Some n" and
    r: "resolve_author (pr_author pull_request) d = Inr (d1, a)" and
    t: "pull_request_tuple pull_request a = Inr q" and
    i: "insert_pull_requests (n, q) d1 = Inr d2"
    by (cases "pr_number pull_request")
       (simp_all add: savePullRequest_row_def py_int_def split: sum.splits prod.splits)
  from pull_request_tuple_Inr [OF t] obtain additions deletions is_cross where
    a: "pr_additions pull_request = Some additions" and
    dl: "pr_deletions pull_request = Some deletions" and
    c: "pr_isCrossRepository pull_request = Some is_cross" and
    q: "q = \<lparr>q_author_id = a,
          q_title = pr_title pull_request,
          q_state = pr_state pull_request,
          q_created_at = pr_createdAt pull_request,
          q_closed_at = pr_closedAt pull_request,
          q_merged_at = pr_mergedAt pull_request,
          q_additions = additions,
          q_deletions = deletions,
          q_author_association = pr_authorAssociation pull_request,
          q_head_repository_url = or_empty (pr_headRepository pull_request) hr_url,
          q_is_cross_repository = (if is_cross then 1 else 0),
          q_merge_commit_ci_state =
            or_empty (or_empty (pr_mergeCommit pull_request) mc_statusCheckRollup) ru_state,
          q_api_total_comments_count = pr_totalCommentsCount pull_request\<rparr>"
    by blast
  from insert_pull_requests_Inr [OF i] obtain title state created_at author_association
      total_comments where
    f1: "q_title q = Some title" and f2: "q_state q = Some state" and
    f3: "q_created_at q = Some created_at" and
    f4: "q_author_association q = Some author_association" and
    f5: "q_api_total_comments_count q = Some total_comments" and
    d2: "d2 = d1\<lparr>pull_requests := (pull_requests d1)(n \<mapsto>
            \<lparr>p_author_id = q_author_id q,
             p_title = title,
             p_state = state,
             p_created_at = created_at,
             p_closed_at = q_closed_at q,
             p_merged_at = q_merged_at q,
             p_additions = q_additions q,
             p_deletions = q_deletions q,
             p_author_association = author_association,
             p_head_repository_url = q_head_repository_url q,
             p_is_cross_repository = q_is_cross_repository q,
             p_merge_commit_ci_state = q_merge_commit_ci_state q,
             p_api_total_comments_count = total_comments\<rparr>)\<rparr>"
    by blast
  have stored: "pull_requests d' n = pull_requests d2 n"
    using savePullRequest_nested_pull_requests [OF nested] by simp
  have g1: "pr_title pull_request = Some title" using f1 by (simp add: q)
  have g2: "pr_state pull_request = Some state" using f2 by (simp add: q)
  have g3: "pr_createdAt pull_request = Some created_at" using f3 by (simp add: q)
  have g4: "pr_authorAssociation pull_request = Some author_association" using f4 by (simp add: q)
  have g5: "pr_totalCommentsCount pull_request = Some total_comments" using f5 by (simp add: q)
  have any: "\<forall>old. resolve_author (pr_author pull_request)
              (d\<lparr>pull_requests := (pull_requests d)(n := old)\<rparr>) =
            Inr (d1\<lparr>pull_requests := (pull_requests d)(n := old)\<rparr>, a)"
    using resolve_author_any_pull_requests [OF r] by blast
  note who = resolved_author_id [OF r]
  have final: "pull_requests d' n = Some
       \<lparr>p_author_id = a,
        p_title = title,
        p_state = state,
        p_created_at = created_at,
        p_closed_at = pr_closedAt pull_request,
        p_merged_at = pr_mergedAt pull_request,
        p_additions = additions,
        p_deletions = deletions,
        p_author_association = author_association,
        p_head_repository_url = or_empty (pr_headRepository pull_request) hr_url,
        p_is_cross_repository = (if is_cross then 1 else 0),
        p_merge_commit_ci_state =
          or_empty (or_empty (pr_mergeCommit pull_request) mc_statusCheckRollup) ru_state,
        p_api_total_comments_count = total_comments\<rparr>"
    by (simp add: stored d2 q)
  show ?thesis
    by (intro exI conjI)
       (rule n g1 g2 g3 g4 g5 a dl c r any who [THEN conjunct1] who [THEN conjunct2] final)+
qed

lemma c3_like: "like_match ''bob'' ''bob''" "\<not> like_match ''bob'' ''alice''"
  by (simp_all add: ascii_lower_def)

lemma c3_author:
  "resolve_author (pr_author c3_pr) c3_db0 =
     Inr (c3_db0\<lparr>authors := [\<lparr>a_id = 1, a_login = ''alice'', a_name = None\<rparr>,
                              \<lparr>a_id = 2, a_login = ''bob'', a_name = None\<rparr>]\<rparr>, Some 2)"
  by (simp add: resolve_author_def or_empty_def c3_pr_def c3_db0_def saveAuthor_def
        insert_authors_def next_rowid_def getAuthorIDByLogin_def c3_like)

lemma c3_resave: "savePullRequests [c3_pr] c3_db0 = Inr c3_db1"
  by (simp add: savePullRequest_def savePullRequest_row_def savePullRequest_nested_def
        c3_pr_def c3_db0_def c3_db1_def c3_new_def empty_db_def py_int_def py_int_bool_def
        resolve_author_def saveAuthor_def insert_authors_def next_rowid_def
        getAuthorIDByLogin_def c3_like
        or_empty_def pull_request_tuple_def insert_pull_requests_def
        in_int64_def opt_in_int64_def author_exists_def
        saveCommits_def saveComments_def saveReviews_def saveReviewThreads_def saveFiles_def
        saveParticipants_def linkLabelsWithPullRequest_def)

text \<open>
  A login is a \<^verbatim>\<open>LIKE\<close> pattern when it is read back: with \<^verbatim>\<open>a-b\<close> stored under id 1, a
  record whose author is \<^verbatim>\<open>a_b\<close> stores the new author under id 2 and references id 1.
\<close>

lemma c3_pattern_login:
  "resolve_author (Some \<lparr>ac_login = Some ''a_b'', ac_name = None\<rparr>)
     (empty_db\<lparr>authors := [\<lparr>a_id = 1, a_login = ''a-b'', a_name = None\<rparr>]\<rparr>) =
   Inr (empty_db\<lparr>authors := [\<lparr>a_id = 1, a_login = ''a-b'', a_name = None\<rparr>,
                             \<lparr>a_id = 2, a_login = ''a_b'', a_name = None\<rparr>]\<rparr>, Some 1)"
  by (simp add: resolve_author_def or_empty_def empty_db_def saveAuthor_def
        insert_authors_def next_rowid_def getAuthorIDByLogin_def ascii_lower_def)

theorem pull_request_full_refresh_witness:
  "(savePullRequests [c3_pr] c3_db0 = Inr c3_db1 \<and>
    pull_requests c3_db0 5 = Some c3_old \<and> p_author_id c3_old = Some 1 \<and>
    pull_requests c3_db1 5 = Some c3_new \<and> p_author_id c3_new = Some 2 \<and>
    or_empty (pr_author c3_pr) ac_login = Some ''bob'' \<and>
    getAuthorIDByLogin ''bob'' c3_db1 = Some 2) \<and>
   (\<exists>n title state created_at author_association total_comments additions deletions
          is_cross d1 author_id.
     pr_number c3_pr = Some n \<and>
     pr_title c3_pr = Some title \<and>
     pr_state c3_pr = Some state \<and>
     pr_createdAt c3_pr = Some created_at \<and>
     pr_authorAssociation c3_pr = Some author_association \<and>
     pr_totalCommentsCount c3_pr = Some total_comments \<and>
     pr_additions c3_pr = Some additions \<and>
     pr_deletions c3_pr = Some deletions \<and>
     pr_isCrossRepository c3_pr = Some is_cross \<and>
     resolve_author (pr_author c3_pr) c3_db0 = Inr (d1, author_id) \<and>
     (\<forall>old. resolve_author (pr_author c3_pr)
              (c3_db0\<lparr>pull_requests := (pull_requests c3_db0)(n := old)\<rparr>) =
            Inr (d1\<lparr>pull_requests := (pull_requests c3_db0)(n := old)\<rparr>, author_id)) \<and>
     (or_empty (pr_author c3_pr) ac_login = None \<longrightarrow> d1 = c3_db0 \<and> author_id = None) \<and>
     (\<forall>l. or_empty (pr_author c3_pr) ac_login = Some l \<longrightarrow>
        saveAuthor l None c3_db0 = Inr d1 \<and>
        (\<exists>r \<in> set (authors d1). a_login r = l) \<and>
        author_id = getAuthorIDByLogin l d1 \<and>
        (\<exists>pre r post. authors d1 = pre @ r # post \<and> like_match l (a_login r) \<and>
           (\<forall>x \<in> set pre. \<not> like_match l (a_login x)) \<and> author_id = Some (a_id r)) \<and>
        (\<forall>r0. filter (\<lambda>r. like_match l (a_login r)) (authors d1) = [r0] \<longrightarrow>
           a_login r0 = l \<and> author_id = Some (a_id r0))) \<and>
     pull_requests c3_db1 n = Some
       \<lparr>p_author_id = author_id,
        p_title = title,
        p_state = state,
        p_created_at = created_at,
        p_closed_at = pr_closedAt c3_pr,
        p_merged_at = pr_mergedAt c3_pr,
        p_additions = additions,
        p_deletions = deletions,
        p_author_association = author_association,
        p_head_repository_url = or_empty (pr_headRepository c3_pr) hr_url,
        p_is_cross_repository = (if is_cross then 1 else 0),
        p_merge_commit_ci_state =
          or_empty (or_empty (pr_mergeCommit c3_pr) mc_statusCheckRollup) ru_state,
        p_api_total_comments_count = total_comments\<rparr>)"
proof -
  have old: "pull_requests c3_db0 5 = Some c3_old" by (simp add: c3_db0_def)
  have olda: "p_author_id c3_old = Some 1" by (simp add: c3_old_def)
  have new: "pull_requests c3_db1 5 = Some c3_new" by (simp add: c3_db1_def)
  have newa: "p_author_id c3_new = Some 2" by (simp add: c3_new_def)
  have login: "or_empty (pr_author c3_pr) ac_login = Some ''bob''"
    by (simp add: or_empty_def c3_pr_def)
  have readback: "getAuthorIDByLogin ''bob'' c3_db1 = Some 2"
    by (simp add: getAuthorIDByLogin_def c3_db1_def c3_like)
  show ?thesis
    by (intro conjI c3_resave old olda new newa login readback
          pull_request_full_refresh [OF c3_resave])
qed
subsection \<open>The driver: cooldown\<close>

lemma cooldown_gate_over_budget:
  assumes "COST_PER_MINUTE \<le> current_cost s"
  shows "clock (cooldown_gate s) = max (clock s) (start s + 60)"
    and "current_cost (cooldown_gate s) = 0"
    and "start (cooldown_gate s) = clock (cooldown_gate s)"
    and "current_token_idx (cooldown_gate s) = current_token_idx s"
    and "next_page_after (cooldown_gate s) = next_page_after s"
    and "has_next_page (cooldown_gate s) = has_next_page s"
    and "con (cooldown_gate s) = con s"
  using assms by (simp_all add: cooldown_gate_def sleep_def Let_def max_def)

lemma cooldown_gate_keeps:
  shows "current_token_idx (cooldown_gate s) = current_token_idx s"
    and "next_page_after (cooldown_gate s) = next_page_after s"
    and "has_next_page (cooldown_gate s) = has_next_page s"
    and "con (cooldown_gate s) = con s"
  by (simp_all add: cooldown_gate_def sleep_def Let_def)

lemma on_server_error_Continue:
  "on_server_error token_pool err s = Continue s' \<Longrightarrow>
     s' = s\<lparr>current_token_idx := current_token_idx s + 1\<rparr> \<and>
     current_token_idx s + 1 < length token_pool"
  by (simp add: on_server_error_def Let_def split: if_splits)

lemma on_result_Continue:
  assumes "on_result result s = Continue s'"
  shows "\<exists>cost. qr_rateLimit result = Some cost \<and>
     current_cost s' = current_cost s + cost \<and> start s' = start s \<and>
     clock s' = clock s + 1 / 10 \<and> current_token_idx s' = current_token_idx s"
proof -
  from assms obtain page cost where
    p: "qr_repository result = Some page" and c: "qr_rateLimit result = Some cost"
    by (cases "qr_repository result"; cases "qr_rateLimit result")
       (simp_all add: on_result_def split: if_splits)
  from assms obtain d where
    "s' = sleep (1 / 10)
       (s\<lparr>current_cost := current_cost s + cost, con := d,
           saved_pull_requests := saved_pull_requests s + PRS_PER_REQUEST,
           has_next_page := pi_hasNextPage (pp_pageInfo page),
           next_page_after := (if \<not> pi_hasNextPage (pp_pageInfo page) then None
                                else pi_endCursor (pp_pageInfo page))\<rparr>)"
    by (simp add: on_result_def p c Let_def split: sum.splits) fastforce
  then show ?thesis
    by (simp add: sleep_def c)
qed

lemma step_Continue:
  assumes "step token_pool r s = (Continue s', rq)"
  shows "current_cost s' = current_cost (cooldown_gate s) + reported_cost r"
    and "start s' = start (cooldown_gate s)"
    and "clock s' = clock (cooldown_gate s) + pass_time r"
    and "current_token_idx s' < length token_pool"
    and "\<exists>q. rq = Some q \<and> rq_time q = clock (cooldown_gate s)"
proof -
  define g where "g = cooldown_gate s"
  define s2 where "s2 = g\<lparr>clock := clock g + tr_elapsed r\<rparr>"
  have i: "current_token_idx g < length token_pool"
    using assms by (cases "current_token_idx g < length token_pool")
      (simp_all add: step_def Let_def g_def)
  have
    out: "(case tr_reply r of
        Raise_TransportServerError err \<Rightarrow> on_server_error token_pool err s2
      | Raise_other \<Rightarrow> Crash TransportError
      | Return result \<Rightarrow> on_result result s2) = Continue s'" and
    rq: "rq = Some \<lparr>rq_token = token_pool ! current_token_idx g,
                    rq_after = next_page_after g, rq_time = clock g\<rparr>"
    using assms i unfolding g_def s2_def by (auto simp add: step_def Let_def)
  have all: "current_cost s' = current_cost g + reported_cost r \<and> start s' = start g \<and>
     clock s' = clock g + pass_time r \<and> current_token_idx s' < length token_pool"
  proof (cases "tr_reply r")
    case (Raise_TransportServerError err)
    with out have "on_server_error token_pool err s2 = Continue s'" by simp
    from on_server_error_Continue [OF this] Raise_TransportServerError show ?thesis
      by (simp add: s2_def reported_cost_def pass_time_def)
  next
    case Raise_other
    with out show ?thesis by simp
  next
    case (Return result)
    with out have "on_result result s2 = Continue s'" by simp
    from on_result_Continue [OF this] obtain cost where
      c: "qr_rateLimit result = Some cost" and
      f: "current_cost s' = current_cost s2 + cost" "start s' = start s2"
         "clock s' = clock s2 + 1 / 10" "current_token_idx s' = current_token_idx s2"
      by blast
    show ?thesis
      using i by (simp add: f s2_def reported_cost_def pass_time_def Return c)
  qed
  from all show "current_cost s' = current_cost (cooldown_gate s) + reported_cost r"
    and "start s' = start (cooldown_gate s)"
    and "clock s' = clock (cooldown_gate s) + pass_time r"
    and "current_token_idx s' < length token_pool"
    by (simp_all add: g_def)
  from rq show "\<exists>q. rq = Some q \<and> rq_time q = clock (cooldown_gate s)"
    by (simp add: g_def)
qed

lemma cooldown_gate_under_budget:
  "current_cost s < COST_PER_MINUTE \<Longrightarrow> cooldown_gate s = s"
  by (simp add: cooldown_gate_def)

lemma run_Cons_Waiting:
  assumes "run token_pool (r # rs) s = (Waiting s1, rqs)"
  shows "has_next_page s \<and>
     (\<exists>s' rq rqs'. step token_pool r s = (Continue s', rq) \<and>
        run token_pool rs s' = (Waiting s1, rqs') \<and>
        rqs = case_option [] (\<lambda>q. [q]) rq @ rqs')"
proof -
  have h: "has_next_page s" using assms by (cases "has_next_page s") simp_all
  obtain out rq where st: "step token_pool r s = (out, rq)" by (cases "step token_pool r s")
  show ?thesis
  proof (cases out)
    case (Continue s')
    obtain o2 rqs' where rn: "run token_pool rs s' = (o2, rqs')"
      by (cases "run token_pool rs s'")
    from assms h st Continue rn have "o2 = Waiting s1" and "rqs = case_option [] (\<lambda>q. [q]) rq @ rqs'"
      by simp_all
    with h st Continue rn show ?thesis by simp
  next
    case Exit
    with assms h st show ?thesis by simp
  next
    case (Crash e)
    with assms h st show ?thesis by simp
  qed
qed

lemma run_Nil_Waiting:
  "run token_pool [] s = (Waiting s1, rqs) \<Longrightarrow> has_next_page s \<and> s1 = s \<and> rqs = []"
  by (cases "has_next_page s") simp_all

lemma run_append:
  "run token_pool rs s = (Waiting s1, rqs) \<Longrightarrow>
   run token_pool (rs @ later) s =
     (fst (run token_pool later s1), rqs @ snd (run token_pool later s1))"
proof (induction rs arbitrary: s rqs)
  case Nil
  from run_Nil_Waiting [OF Nil] show ?case by simp
next
  case (Cons r rs)
  from run_Cons_Waiting [OF Cons.prems] obtain s' rq rqs' where
    h: "has_next_page s" and st: "step token_pool r s = (Continue s', rq)" and
    rn: "run token_pool rs s' = (Waiting s1, rqs')" and
    q: "rqs = case_option [] (\<lambda>q. [q]) rq @ rqs'"
    by blast
  from Cons.IH [OF rn] h st q show ?case by simp
qed

lemma run_Waiting_has_next_page:
  "run token_pool rs s = (Waiting s1, rqs) \<Longrightarrow> has_next_page s1"
proof (induction rs arbitrary: s rqs)
  case Nil
  from run_Nil_Waiting [OF Nil] show ?case by simp
next
  case (Cons r rs)
  from run_Cons_Waiting [OF Cons.prems] obtain s' rqs' where
    "run token_pool rs s' = (Waiting s1, rqs')" by blast
  from Cons.IH [OF this] show ?case .
qed

lemma run_under_budget:
  assumes "run token_pool rs s = (Waiting s1, rqs)"
    and "current_token_idx s < length token_pool"
    and "\<forall>k < length rs. current_cost s + sum_list (map reported_cost (take k rs)) < COST_PER_MINUTE"
  shows "current_cost s1 = current_cost s + sum_list (map reported_cost rs) \<and>
     start s1 = start s \<and>
     clock s1 = clock s + sum_list (map pass_time rs) \<and>
     current_token_idx s1 < length token_pool \<and>
     map rq_time rqs =
       map (\<lambda>k. clock s + sum_list (map pass_time (take k rs))) [0 ..< length rs]"
  using assms
proof (induction rs arbitrary: s rqs)
  case Nil
  from run_Nil_Waiting [OF Nil.prems(1)] Nil.prems(2) show ?case by simp
next
  case (Cons r rs)
  from run_Cons_Waiting [OF Cons.prems(1)] obtain s' rq rqs' where
    st: "step token_pool r s = (Continue s', rq)" and
    rn: "run token_pool rs s' = (Waiting s1, rqs')" and
    q: "rqs = case_option [] (\<lambda>q. [q]) rq @ rqs'"
    by blast
  from Cons.prems(3) have "current_cost s + sum_list (map reported_cost (take 0 (r # rs))) < COST_PER_MINUTE"
    by blast
  then have g: "cooldown_gate s = s" by (simp add: cooldown_gate_under_budget)
  note sc = step_Continue [OF st, unfolded g]
  from sc(5) obtain q0 where rq: "rq = Some q0" and t0: "rq_time q0 = clock s" by blast
  have b: "\<forall>k < length rs. current_cost s' + sum_list (map reported_cost (take k rs)) < COST_PER_MINUTE"
  proof (intro allI impI)
    fix k assume "k < length rs"
    then have "Suc k < length (r # rs)" by simp
    with Cons.prems(3) have
      "current_cost s + sum_list (map reported_cost (take (Suc k) (r # rs))) < COST_PER_MINUTE"
      by blast
    then show "current_cost s' + sum_list (map reported_cost (take k rs)) < COST_PER_MINUTE"
      by (simp add: sc(1))
  qed
  note ih = Cons.IH [OF rn sc(4) b]
  have c1: "current_cost s1 = current_cost s + sum_list (map reported_cost (r # rs))"
    using ih by (simp add: sc(1))
  have c2: "start s1 = start s" using ih by (simp add: sc(2))
  have c3: "clock s1 = clock s + sum_list (map pass_time (r # rs))"
    using ih by (simp add: sc(3))
  have c4: "current_token_idx s1 < length token_pool" using ih by simp
  have "map rq_time rqs = clock s # map rq_time rqs'" by (simp add: q rq t0)
  also have "map rq_time rqs' =
      map (\<lambda>k. clock s' + sum_list (map pass_time (take k rs))) [0 ..< length rs]"
    using ih by simp
  also have "clock s # map (\<lambda>k. clock s' + sum_list (map pass_time (take k rs))) [0 ..< length rs] =
      map (\<lambda>k. clock s + sum_list (map pass_time (take k (r # rs)))) [0 ..< length (r # rs)]"
    by (simp add: map_upt_Suc sc(3) add.assoc del: upt_Suc)
  finally have c5: "map rq_time rqs =
      map (\<lambda>k. clock s + sum_list (map pass_time (take k (r # rs)))) [0 ..< length (r # rs)]" .
  from c1 c2 c3 c4 c5 show ?case by (intro conjI)
qed

lemma run_first_request:
  assumes "step token_pool r s = (out, Some rq)" and "has_next_page s"
  shows "\<exists>rqs. snd (run token_pool (r # rest) s) = rq # rqs"
  using assms by (cases out) (simp_all split: prod.splits)

text \<open>
  C7. Let the loop have run through the replies \<open>rs\<close> from a state \<open>s\<close>, the counter
  under the budget before each of them, and let the costs these replies report bring it
  to the budget or over. Until then no pass has slept before its request: the counter
  is the sum of the reported costs on top of what it was, the window start has not
  moved, and every request went out as soon as the pass before it was over. The next
  pass sends its request at the later of the present time and the end of the 60-second
  window: inside the window the driver sleeps for the \<open>60 - (clock - start)\<close> seconds that
  remain, and no request goes out before the window is over. At that moment the counter
  is zero and the window starts anew, so that after this pass the counter holds the cost
  reported for this one request and nothing else.
\<close>

theorem cooldown_blocks_until_window_end:
  assumes "run token_pool rs s = (Waiting s1, rqs)"
    and "current_token_idx s < length token_pool"
    and "\<forall>k < length rs.
           current_cost s + sum_list (map reported_cost (take k rs)) < COST_PER_MINUTE"
    and "COST_PER_MINUTE \<le> current_cost s + sum_list (map reported_cost rs)"
  shows "current_cost s1 = current_cost s + sum_list (map reported_cost rs) \<and>
     start s1 = start s \<and>
     clock s1 = clock s + sum_list (map pass_time rs) \<and>
     map rq_time rqs =
       map (\<lambda>k. clock s + sum_list (map pass_time (take k rs))) [0 ..< length rs] \<and>
     (\<exists>out rq. step token_pool r s1 = (out, Some rq) \<and>
        rq_time rq = max (clock s1) (start s + 60) \<and>
        (clock s1 - start s < 60 \<longrightarrow>
           rq_time rq - clock s1 = 60 - (clock s1 - start s) \<and> clock s1 < rq_time rq) \<and>
        clock (cooldown_gate s1) = rq_time rq \<and>
        current_cost (cooldown_gate s1) = 0 \<and>
        start (cooldown_gate s1) = rq_time rq \<and>
        (\<forall>s2. out = Continue s2 \<longrightarrow>
           start s2 = rq_time rq \<and> current_cost s2 = reported_cost r) \<and>
        take (Suc (length rs)) (map rq_time (snd (run token_pool (rs @ r # rest) s))) =
          map rq_time rqs @ [rq_time rq])"
proof -
  note inv = run_under_budget [OF assms(1,2,3)]
  from inv have c1: "current_cost s1 = current_cost s + sum_list (map reported_cost rs)"
    and c2: "start s1 = start s"
    and c3: "clock s1 = clock s + sum_list (map pass_time rs)"
    and idx: "current_token_idx s1 < length token_pool"
    and c4: "map rq_time rqs =
       map (\<lambda>k. clock s + sum_list (map pass_time (take k rs))) [0 ..< length rs]"
    by blast+
  have over: "COST_PER_MINUTE \<le> current_cost s1" using assms(4) by (simp add: c1)
  note g = cooldown_gate_over_budget [OF over]
  obtain out rq where st: "step token_pool r s1 = (out, rq)" by (cases "step token_pool r s1")
  have "rq = Some \<lparr>rq_token = token_pool ! current_token_idx (cooldown_gate s1),
     rq_after = next_page_after (cooldown_gate s1), rq_time = clock (cooldown_gate s1)\<rparr>"
    using st idx by (auto simp add: step_def Let_def g(4))
  then obtain q where rq: "rq = Some q" and tq: "rq_time q = clock (cooldown_gate s1)"
    by simp
  have st': "step token_pool r s1 = (out, Some q)" using st rq by simp
  have t1: "rq_time q = max (clock s1) (start s + 60)" by (simp add: tq g(1) c2)
  have t2: "clock s1 - start s < 60 \<longrightarrow>
           rq_time q - clock s1 = 60 - (clock s1 - start s) \<and> clock s1 < rq_time q"
    by (simp add: t1 max_def)
  have t3: "clock (cooldown_gate s1) = rq_time q" by (simp add: tq)
  have t4: "current_cost (cooldown_gate s1) = 0" by (rule g(2))
  have t5: "start (cooldown_gate s1) = rq_time q" by (simp add: tq g(3))
  have t6: "\<forall>s2. out = Continue s2 \<longrightarrow>
           start s2 = rq_time q \<and> current_cost s2 = reported_cost r"
  proof (intro allI impI)
    fix s2 assume "out = Continue s2"
    with st' have "step token_pool r s1 = (Continue s2, Some q)" by simp
    from step_Continue(1,2) [OF this] show
      "start s2 = rq_time q \<and> current_cost s2 = reported_cost r"
      by (simp add: t4 t5)
  qed
  have len: "length rqs = length rs"
    using arg_cong [OF c4, of length] by simp
  from run_first_request [OF st' run_Waiting_has_next_page [OF assms(1)], of rest]
  obtain tl where "snd (run token_pool (r # rest) s1) = q # tl" by blast
  then have "snd (run token_pool (rs @ r # rest) s) = rqs @ q # tl"
    by (simp add: run_append [OF assms(1)])
  then have t7: "take (Suc (length rs)) (map rq_time (snd (run token_pool (rs @ r # rest) s))) =
          map rq_time rqs @ [rq_time q]"
    by (simp add: len)
  have "\<exists>out rq. step token_pool r s1 = (out, Some rq) \<and>
        rq_time rq = max (clock s1) (start s + 60) \<and>
        (clock s1 - start s < 60 \<longrightarrow>
           rq_time rq - clock s1 = 60 - (clock s1 - start s) \<and> clock s1 < rq_time rq) \<and>
        clock (cooldown_gate s1) = rq_time rq \<and>
        current_cost (cooldown_gate s1) = 0 \<and>
        start (cooldown_gate s1) = rq_time rq \<and>
        (\<forall>s2. out = Continue s2 \<longrightarrow>
           start s2 = rq_time rq \<and> current_cost s2 = reported_cost r) \<and>
        take (Suc (length rs)) (map rq_time (snd (run token_pool (rs @ r # rest) s))) =
          map rq_time rqs @ [rq_time rq]"
    by (intro exI [of _ out] exI [of _ q] conjI st' t1 t2 t3 t4 t5 t6 t7)
  with c1 c2 c3 c4 show ?thesis by (intro conjI)
qed

theorem cooldown_blocks_until_window_end_witness:
  "(run [''''] [c7_first] (initial_driver 0 empty_db) =
      (Waiting c7_state, [\<lparr>rq_token = '''', rq_after = None, rq_time = 0\<rparr>]) \<and>
    current_token_idx (initial_driver 0 empty_db) < length [''''] \<and>
    current_cost (initial_driver 0 empty_db) +
      sum_list (map reported_cost (take 0 [c7_first])) < COST_PER_MINUTE \<and>
    COST_PER_MINUTE \<le> current_cost (initial_driver 0 empty_db) +
      sum_list (map reported_cost [c7_first]) \<and>
    clock c7_state - start c7_state < 60 \<and>
    map rq_time (snd (run [''''] [c7_first, c7_reply] (initial_driver 0 empty_db))) = [0, 60]) \<and>
   (current_cost c7_state =
      current_cost (initial_driver 0 empty_db) + sum_list (map reported_cost [c7_first]) \<and>
    start c7_state = start (initial_driver 0 empty_db) \<and>
    clock c7_state = clock (initial_driver 0 empty_db) + sum_list (map pass_time [c7_first]) \<and>
    map rq_time [\<lparr>rq_token = '''', rq_after = None, rq_time = 0\<rparr>] =
      map (\<lambda>k. clock (initial_driver 0 empty_db) + sum_list (map pass_time (take k [c7_first])))
        [0 ..< length [c7_first]] \<and>
    (\<exists>out rq. step [''''] c7_reply c7_state = (out, Some rq) \<and>
       rq_time rq = max (clock c7_state) (start (initial_driver 0 empty_db) + 60) \<and>
       (clock c7_state - start (initial_driver 0 empty_db) < 60 \<longrightarrow>
          rq_time rq - clock c7_state =
            60 - (clock c7_state - start (initial_driver 0 empty_db)) \<and>
          clock c7_state < rq_time rq) \<and>
       clock (cooldown_gate c7_state) = rq_time rq \<and>
       current_cost (cooldown_gate c7_state) = 0 \<and>
       start (cooldown_gate c7_state) = rq_time rq \<and>
       (\<forall>s2. out = Continue s2 \<longrightarrow>
          start s2 = rq_time rq \<and> current_cost s2 = reported_cost c7_reply) \<and>
       take (Suc (length [c7_first]))
         (map rq_time (snd (run [''''] ([c7_first] @ c7_reply # []) (initial_driver 0 empty_db)))) =
         map rq_time [\<lparr>rq_token = '''', rq_after = None, rq_time = 0\<rparr>] @ [rq_time rq]))"
proof -
  have h1: "run [''''] [c7_first] (initial_driver 0 empty_db) =
      (Waiting c7_state, [\<lparr>rq_token = '''', rq_after = None, rq_time = 0\<rparr>])"
    by (simp add: step_def cooldown_gate_def on_result_def sleep_def Let_def
          initial_driver_def c7_first_def c7_state_def COST_PER_MINUTE_def PRS_PER_REQUEST_def)
  have h2: "current_token_idx (initial_driver 0 empty_db) < length ['''']"
    by (simp add: initial_driver_def)
  have h3: "\<forall>k < length [c7_first]. current_cost (initial_driver 0 empty_db) +
      sum_list (map reported_cost (take k [c7_first])) < COST_PER_MINUTE"
    by (simp add: initial_driver_def COST_PER_MINUTE_def)
  have h3': "current_cost (initial_driver 0 empty_db) +
      sum_list (map reported_cost (take 0 [c7_first])) < COST_PER_MINUTE"
    by (simp add: initial_driver_def COST_PER_MINUTE_def)
  have h4: "COST_PER_MINUTE \<le> current_cost (initial_driver 0 empty_db) +
      sum_list (map reported_cost [c7_first])"
    by (simp add: initial_driver_def COST_PER_MINUTE_def reported_cost_def c7_first_def)
  have h5: "clock c7_state - start c7_state < 60" by (simp add: c7_state_def)
  have h6: "map rq_time (snd (run [''''] [c7_first, c7_reply] (initial_driver 0 empty_db))) =
      [0, 60]"
    by (simp add: step_def cooldown_gate_def on_result_def sleep_def Let_def
          initial_driver_def c7_first_def c7_reply_def COST_PER_MINUTE_def PRS_PER_REQUEST_def)
  have a: "run [''''] [c7_first] (initial_driver 0 empty_db) =
      (Waiting c7_state, [\<lparr>rq_token = '''', rq_after = None, rq_time = 0\<rparr>]) \<and>
    current_token_idx (initial_driver 0 empty_db) < length [''''] \<and>
    current_cost (initial_driver 0 empty_db) +
      sum_list (map reported_cost (take 0 [c7_first])) < COST_PER_MINUTE \<and>
    COST_PER_MINUTE \<le> current_cost (initial_driver 0 empty_db) +
      sum_list (map reported_cost [c7_first]) \<and>
    clock c7_state - start c7_state < 60 \<and>
    map rq_time (snd (run [''''] [c7_first, c7_reply] (initial_driver 0 empty_db))) = [0, 60]"
    by (intro conjI h1 h2 h3' h4 h5 h6)
  show ?thesis
    by (rule conjI [OF a
          cooldown_blocks_until_window_end [OF h1 h2 h3 h4, where r = c7_reply and rest = "[]"]])
qed
subsection \<open>The driver: credential rotation\<close>

lemma step_server_error:
  assumes "tr_reply r = Raise_TransportServerError err"
    and "contains ''rate limit exceeded'' err \<or> contains ''Unauthorized'' err"
    and "current_token_idx s < length token_pool"
  shows "step token_pool r s =
     (if Suc (current_token_idx s) < length token_pool
      then Continue ((cooldown_gate s)\<lparr>clock := clock (cooldown_gate s) + tr_elapsed r,
                       current_token_idx := Suc (current_token_idx s)\<rparr>)
      else Exit,
      Some \<lparr>rq_token = token_pool ! current_token_idx s, rq_after = next_page_after s,
            rq_time = clock (cooldown_gate s)\<rparr>)"
  using assms
  by (auto simp add: step_def Let_def on_server_error_def cooldown_gate_keeps)

text \<open>
  C6, as the code has it. A reply of the authorization or rate-limit class, received for
  a request sent with credential number \<open>i\<close> of the pool: the request was for the present
  cursor; if another credential follows, the loop goes on with credential \<open>i + 1\<close>, the
  cursor, the flag of the loop and the database as they were, so the same page is asked
  for again; if none follows, the process exits. With two credentials in the pool a run
  from the first credential meets its end at the second such reply in a row: two
  requests were sent, one with each credential, and whatever replies might follow are
  not asked for.
\<close>

theorem credential_rotation:
  assumes "tr_reply r1 = Raise_TransportServerError e1"
    and "contains ''rate limit exceeded'' e1 \<or> contains ''Unauthorized'' e1"
    and "tr_reply r2 = Raise_TransportServerError e2"
    and "contains ''rate limit exceeded'' e2 \<or> contains ''Unauthorized'' e2"
  shows "(current_token_idx s < length token_pool \<longrightarrow>
           (\<exists>out rq. step token_pool r1 s = (out, Some rq) \<and>
              rq_token rq = token_pool ! current_token_idx s \<and>
              rq_after rq = next_page_after s \<and>
              (Suc (current_token_idx s) < length token_pool \<longrightarrow>
                 (\<exists>s'. out = Continue s' \<and>
                    current_token_idx s' = Suc (current_token_idx s) \<and>
                    next_page_after s' = next_page_after s \<and>
                    has_next_page s' = has_next_page s \<and> con s' = con s)) \<and>
              (length token_pool \<le> Suc (current_token_idx s) \<longrightarrow> out = Exit))) \<and>
         (current_token_idx s = 0 \<and> has_next_page s \<longrightarrow>
           fst (run [t1, t2] (r1 # r2 # rest) s) = Exited \<and>
           map rq_token (snd (run [t1, t2] (r1 # r2 # rest) s)) = [t1, t2] \<and>
           map rq_after (snd (run [t1, t2] (r1 # r2 # rest) s)) =
             [next_page_after s, next_page_after s])"
proof (rule conjI; rule impI)
  assume i: "current_token_idx s < length token_pool"
  show "\<exists>out rq. step token_pool r1 s = (out, Some rq) \<and>
              rq_token rq = token_pool ! current_token_idx s \<and>
              rq_after rq = next_page_after s \<and>
              (Suc (current_token_idx s) < length token_pool \<longrightarrow>
                 (\<exists>s'. out = Continue s' \<and>
                    current_token_idx s' = Suc (current_token_idx s) \<and>
                    next_page_after s' = next_page_after s \<and>
                    has_next_page s' = has_next_page s \<and> con s' = con s)) \<and>
              (length token_pool \<le> Suc (current_token_idx s) \<longrightarrow> out = Exit)"
    by (simp add: step_server_error [OF assms(1,2) i] cooldown_gate_keeps)
next
  assume z: "current_token_idx s = 0 \<and> has_next_page s"
  define s1 where "s1 = (cooldown_gate s)\<lparr>clock := clock (cooldown_gate s) + tr_elapsed r1,
                       current_token_idx := Suc (current_token_idx s)\<rparr>"
  have st1: "step [t1, t2] r1 s = (Continue s1,
      Some \<lparr>rq_token = t1, rq_after = next_page_after s, rq_time = clock (cooldown_gate s)\<rparr>)"
    using z by (simp add: step_server_error [OF assms(1,2)] s1_def)
  have s1: "current_token_idx s1 = 1" "has_next_page s1" "next_page_after s1 = next_page_after s"
    using z by (simp_all add: s1_def cooldown_gate_keeps)
  have st2: "step [t1, t2] r2 s1 = (Exit,
      Some \<lparr>rq_token = t2, rq_after = next_page_after s, rq_time = clock (cooldown_gate s1)\<rparr>)"
    using s1 by (simp add: step_server_error [OF assms(3,4)])
  have "run [t1, t2] (r1 # r2 # rest) s = (Exited,
      [\<lparr>rq_token = t1, rq_after = next_page_after s, rq_time = clock (cooldown_gate s)\<rparr>,
       \<lparr>rq_token = t2, rq_after = next_page_after s, rq_time = clock (cooldown_gate s1)\<rparr>])"
    using z s1 by (simp add: st1 st2)
  then show "fst (run [t1, t2] (r1 # r2 # rest) s) = Exited \<and>
           map rq_token (snd (run [t1, t2] (r1 # r2 # rest) s)) = [t1, t2] \<and>
           map rq_after (snd (run [t1, t2] (r1 # r2 # rest) s)) =
             [next_page_after s, next_page_after s]"
    by simp
qed

lemma c6_fail_class:
  "tr_reply c6_fail = Raise_TransportServerError ''401, message=Unauthorized, url=https://api.github.com/graphql''"
  "contains ''rate limit exceeded'' ''401, message=Unauthorized, url=https://api.github.com/graphql'' \<or>
   contains ''Unauthorized'' ''401, message=Unauthorized, url=https://api.github.com/graphql''"
  by (simp_all add: c6_fail_def)

text \<open>
  The sentence of C6 about a third failure does not hold: with two credentials the run
  is over after two failures, and a third reply changes nothing, since no third request
  is sent.
\<close>

theorem credential_rotation_counterexample:
  "fst (run [''t1'', ''t2''] [c6_fail, c6_fail] (initial_driver 0 empty_db)) = Exited \<and>
   length (snd (run [''t1'', ''t2''] [c6_fail, c6_fail, c6_fail] (initial_driver 0 empty_db))) = 2"
  by (simp add: step_def Let_def on_server_error_def cooldown_gate_def COST_PER_MINUTE_def
        c6_fail_def initial_driver_def)

theorem credential_rotation_witness:
  "(tr_reply c6_fail = Raise_TransportServerError ''401, message=Unauthorized, url=https://api.github.com/graphql'' \<and>
    (contains ''rate limit exceeded'' ''401, message=Unauthorized, url=https://api.github.com/graphql'' \<or>
     contains ''Unauthorized'' ''401, message=Unauthorized, url=https://api.github.com/graphql'') \<and>
    current_token_idx (initial_driver 0 empty_db) < length [''t1'', ''t2''] \<and>
    Suc (current_token_idx (initial_driver 0 empty_db)) < length [''t1'', ''t2''] \<and>
    current_token_idx (initial_driver 0 empty_db) = 0 \<and>
    has_next_page (initial_driver 0 empty_db)) \<and>
   fst (run [''t1'', ''t2''] (c6_fail # c6_fail # []) (initial_driver 0 empty_db)) = Exited \<and>
   map rq_token (snd (run [''t1'', ''t2''] (c6_fail # c6_fail # []) (initial_driver 0 empty_db)))
     = [''t1'', ''t2''] \<and>
   map rq_after (snd (run [''t1'', ''t2''] (c6_fail # c6_fail # []) (initial_driver 0 empty_db)))
     = [next_page_after (initial_driver 0 empty_db), next_page_after (initial_driver 0 empty_db)]"
proof -
  have h: "current_token_idx (initial_driver 0 empty_db) < length [''t1'', ''t2'']"
    "Suc (current_token_idx (initial_driver 0 empty_db)) < length [''t1'', ''t2'']"
    "current_token_idx (initial_driver 0 empty_db) = 0"
    "has_next_page (initial_driver 0 empty_db)"
    by (simp_all add: initial_driver_def)
  note t = credential_rotation [OF c6_fail_class c6_fail_class,
      of "initial_driver 0 empty_db" "[''t1'', ''t2'']" "''t1''" "''t2''" "[]"]
  from t have "fst (run [''t1'', ''t2''] (c6_fail # c6_fail # []) (initial_driver 0 empty_db)) = Exited \<and>
   map rq_token (snd (run [''t1'', ''t2''] (c6_fail # c6_fail # []) (initial_driver 0 empty_db)))
     = [''t1'', ''t2''] \<and>
   map rq_after (snd (run [''t1'', ''t2''] (c6_fail # c6_fail # []) (initial_driver 0 empty_db)))
     = [next_page_after (initial_driver 0 empty_db), next_page_after (initial_driver 0 empty_db)]"
    using h(3,4) by blast
  with c6_fail_class h show ?thesis by (intro conjI) simp_all
qed
subsection \<open>Review threads: the id comes back on both paths\<close>

lemma rewrite_node_id_noop:
  "map (\<lambda>t. if t_node_id t = n then t\<lparr>t_node_id := n\<rparr> else t) xs = xs"
  by (induction xs) simp_all

lemma find_node_list_ex:
  "(find (\<lambda>t. t_node_id t = n) xs = None) = (\<not> list_ex (\<lambda>t. t_node_id t = n) xs)"
  by (induction xs) simp_all

lemma find_node_append_new:
  "\<not> list_ex (\<lambda>t. t_node_id t = n) xs \<Longrightarrow> t_node_id t = n \<Longrightarrow>
   find (\<lambda>t. t_node_id t = n) (xs @ [t]) = Some t"
  by (induction xs) simp_all

lemma insert_review_threads_conflict:
  assumes "find (\<lambda>t. t_node_id t = n) (review_threads d) = Some old" and "in_int64 p"
  shows "insert_review_threads (Some n, p) d = Inr (d, Some (t_id old))"
  using assms by (simp add: insert_review_threads_def rewrite_node_id_noop)

lemma insert_review_threads_fresh:
  assumes "find (\<lambda>t. t_node_id t = n) (review_threads d) = None" and "in_int64 p"
    and "pull_requests d p \<noteq> None"
  shows "insert_review_threads (Some n, p) d =
     Inr (d\<lparr>review_threads := review_threads d @
            [\<lparr>t_id = next_rowid (map t_id (review_threads d)), t_node_id = n,
              t_pull_request_id = Some p\<rparr>]\<rparr>,
          Some (next_rowid (map t_id (review_threads d))))"
  using assms by (simp add: insert_review_threads_def pull_request_exists_def Let_def)

lemma insert_review_threads_Inr:
  assumes "insert_review_threads (Some n, p) d = Inr (d', res)"
  shows "\<exists>t. res = Some (t_id t) \<and>
     find (\<lambda>t. t_node_id t = n) (review_threads d') = Some t \<and>
     (list_ex (\<lambda>t. t_node_id t = n) (review_threads d) \<longrightarrow> d' = d) \<and>
     (\<not> list_ex (\<lambda>t. t_node_id t = n) (review_threads d) \<longrightarrow>
        review_threads d' = review_threads d @ [t])"
proof (cases "find (\<lambda>t. t_node_id t = n) (review_threads d)")
  case None
  then have nx: "\<not> list_ex (\<lambda>t. t_node_id t = n) (review_threads d)"
    by (simp add: find_node_list_ex)
  from assms None have ok: "in_int64 p" "pull_requests d p \<noteq> None"
    by (simp_all add: insert_review_threads_def pull_request_exists_def split: if_splits)
  define t where "t = \<lparr>t_id = next_rowid (map t_id (review_threads d)), t_node_id = n,
              t_pull_request_id = Some p\<rparr>"
  from insert_review_threads_fresh [OF None ok] assms
  have d': "d' = d\<lparr>review_threads := review_threads d @ [t]\<rparr>" and res: "res = Some (t_id t)"
    by (simp_all add: t_def)
  have tn: "t_node_id t = n" by (simp add: t_def)
  have rt: "review_threads d' = review_threads d @ [t]" by (simp add: d')
  have f: "find (\<lambda>t. t_node_id t = n) (review_threads d') = Some t"
    unfolding rt by (rule find_node_append_new [OF nx tn])
  show ?thesis
    by (intro exI [of _ t] conjI) (simp_all add: res find_node_append_new [OF nx tn] nx rt)
next
  case (Some old)
  then have ex: "list_ex (\<lambda>t. t_node_id t = n) (review_threads d)"
    using find_node_list_ex [of n "review_threads d"] by simp
  from assms Some have ok: "in_int64 p"
    by (simp add: insert_review_threads_def split: if_splits)
  from insert_review_threads_conflict [OF Some ok] assms
  have "d' = d" and "res = Some (t_id old)" by simp_all
  with Some ex show ?thesis
    by (intro exI [of _ old] conjI) simp_all
qed

lemma executemany_insert_comments_thread:
  assumes "executemany insert_comments rows d = Inr d'"
    and "\<forall>row \<in> set rows. \<exists>cid a ca. row = (cid, a, pr, rv, Some i, ca)"
    and "k \<in> fst ` set rows"
  shows "\<exists>row. comments d' k = Some row \<and> m_review_thread_id row = Some i"
  using assms
proof (induction rows arbitrary: d)
  case Nil
  then show ?case by simp
next
  case (Cons r rows)
  obtain cid a ca where r: "r = (cid, a, pr, rv, Some i, ca)"
    using Cons.prems(2) by (simp, blast)
  from Cons.prems(1) obtain d1 where
    d1: "insert_comments r d = Inr d1" and rest: "executemany insert_comments rows d1 = Inr d'"
    by (simp split: sum.splits)
  have shape: "\<forall>row \<in> set rows. \<exists>cid a ca. row = (cid, a, pr, rv, Some i, ca)"
    using Cons.prems(2) by simp
  show ?case
  proof (cases "k \<in> fst ` set rows")
    case True
    from Cons.IH [OF rest shape True] show ?thesis .
  next
    case False
    with Cons.prems(3) have kc: "k = cid" by (simp add: r)
    have "\<exists>x. comments d1 k = Some x \<and> m_review_thread_id x = Some i"
      by (cases "comments d cid")
         (simp_all add: insert_comments_Inr [OF d1 [unfolded r]] kc merge_links_def)
    then obtain x where x: "comments d1 k = Some x" and xi: "m_review_thread_id x = Some i"
      by blast
    from executemany_insert_comments_stored [OF rest x shape] False xi show ?thesis
      by simp
  qed
qed

lemma saveComments_thread_link:
  assumes "saveComments cs_opt pr rv (Some i) d = Inr d'"
    and "Inr k \<in> (\<lambda>c. py_int_str (cm_fullDatabaseId c)) ` set (case cs_opt of None \<Rightarrow> [] | Some cs \<Rightarrow> cs)"
  shows "\<exists>row. comments d' k = Some row \<and> m_review_thread_id row = Some i"
proof -
  from assms(2) obtain cs where cs: "cs_opt = Some cs" "cs \<noteq> []"
    by (cases cs_opt) force+
  with assms(1) obtain d1 rows where
    q: "comments_query_data cs pr rv (Some i) d = Inr (d1, rows)" and
    e: "executemany insert_comments rows d1 = Inr d'"
    by (simp add: saveComments_def split: sum.splits prod.splits)
  from comments_query_data_rows [OF q]
  have shape: "\<forall>row \<in> set rows. \<exists>cid a ca. row = (cid, a, pr, rv, Some i, ca)"
    and ids: "map (\<lambda>row. Inr (fst row)) rows = map (\<lambda>c. py_int_str (cm_fullDatabaseId c)) cs"
    by simp_all
  have "(k \<in> fst ` set rows) = ((Inr k :: error + int) \<in> set (map (\<lambda>row. Inr (fst row)) rows))"
    by (simp add: image_iff)
  also have "\<dots> = (Inr k \<in> (\<lambda>c. py_int_str (cm_fullDatabaseId c)) ` set cs)"
    by (simp only: ids set_map)
  finally have "k \<in> fst ` set rows" using assms(2) cs by simp
  from executemany_insert_comments_thread [OF e shape this] show ?thesis .
qed

text \<open>
  C5. When \<^verbatim>\<open>saveReviewThreads\<close> succeeds on a thread with node identifier \<open>n\<close>, the
  statement has returned the \<^verbatim>\<open>id\<close> of the row that is stored for \<open>n\<close>: on the conflict
  path the database is unchanged by the statement, on the insert path the row is the
  new last row. The comments of the thread are saved with exactly this id as
  \<^verbatim>\<open>review_thread_id\<close>, so that every one of them is stored with it afterwards. The
  statement does return: it succeeds whenever the pull-request id fits 64 bits and either
  the node identifier is stored already or the pull request exists.
\<close>

theorem review_thread_id_returned:
  assumes "saveReviewThreads (Some [thread]) p d = Inr d'" and "th_id thread = Some n"
  shows "(\<exists>d1 t. insert_review_threads (Some n, p) d = Inr (d1, Some (t_id t)) \<and>
            find (\<lambda>t. t_node_id t = n) (review_threads d1) = Some t \<and>
            (list_ex (\<lambda>t. t_node_id t = n) (review_threads d) \<longrightarrow> d1 = d) \<and>
            (\<not> list_ex (\<lambda>t. t_node_id t = n) (review_threads d) \<longrightarrow>
               review_threads d1 = review_threads d @ [t]) \<and>
            saveComments (or_empty (th_comments thread) nodes) None None (Some (t_id t)) d1 = Inr d' \<and>
            review_threads d' = review_threads d1 \<and>
            (\<forall>k. Inr k \<in> (\<lambda>c. py_int_str (cm_fullDatabaseId c)) `
                   set (case or_empty (th_comments thread) nodes of None \<Rightarrow> [] | Some cs \<Rightarrow> cs) \<longrightarrow>
                 (\<exists>row. comments d' k = Some row \<and> m_review_thread_id row = Some (t_id t)))) \<and>
         (in_int64 p' \<and>
          (list_ex (\<lambda>t. t_node_id t = n') (review_threads e) \<or> pull_requests e p' \<noteq> None) \<longrightarrow>
            (\<exists>e1 i. insert_review_threads (Some n', p') e = Inr (e1, Some i)))"
proof (rule conjI)
  from assms(1) have "saveReviewThread thread p d = Inr d'"
    by (simp add: saveReviewThreads_def split: sum.splits)
  then obtain d1 res where
    i: "insert_review_threads (Some n, p) d = Inr (d1, res)" and
    c: "saveComments (or_empty (th_comments thread) nodes) None None
          (case res of None \<Rightarrow> None | Some i \<Rightarrow> Some i) d1 = Inr d'"
    by (simp add: saveReviewThread_def Let_def assms(2) split: sum.splits prod.splits)
  from insert_review_threads_Inr [OF i] obtain t where
    res: "res = Some (t_id t)" and
    f: "find (\<lambda>t. t_node_id t = n) (review_threads d1) = Some t" and
    same: "list_ex (\<lambda>t. t_node_id t = n) (review_threads d) \<longrightarrow> d1 = d" and
    fresh: "\<not> list_ex (\<lambda>t. t_node_id t = n) (review_threads d) \<longrightarrow>
               review_threads d1 = review_threads d @ [t]"
    by blast
  from c have c': "saveComments (or_empty (th_comments thread) nodes) None None (Some (t_id t)) d1 = Inr d'"
    by (simp add: res)
  have i': "insert_review_threads (Some n, p) d = Inr (d1, Some (t_id t))"
    using i by (simp add: res)
  have keep: "review_threads d' = review_threads d1"
    using saveComments_keeps [OF c'] by simp
  have link: "\<forall>k. Inr k \<in> (\<lambda>c. py_int_str (cm_fullDatabaseId c)) `
                   set (case or_empty (th_comments thread) nodes of None \<Rightarrow> [] | Some cs \<Rightarrow> cs) \<longrightarrow>
                 (\<exists>row. comments d' k = Some row \<and> m_review_thread_id row = Some (t_id t))"
    using saveComments_thread_link [OF c'] by blast
  show "\<exists>d1 t. insert_review_threads (Some n, p) d = Inr (d1, Some (t_id t)) \<and>
            find (\<lambda>t. t_node_id t = n) (review_threads d1) = Some t \<and>
            (list_ex (\<lambda>t. t_node_id t = n) (review_threads d) \<longrightarrow> d1 = d) \<and>
            (\<not> list_ex (\<lambda>t. t_node_id t = n) (review_threads d) \<longrightarrow>
               review_threads d1 = review_threads d @ [t]) \<and>
            saveComments (or_empty (th_comments thread) nodes) None None (Some (t_id t)) d1 = Inr d' \<and>
            review_threads d' = review_threads d1 \<and>
            (\<forall>k. Inr k \<in> (\<lambda>c. py_int_str (cm_fullDatabaseId c)) `
                   set (case or_empty (th_comments thread) nodes of None \<Rightarrow> [] | Some cs \<Rightarrow> cs) \<longrightarrow>
                 (\<exists>row. comments d' k = Some row \<and> m_review_thread_id row = Some (t_id t)))"
    by (intro exI [of _ d1] exI [of _ t] conjI i' f same fresh c' keep link)
next
  show "in_int64 p' \<and>
          (list_ex (\<lambda>t. t_node_id t = n') (review_threads e) \<or> pull_requests e p' \<noteq> None) \<longrightarrow>
            (\<exists>e1 i. insert_review_threads (Some n', p') e = Inr (e1, Some i))"
  proof (rule impI, elim conjE)
    assume p: "in_int64 p'"
      and h: "list_ex (\<lambda>t. t_node_id t = n') (review_threads e) \<or> pull_requests e p' \<noteq> None"
    show "\<exists>e1 i. insert_review_threads (Some n', p') e = Inr (e1, Some i)"
    proof (cases "find (\<lambda>t. t_node_id t = n') (review_threads e)")
      case (Some old)
      from insert_review_threads_conflict [OF Some p] show ?thesis by blast
    next
      case None
      with h have "pull_requests e p' \<noteq> None" by (simp add: find_node_list_ex)
      from insert_review_threads_fresh [OF None p this] show ?thesis by blast
    qed
  qed
qed

lemma c5_save: "saveReviewThreads (Some [c5_thread]) 5 c5_db0 = Inr c5_db1"
  by (simp add: saveReviewThreads_def saveReviewThread_def insert_review_threads_def
        c5_thread_def c5_db0_def c5_db1_def c1_db0_def empty_db_def Let_def
        saveComments_def c1_comment_def resolve_author_def or_empty_def py_int_str_def
        strip_def is_space_def parse_unsigned_def is_digit_def digit_val_def
        insert_comments_def in_int64_def opt_in_int64_def
        author_exists_def pull_request_exists_def review_exists_def review_thread_exists_def)

theorem review_thread_id_returned_witness:
  "(saveReviewThreads (Some [c5_thread]) 5 c5_db0 = Inr c5_db1 \<and>
    th_id c5_thread = Some ''PRRT_kwDOa'' \<and>
    in_int64 5 \<and>
    (list_ex (\<lambda>t. t_node_id t = ''PRRT_new'') (review_threads c5_db0) \<or> pull_requests c5_db0 5 \<noteq> None) \<and>
    insert_review_threads (Some ''PRRT_kwDOa'', 5) c5_db0 = Inr (c5_db0, Some 3) \<and>
    snd (projr (insert_review_threads (Some ''PRRT_new'', 5) c5_db0)) = Some 4 \<and>
    map_option m_review_thread_id (comments c5_db1 100) = Some (Some 3)) \<and>
   ((\<exists>d1 t. insert_review_threads (Some ''PRRT_kwDOa'', 5) c5_db0 = Inr (d1, Some (t_id t)) \<and>
            find (\<lambda>t. t_node_id t = ''PRRT_kwDOa'') (review_threads d1) = Some t \<and>
            (list_ex (\<lambda>t. t_node_id t = ''PRRT_kwDOa'') (review_threads c5_db0) \<longrightarrow> d1 = c5_db0) \<and>
            (\<not> list_ex (\<lambda>t. t_node_id t = ''PRRT_kwDOa'') (review_threads c5_db0) \<longrightarrow>
               review_threads d1 = review_threads c5_db0 @ [t]) \<and>
            saveComments (or_empty (th_comments c5_thread) nodes) None None (Some (t_id t)) d1 = Inr c5_db1 \<and>
            review_threads c5_db1 = review_threads d1 \<and>
            (\<forall>k. Inr k \<in> (\<lambda>c. py_int_str (cm_fullDatabaseId c)) `
                   set (case or_empty (th_comments c5_thread) nodes of None \<Rightarrow> [] | Some cs \<Rightarrow> cs) \<longrightarrow>
                 (\<exists>row. comments c5_db1 k = Some row \<and> m_review_thread_id row = Some (t_id t)))) \<and>
    (\<exists>e1 i. insert_review_threads (Some ''PRRT_new'', 5) c5_db0 = Inr (e1, Some i)))"
proof -
  have h2: "th_id c5_thread = Some ''PRRT_kwDOa''" by (simp add: c5_thread_def)
  have h3: "in_int64 5" by (simp add: in_int64_def)
  have h4: "list_ex (\<lambda>t. t_node_id t = ''PRRT_new'') (review_threads c5_db0) \<or> pull_requests c5_db0 5 \<noteq> None"
    by (simp add: c5_db0_def c1_db0_def)
  have e1: "insert_review_threads (Some ''PRRT_kwDOa'', 5) c5_db0 = Inr (c5_db0, Some 3)"
    by (simp add: insert_review_threads_def c5_db0_def in_int64_def)
  have e2: "snd (projr (insert_review_threads (Some ''PRRT_new'', 5) c5_db0)) = Some 4"
    by (simp add: insert_review_threads_def c5_db0_def c1_db0_def in_int64_def
          pull_request_exists_def next_rowid_def Let_def)
  have e3: "map_option m_review_thread_id (comments c5_db1 100) = Some (Some 3)"
    by (simp add: c5_db1_def)
  show ?thesis
    by (intro conjI c5_save h2 h3 h4 e1 e2 e3
          review_thread_id_returned [OF c5_save h2, of 5 "''PRRT_new''" c5_db0, THEN conjunct1]
          review_thread_id_returned [OF c5_save h2, of 5 "''PRRT_new''" c5_db0, THEN conjunct2,
            THEN mp, OF conjI [OF h3 h4]])
qed
subsection \<open>Append-only tables: the first write wins\<close>

lemma executemany_noop:
  "\<forall>r \<in> set rows. stmt r d = Inr d \<Longrightarrow> executemany stmt rows d = Inr d"
  by (induction rows) simp_all

lemma insert_commits_conflict:
  assumes "in_int64 p"
    and "list_ex (\<lambda>r. c_pull_request_id r = Some p \<and> c_url r = Some u) (commits d)"
  shows "insert_commits (p, Some u, Some stamp) d = Inr d"
  using assms by (simp add: insert_commits_def)

lemma insert_files_conflict:
  assumes "in_int64 p" and "opt_in_int64 a" and "opt_in_int64 dl"
    and "list_ex (\<lambda>r. f_pull_request_id r = Some p \<and> f_path r = pa) (files d)"
  shows "insert_files (p, Some pa, ct, a, dl) d = Inr d"
  using assms by (simp add: insert_files_def)

lemma insert_labels_conflict:
  assumes "list_ex (\<lambda>r. l_name r = n) (labels d)"
  shows "insert_labels (Some n) d = Inr d"
  using assms by (simp add: insert_labels_def)

lemma insert_reviews_conflict:
  assumes "insert_reviews (k, a, p, ca) d = Inr d'" and "reviews d k \<noteq> None"
  shows "d' = d"
  using assms by (simp add: insert_reviews_def split: if_splits option.splits)

lemma insert_author_pull_request_conflict:
  assumes "insert_author_pull_request (a, p) d = Inr d'"
    and "(Some a, Some p) \<in> set (author_pull_request d)"
  shows "d' = d"
  using assms by (simp add: insert_author_pull_request_def split: if_splits)

lemma insert_label_pull_request_conflict:
  assumes "insert_label_pull_request (l, p) d = Inr d'"
    and "(Some l, Some p) \<in> set (label_pull_request d)"
  shows "d' = d"
  using assms by (simp add: insert_label_pull_request_def split: if_splits)

lemma saveReview_known:
  assumes "saveReview review p d = Inr d'"
    and "py_int_str (rv_fullDatabaseId review) = Inr k" and "reviews d k \<noteq> None"
  shows "reviews d' = reviews d"
proof -
  from assms(1,2) obtain d1 a d2 where
    r: "resolve_author (rv_author review) d = Inr (d1, a)" and
    i: "insert_reviews (k, a, p, rv_createdAt review) d1 = Inr d2" and
    c: "saveComments (or_empty (rv_comments review) nodes) None (Some k) None d2 = Inr d'"
    by (simp add: saveReview_def split: sum.splits prod.splits)
  have r1: "reviews d1 = reviews d" using resolve_author_keeps [OF r] by simp
  with assms(3) have "reviews d1 k \<noteq> None" by simp
  from insert_reviews_conflict [OF i this] have "d2 = d1" .
  with saveComments_keeps [OF c] r1 show ?thesis by simp
qed

lemma saveReviews_loop_known:
  assumes "saveReviews_loop rs p d = Inr d'"
    and "\<forall>r \<in> set rs. \<exists>k. py_int_str (rv_fullDatabaseId r) = Inr k \<and> reviews d k \<noteq> None"
  shows "reviews d' = reviews d"
  using assms
proof (induction rs arbitrary: d)
  case Nil
  then show ?case by simp
next
  case (Cons r rs)
  from Cons.prems(1) obtain d1 where
    a: "saveReview r p d = Inr d1" and b: "saveReviews_loop rs p d1 = Inr d'"
    by (simp split: sum.splits)
  from Cons.prems(2) obtain k where
    k: "py_int_str (rv_fullDatabaseId r) = Inr k" "reviews d k \<noteq> None"
    by (simp, blast)
  from saveReview_known [OF a k] have same: "reviews d1 = reviews d" .
  with Cons.prems(2) have
    "\<forall>r \<in> set rs. \<exists>k. py_int_str (rv_fullDatabaseId r) = Inr k \<and> reviews d1 k \<noteq> None"
    by simp
  from Cons.IH [OF b this] same show ?case by simp
qed


lemma executemany_noop_or:
  assumes "\<forall>r \<in> set rows. stmt r d = Inr d \<or> stmt r d = Inl e"
  shows "executemany stmt rows d =
     (if \<forall>r \<in> set rows. stmt r d = Inr d then Inr d else Inl e)"
  using assms
proof (induction rows)
  case Nil
  then show ?case by simp
next
  case (Cons r rows)
  from Cons.prems have c: "stmt r d = Inr d \<or> stmt r d = Inl e" by simp
  from Cons.prems have "\<forall>r \<in> set rows. stmt r d = Inr d \<or> stmt r d = Inl e" by simp
  note ih = Cons.IH [OF this]
  from c show ?case
  proof
    assume "stmt r d = Inr d"
    then show ?thesis by (simp add: ih)
  next
    assume "stmt r d = Inl e"
    then show ?thesis by simp
  qed
qed

lemma insert_commits_stored:
  assumes "list_ex (\<lambda>r. c_pull_request_id r = Some p \<and> c_url r = Some u) (commits d)"
  shows "insert_commits (p, Some u, stamp) d =
     (if \<not> in_int64 p then Inl OverflowError
      else if stamp = None then Inl IntegrityError else Inr d)"
  using assms by (cases stamp) (simp_all add: insert_commits_def)

lemma saveCommits_stored:
  assumes "\<forall>c \<in> set cs. \<exists>u. or_empty (cn_commit c) gc_commitUrl = Some u \<and>
      list_ex (\<lambda>r. c_pull_request_id r = Some p \<and> c_url r = Some u) (commits d)"
  shows "saveCommits (Some cs) p d =
     (if cs = [] then Inr d
      else if \<not> in_int64 p then Inl OverflowError
      else if \<exists>c \<in> set cs. or_empty (cn_commit c) gc_committedDate = None
      then Inl IntegrityError else Inr d)"
proof -
  define rows where "rows = map (\<lambda>commit. (p, or_empty (cn_commit commit) gc_commitUrl,
                            or_empty (cn_commit commit) gc_committedDate)) cs"
  have row: "insert_commits (p, or_empty (cn_commit c) gc_commitUrl,
                 or_empty (cn_commit c) gc_committedDate) d =
     (if \<not> in_int64 p then Inl OverflowError
      else if or_empty (cn_commit c) gc_committedDate = None then Inl IntegrityError else Inr d)"
    if "c \<in> set cs" for c
  proof -
    from assms that obtain u where
      u: "or_empty (cn_commit c) gc_commitUrl = Some u" and
      s: "list_ex (\<lambda>r. c_pull_request_id r = Some p \<and> c_url r = Some u) (commits d)"
      by blast
    show ?thesis unfolding u by (rule insert_commits_stored [OF s])
  qed
  have save: "saveCommits (Some cs) p d = (if cs = [] then Inr d else executemany insert_commits rows d)"
    by (simp add: saveCommits_def rows_def)
  show ?thesis
  proof (cases "cs = []")
    case True
    with save show ?thesis by simp
  next
    case False
    then obtain c cs' where cs: "cs = c # cs'" by (cases cs) simp_all
    show ?thesis
    proof (cases "in_int64 p")
      case False
      have "executemany insert_commits rows d = Inl OverflowError"
        using row [of c] False by (simp add: rows_def cs)
      with False \<open>cs \<noteq> []\<close> show ?thesis by (simp add: save)
    next
      case True
      have each: "\<forall>r \<in> set rows. insert_commits r d = Inr d \<or> insert_commits r d = Inl IntegrityError"
        using row True by (auto simp add: rows_def)
      have "(\<forall>r \<in> set rows. insert_commits r d = Inr d) =
            (\<not> (\<exists>c \<in> set cs. or_empty (cn_commit c) gc_committedDate = None))"
        using row True by (auto simp add: rows_def)
      with executemany_noop_or [where stmt = insert_commits, OF each] True \<open>cs \<noteq> []\<close>
      show ?thesis
        by (simp add: save)
    qed
  qed
qed

lemma insert_files_stored:
  assumes "list_ex (\<lambda>r. f_pull_request_id r = Some p \<and> f_path r = pa) (files d)"
  shows "insert_files (p, Some pa, ct, a, dl) d =
     (if in_int64 p \<and> opt_in_int64 a \<and> opt_in_int64 dl then Inr d else Inl OverflowError)"
  using assms by (simp add: insert_files_def)

lemma saveFiles_stored:
  assumes "\<forall>f \<in> set fs. \<exists>pa. fl_path f = Some pa \<and>
      list_ex (\<lambda>r. f_pull_request_id r = Some p \<and> f_path r = pa) (files d)"
  shows "saveFiles (Some fs) p d =
     (if \<forall>f \<in> set fs. in_int64 p \<and> opt_in_int64 (fl_additions f) \<and> opt_in_int64 (fl_deletions f)
      then Inr d else Inl OverflowError)"
proof -
  define rows where "rows = map (\<lambda>file. (p, fl_path file, fl_changeType file,
                          fl_additions file, fl_deletions file)) fs"
  have row: "insert_files (p, fl_path f, fl_changeType f, fl_additions f, fl_deletions f) d =
     (if in_int64 p \<and> opt_in_int64 (fl_additions f) \<and> opt_in_int64 (fl_deletions f)
      then Inr d else Inl OverflowError)"
    if "f \<in> set fs" for f
  proof -
    from assms that obtain pa where
      u: "fl_path f = Some pa" and
      s: "list_ex (\<lambda>r. f_pull_request_id r = Some p \<and> f_path r = pa) (files d)"
      by blast
    show ?thesis unfolding u by (rule insert_files_stored [OF s])
  qed
  have save: "saveFiles (Some fs) p d = (if fs = [] then Inr d else executemany insert_files rows d)"
    by (simp add: saveFiles_def rows_def)
  have each: "\<forall>r \<in> set rows. insert_files r d = Inr d \<or> insert_files r d = Inl OverflowError"
    using row by (auto simp add: rows_def)
  have "(\<forall>r \<in> set rows. insert_files r d = Inr d) =
        (\<forall>f \<in> set fs. in_int64 p \<and> opt_in_int64 (fl_additions f) \<and> opt_in_int64 (fl_deletions f))"
    using row by (auto simp add: rows_def)
  with executemany_noop_or [where stmt = insert_files, OF each] save show ?thesis
    by (cases "fs = []") simp_all
qed

lemma saveLabels_stored:
  assumes "\<forall>l \<in> set ls. \<exists>n. lb_name l = Some n \<and> list_ex (\<lambda>r. l_name r = n) (labels d)"
  shows "saveLabels (Some ls) d = Inr d"
proof -
  have "\<forall>row \<in> set (map lb_name ls). insert_labels row d = Inr d"
  proof
    fix row
    assume "row \<in> set (map lb_name ls)"
    then obtain l where l: "l \<in> set ls" and row: "row = lb_name l"
      by (simp add: image_iff) blast
    from assms l obtain n where "lb_name l = Some n" "list_ex (\<lambda>r. l_name r = n) (labels d)"
      by blast
    then show "insert_labels row d = Inr d"
      by (simp add: row insert_labels_conflict)
  qed
  from executemany_noop [where stmt = insert_labels, OF this] show ?thesis
    by (simp add: saveLabels_def)
qed

lemma insert_reviews_stored:
  assumes "reviews d k \<noteq> None"
  shows "insert_reviews (k, a, p, ca) d =
     (if \<not> (in_int64 k \<and> opt_in_int64 a \<and> in_int64 p) then Inl OverflowError
      else if ca = None then Inl IntegrityError else Inr d)"
  using assms by (cases ca) (simp_all add: insert_reviews_def)

lemma resolve_author_total: "\<exists>d1 a. resolve_author author d = Inr (d1, a)"
  by (cases "or_empty author ac_login") (simp_all add: resolve_author_def saveAuthor_None_result)

lemma saveReview_stored:
  assumes "py_int_str (rv_fullDatabaseId review) = Inr k" and "reviews d k \<noteq> None"
  shows "\<exists>d1 a. resolve_author (rv_author review) d = Inr (d1, a) \<and>
     saveReview review p d =
       (if \<not> (in_int64 k \<and> opt_in_int64 a \<and> in_int64 p) then Inl OverflowError
        else if rv_createdAt review = None then Inl IntegrityError
        else saveComments (or_empty (rv_comments review) nodes) None (Some k) None d1)"
proof -
  from resolve_author_total obtain d1 a where
    r: "resolve_author (rv_author review) d = Inr (d1, a)" by blast
  have "reviews d1 = reviews d" using resolve_author_keeps [OF r] by simp
  with assms(2) have "reviews d1 k \<noteq> None" by simp
  note i = insert_reviews_stored [OF this, of a p "rv_createdAt review"]
  have "saveReview review p d =
       (if \<not> (in_int64 k \<and> opt_in_int64 a \<and> in_int64 p) then Inl OverflowError
        else if rv_createdAt review = None then Inl IntegrityError
        else saveComments (or_empty (rv_comments review) nodes) None (Some k) None d1)"
    by (simp add: saveReview_def assms(1) r i)
  with r show ?thesis by blast
qed

lemma insert_author_pull_request_stored:
  assumes "(Some a, Some p) \<in> set (author_pull_request d)"
  shows "insert_author_pull_request (a, p) d =
     (if in_int64 a \<and> in_int64 p then Inr d else Inl OverflowError)"
  using assms by (simp add: insert_author_pull_request_def)

lemma insert_label_pull_request_stored:
  assumes "(Some l, Some p) \<in> set (label_pull_request d)"
  shows "insert_label_pull_request (l, p) d =
     (if in_int64 l \<and> in_int64 p then Inr d else Inl OverflowError)"
  using assms by (simp add: insert_label_pull_request_def)

lemma executemany_links_stored:
  assumes "\<And>row. row \<in> set rows \<Longrightarrow>
      stmt row d = (if in_int64 (fst row) \<and> in_int64 (snd row) then Inr d else Inl OverflowError)"
  shows "executemany stmt rows d =
     (if \<forall>row \<in> set rows. in_int64 (fst row) \<and> in_int64 (snd row) then Inr d
      else Inl OverflowError)"
proof -
  have each: "\<forall>r \<in> set rows. stmt r d = Inr d \<or> stmt r d = Inl OverflowError"
    using assms by simp
  have "(\<forall>r \<in> set rows. stmt r d = Inr d) =
        (\<forall>row \<in> set rows. in_int64 (fst row) \<and> in_int64 (snd row))"
    using assms by auto
  with executemany_noop_or [where stmt = stmt, OF each] show ?thesis by simp
qed

lemma saveParticipants_stored:
  assumes "\<forall>d1. saveAuthors (Some as) d = Inr d1 \<longrightarrow>
      (\<forall>row \<in> set (participants_query_data as p d1).
         (Some (fst row), Some (snd row)) \<in> set (author_pull_request d))"
  shows "saveParticipants (Some as) p d =
     (case saveAuthors (Some as) d of
        Inl e \<Rightarrow> Inl e
      | Inr d1 \<Rightarrow>
          if \<forall>row \<in> set (participants_query_data as p d1).
               in_int64 (fst row) \<and> in_int64 (snd row)
          then Inr d1 else Inl OverflowError)"
proof (cases "saveAuthors (Some as) d")
  case (Inl e)
  then show ?thesis by (cases "as = []") (simp_all add: saveParticipants_def saveAuthors_def)
next
  case (Inr d1)
  have same: "author_pull_request d1 = author_pull_request d"
    using saveAuthors_frame [OF Inr] by (metis db.select_convs(8) db.surjective db.update_convs(1))
  have "\<And>row. row \<in> set (participants_query_data as p d1) \<Longrightarrow>
      insert_author_pull_request row d1 =
        (if in_int64 (fst row) \<and> in_int64 (snd row) then Inr d1 else Inl OverflowError)"
  proof -
    fix row assume "row \<in> set (participants_query_data as p d1)"
    with assms Inr same have "(Some (fst row), Some (snd row)) \<in> set (author_pull_request d1)"
      by simp
    from insert_author_pull_request_stored [OF this] show
      "insert_author_pull_request row d1 =
        (if in_int64 (fst row) \<and> in_int64 (snd row) then Inr d1 else Inl OverflowError)"
      by simp
  qed
  note e = executemany_links_stored [where stmt = insert_author_pull_request, OF this]
  show ?thesis
  proof (cases "as = []")
    case True
    with Inr show ?thesis by (simp add: saveParticipants_def saveAuthors_def)
  next
    case False
    then show ?thesis
      by (simp add: saveParticipants_def Inr e del: participants_query_data.simps)
  qed
qed

lemma linkLabelsWithPullRequest_stored:
  assumes "\<forall>d1. saveLabels (Some ks) d = Inr d1 \<longrightarrow>
      (\<forall>row \<in> set (labels_query_data ks p d1).
         (Some (fst row), Some (snd row)) \<in> set (label_pull_request d))"
  shows "linkLabelsWithPullRequest (Some ks) p d =
     (case saveLabels (Some ks) d of
        Inl e \<Rightarrow> Inl e
      | Inr d1 \<Rightarrow>
          if \<forall>row \<in> set (labels_query_data ks p d1).
               in_int64 (fst row) \<and> in_int64 (snd row)
          then Inr d1 else Inl OverflowError)"
proof (cases "saveLabels (Some ks) d")
  case (Inl e)
  then show ?thesis by (cases "ks = []") (simp_all add: linkLabelsWithPullRequest_def saveLabels_def)
next
  case (Inr d1)
  have same: "label_pull_request d1 = label_pull_request d"
    using saveLabels_frame [OF Inr] by (metis db.select_convs(10) db.surjective db.update_convs(9))
  have "\<And>row. row \<in> set (labels_query_data ks p d1) \<Longrightarrow>
      insert_label_pull_request row d1 =
        (if in_int64 (fst row) \<and> in_int64 (snd row) then Inr d1 else Inl OverflowError)"
  proof -
    fix row assume "row \<in> set (labels_query_data ks p d1)"
    with assms Inr same have "(Some (fst row), Some (snd row)) \<in> set (label_pull_request d1)"
      by simp
    from insert_label_pull_request_stored [OF this] show
      "insert_label_pull_request row d1 =
        (if in_int64 (fst row) \<and> in_int64 (snd row) then Inr d1 else Inl OverflowError)"
      by simp
  qed
  note e = executemany_links_stored [where stmt = insert_label_pull_request, OF this]
  show ?thesis
  proof (cases "ks = []")
    case True
    with Inr show ?thesis by (simp add: linkLabelsWithPullRequest_def saveLabels_def)
  next
    case False
    then show ?thesis
      by (simp add: linkLabelsWithPullRequest_def Inr e del: labels_query_data.simps)
  qed
qed

lemma saveReviews_stored:
  assumes "\<forall>r \<in> set rs. \<exists>k. py_int_str (rv_fullDatabaseId r) = Inr k \<and> reviews d k \<noteq> None"
  shows "\<forall>d'. saveReviews (Some rs) p d = Inr d' \<longrightarrow> reviews d' = reviews d"
proof (intro allI impI)
  fix d' assume s: "saveReviews (Some rs) p d = Inr d'"
  show "reviews d' = reviews d"
  proof (cases "rs = []")
    case True
    with s show ?thesis by (simp add: saveReviews_def)
  next
    case False
    with s have "saveReviews_loop rs p d = Inr d'" by (simp add: saveReviews_def)
    from saveReviews_loop_known [OF this assms] show ?thesis .
  qed
qed

lemma saveParticipants_stored_table:
  assumes "\<forall>d1. saveAuthors (Some as) d = Inr d1 \<longrightarrow>
      (\<forall>row \<in> set (participants_query_data as p d1).
         (Some (fst row), Some (snd row)) \<in> set (author_pull_request d))"
  shows "\<forall>d'. saveParticipants (Some as) p d = Inr d' \<longrightarrow>
     saveAuthors (Some as) d = Inr d' \<and> author_pull_request d' = author_pull_request d"
proof (intro allI impI)
  fix d' assume s: "saveParticipants (Some as) p d = Inr d'"
  have a: "saveAuthors (Some as) d = Inr d'"
    using s unfolding saveParticipants_stored [OF assms]
    by (cases "saveAuthors (Some as) d") (simp_all split: if_splits)
  have "author_pull_request d' = author_pull_request d"
    using saveAuthors_frame [OF a] by (metis db.select_convs(8) db.surjective db.update_convs(1))
  with a show "saveAuthors (Some as) d = Inr d' \<and> author_pull_request d' = author_pull_request d"
    by simp
qed

lemma linkLabelsWithPullRequest_stored_table:
  assumes "\<forall>d1. saveLabels (Some ks) d = Inr d1 \<longrightarrow>
      (\<forall>row \<in> set (labels_query_data ks p d1).
         (Some (fst row), Some (snd row)) \<in> set (label_pull_request d))"
  shows "\<forall>d'. linkLabelsWithPullRequest (Some ks) p d = Inr d' \<longrightarrow>
     saveLabels (Some ks) d = Inr d' \<and> label_pull_request d' = label_pull_request d"
proof (intro allI impI)
  fix d' assume s: "linkLabelsWithPullRequest (Some ks) p d = Inr d'"
  have a: "saveLabels (Some ks) d = Inr d'"
    using s unfolding linkLabelsWithPullRequest_stored [OF assms]
    by (cases "saveLabels (Some ks) d") (simp_all split: if_splits)
  have "label_pull_request d' = label_pull_request d"
    using saveLabels_frame [OF a] by (metis db.select_convs(10) db.surjective db.update_convs(9))
  with a show "saveLabels (Some ks) d = Inr d' \<and> label_pull_request d' = label_pull_request d"
    by simp
qed

text \<open>
  C4. A record whose key is stored, every part of the key being present, is saved again
  without any change to the table of its entity, whatever its other fields are.
  \<^verbatim>\<open>saveCommits\<close>, \<^verbatim>\<open>saveFiles\<close> and \<^verbatim>\<open>saveLabels\<close> return the database as it is. They
  raise instead, and write nothing, exactly when a parameter cannot be bound (an integer
  outside 64 bits) or a commit comes without the date that \<^verbatim>\<open>committed_at\<close> requires,
  both of which are checked before the conflict is looked at. The \<^verbatim>\<open>insert\<close> of a stored
  review adds nothing to what the rest of the loop body does, which is to save the
  author of the review and its comments; it raises under the same two conditions, and
  no review that is saved changes the table \<^verbatim>\<open>reviews\<close>. \<^verbatim>\<open>saveParticipants\<close> and
  \<^verbatim>\<open>linkLabelsWithPullRequest\<close>, all of whose pairs are stored, do what \<^verbatim>\<open>saveAuthors\<close>
  and \<^verbatim>\<open>saveLabels\<close> do and leave the join table as it is.
\<close>

theorem append_only_first_write_wins:
  "((\<forall>c \<in> set cs. \<exists>u. or_empty (cn_commit c) gc_commitUrl = Some u \<and>
        list_ex (\<lambda>r. c_pull_request_id r = Some p \<and> c_url r = Some u) (commits d)) \<longrightarrow>
      saveCommits (Some cs) p d =
        (if cs = [] then Inr d
         else if \<not> in_int64 p then Inl OverflowError
         else if \<exists>c \<in> set cs. or_empty (cn_commit c) gc_committedDate = None
         then Inl IntegrityError else Inr d)) \<and>
   ((\<forall>f \<in> set fs. \<exists>pa. fl_path f = Some pa \<and>
        list_ex (\<lambda>r. f_pull_request_id r = Some p \<and> f_path r = pa) (files d)) \<longrightarrow>
      saveFiles (Some fs) p d =
        (if \<forall>f \<in> set fs. in_int64 p \<and> opt_in_int64 (fl_additions f) \<and>
                            opt_in_int64 (fl_deletions f)
         then Inr d else Inl OverflowError)) \<and>
   ((\<forall>l \<in> set ls. \<exists>n. lb_name l = Some n \<and> list_ex (\<lambda>r. l_name r = n) (labels d)) \<longrightarrow>
      saveLabels (Some ls) d = Inr d) \<and>
   (py_int_str (rv_fullDatabaseId review) = Inr k \<and> reviews d k \<noteq> None \<longrightarrow>
      (\<exists>d1 a. resolve_author (rv_author review) d = Inr (d1, a) \<and>
         saveReview review p d =
           (if \<not> (in_int64 k \<and> opt_in_int64 a \<and> in_int64 p) then Inl OverflowError
            else if rv_createdAt review = None then Inl IntegrityError
            else saveComments (or_empty (rv_comments review) nodes) None (Some k) None d1))) \<and>
   ((\<forall>r \<in> set rs. \<exists>k. py_int_str (rv_fullDatabaseId r) = Inr k \<and> reviews d k \<noteq> None) \<longrightarrow>
      (\<forall>d'. saveReviews (Some rs) p d = Inr d' \<longrightarrow> reviews d' = reviews d)) \<and>
   ((\<forall>d1. saveAuthors (Some as) d = Inr d1 \<longrightarrow>
        (\<forall>row \<in> set (participants_query_data as p d1).
           (Some (fst row), Some (snd row)) \<in> set (author_pull_request d))) \<longrightarrow>
      saveParticipants (Some as) p d =
        (case saveAuthors (Some as) d of
           Inl e \<Rightarrow> Inl e
         | Inr d1 \<Rightarrow>
             if \<forall>row \<in> set (participants_query_data as p d1).
                  in_int64 (fst row) \<and> in_int64 (snd row)
             then Inr d1 else Inl OverflowError) \<and>
      (\<forall>d'. saveParticipants (Some as) p d = Inr d' \<longrightarrow>
         saveAuthors (Some as) d = Inr d' \<and> author_pull_request d' = author_pull_request d)) \<and>
   ((\<forall>d1. saveLabels (Some ks) d = Inr d1 \<longrightarrow>
        (\<forall>row \<in> set (labels_query_data ks p d1).
           (Some (fst row), Some (snd row)) \<in> set (label_pull_request d))) \<longrightarrow>
      linkLabelsWithPullRequest (Some ks) p d =
        (case saveLabels (Some ks) d of
           Inl e \<Rightarrow> Inl e
         | Inr d1 \<Rightarrow>
             if \<forall>row \<in> set (labels_query_data ks p d1).
                  in_int64 (fst row) \<and> in_int64 (snd row)
             then Inr d1 else Inl OverflowError) \<and>
      (\<forall>d'. linkLabelsWithPullRequest (Some ks) p d = Inr d' \<longrightarrow>
         saveLabels (Some ks) d = Inr d' \<and> label_pull_request d' = label_pull_request d))"
proof (intro conjI impI)
  assume "\<forall>c \<in> set cs. \<exists>u. or_empty (cn_commit c) gc_commitUrl = Some u \<and>
        list_ex (\<lambda>r. c_pull_request_id r = Some p \<and> c_url r = Some u) (commits d)"
  then show "saveCommits (Some cs) p d =
        (if cs = [] then Inr d
         else if \<not> in_int64 p then Inl OverflowError
         else if \<exists>c \<in> set cs. or_empty (cn_commit c) gc_committedDate = None
         then Inl IntegrityError else Inr d)"
    by (rule saveCommits_stored)
next
  assume "\<forall>f \<in> set fs. \<exists>pa. fl_path f = Some pa \<and>
        list_ex (\<lambda>r. f_pull_request_id r = Some p \<and> f_path r = pa) (files d)"
  then show "saveFiles (Some fs) p d =
        (if \<forall>f \<in> set fs. in_int64 p \<and> opt_in_int64 (fl_additions f) \<and>
                            opt_in_int64 (fl_deletions f)
         then Inr d else Inl OverflowError)"
    by (rule saveFiles_stored)
next
  assume "\<forall>l \<in> set ls. \<exists>n. lb_name l = Some n \<and> list_ex (\<lambda>r. l_name r = n) (labels d)"
  then show "saveLabels (Some ls) d = Inr d" by (rule saveLabels_stored)
next
  assume "py_int_str (rv_fullDatabaseId review) = Inr k \<and> reviews d k \<noteq> None"
  then have a: "py_int_str (rv_fullDatabaseId review) = Inr k" and b: "reviews d k \<noteq> None"
    by simp_all
  show "\<exists>d1 a. resolve_author (rv_author review) d = Inr (d1, a) \<and>
         saveReview review p d =
           (if \<not> (in_int64 k \<and> opt_in_int64 a \<and> in_int64 p) then Inl OverflowError
            else if rv_createdAt review = None then Inl IntegrityError
            else saveComments (or_empty (rv_comments review) nodes) None (Some k) None d1)"
    by (rule saveReview_stored [OF a b])
next
  assume "\<forall>r \<in> set rs. \<exists>k. py_int_str (rv_fullDatabaseId r) = Inr k \<and> reviews d k \<noteq> None"
  then show "\<forall>d'. saveReviews (Some rs) p d = Inr d' \<longrightarrow> reviews d' = reviews d"
    by (rule saveReviews_stored)
next
  assume h: "\<forall>d1. saveAuthors (Some as) d = Inr d1 \<longrightarrow>
        (\<forall>row \<in> set (participants_query_data as p d1).
           (Some (fst row), Some (snd row)) \<in> set (author_pull_request d))"
  show "saveParticipants (Some as) p d =
        (case saveAuthors (Some as) d of
           Inl e \<Rightarrow> Inl e
         | Inr d1 \<Rightarrow>
             if \<forall>row \<in> set (participants_query_data as p d1).
                  in_int64 (fst row) \<and> in_int64 (snd row)
             then Inr d1 else Inl OverflowError)"
    by (rule saveParticipants_stored [OF h])
  show "\<forall>d'. saveParticipants (Some as) p d = Inr d' \<longrightarrow>
         saveAuthors (Some as) d = Inr d' \<and> author_pull_request d' = author_pull_request d"
    by (rule saveParticipants_stored_table [OF h])
next
  assume h: "\<forall>d1. saveLabels (Some ks) d = Inr d1 \<longrightarrow>
        (\<forall>row \<in> set (labels_query_data ks p d1).
           (Some (fst row), Some (snd row)) \<in> set (label_pull_request d))"
  show "linkLabelsWithPullRequest (Some ks) p d =
        (case saveLabels (Some ks) d of
           Inl e \<Rightarrow> Inl e
         | Inr d1 \<Rightarrow>
             if \<forall>row \<in> set (labels_query_data ks p d1).
                  in_int64 (fst row) \<and> in_int64 (snd row)
             then Inr d1 else Inl OverflowError)"
    by (rule linkLabelsWithPullRequest_stored [OF h])
  show "\<forall>d'. linkLabelsWithPullRequest (Some ks) p d = Inr d' \<longrightarrow>
         saveLabels (Some ks) d = Inr d' \<and> label_pull_request d' = label_pull_request d"
    by (rule linkLabelsWithPullRequest_stored_table [OF h])
qed

lemma c4_h1:
  "\<forall>c \<in> set [c4_commit]. \<exists>u. or_empty (cn_commit c) gc_commitUrl = Some u \<and>
        list_ex (\<lambda>r. c_pull_request_id r = Some 5 \<and> c_url r = Some u) (commits c4_db)"
  by (simp add: c4_commit_def or_empty_def c4_db_def)

lemma c4_h1_undated:
  "\<forall>c \<in> set [c4_commit_undated]. \<exists>u. or_empty (cn_commit c) gc_commitUrl = Some u \<and>
        list_ex (\<lambda>r. c_pull_request_id r = Some 5 \<and> c_url r = Some u) (commits c4_db)"
  by (simp add: c4_commit_undated_def or_empty_def c4_db_def)

lemma c4_h2:
  "\<forall>f \<in> set [c4_file]. \<exists>pa. fl_path f = Some pa \<and>
        list_ex (\<lambda>r. f_pull_request_id r = Some 5 \<and> f_path r = pa) (files c4_db)"
  by (simp add: c4_file_def c4_db_def)

lemma c4_h3:
  "\<forall>l \<in> set [c4_label]. \<exists>n. lb_name l = Some n \<and> list_ex (\<lambda>r. l_name r = n) (labels c4_db)"
  by (simp add: c4_label_def c4_db_def)

lemma c4_seven: "py_int_str (Some ''7'') = Inr 7"
  by (simp add: py_int_str_def strip_def is_space_def parse_unsigned_def is_digit_def
        digit_val_def Let_def)

lemma c4_h4:
  "py_int_str (rv_fullDatabaseId c4_review) = Inr 7 \<and> reviews c4_db 7 \<noteq> None"
  by (simp add: c4_review_def c4_seven c4_db_def c1_db0_def)

lemma c4_h4_bob:
  "py_int_str (rv_fullDatabaseId c4_review_bob) = Inr 7 \<and> reviews c4_db 7 \<noteq> None"
  by (simp add: c4_review_bob_def c4_seven c4_db_def c1_db0_def)

lemma c4_h4_all:
  "\<forall>r \<in> set [c4_review_bob]. \<exists>k. py_int_str (rv_fullDatabaseId r) = Inr k \<and>
      reviews c4_db k \<noteq> None"
  using c4_h4_bob by simp

lemma c4_like: "like_match ''alice'' ''alice''" "like_match ''clang'' ''clang''"
  "like_match ''bob'' ''bob''" "\<not> like_match ''bob'' ''alice''"
  by (simp_all add: ascii_lower_def)

lemma c4_author_none: "resolve_author (rv_author c4_review) c4_db = Inr (c4_db, None)"
  by (simp add: resolve_author_def or_empty_def c4_review_def)

lemma c4_author_bob: "resolve_author (rv_author c4_review_bob) c4_db = Inr (c4_db_bob, Some 2)"
  by (simp add: resolve_author_def or_empty_def c4_review_bob_def saveAuthor_def
        insert_authors_def next_rowid_def getAuthorIDByLogin_def c4_like c4_db_bob_def c4_db_def)

lemma c4_participants:
  "saveAuthors (Some [c4_participant]) c4_db = Inr c4_db"
  "participants_query_data [c4_participant] 5 c4_db = [(1, 5)]"
  by (simp_all add: saveAuthors_def insert_authors_def c4_participant_def
        getAuthorIDByLogin_def c4_like c4_db_def)

lemma c4_h5:
  "\<forall>d1. saveAuthors (Some [c4_participant]) c4_db = Inr d1 \<longrightarrow>
      (\<forall>row \<in> set (participants_query_data [c4_participant] 5 d1).
         (Some (fst row), Some (snd row)) \<in> set (author_pull_request c4_db))"
proof (intro allI impI)
  fix d1 assume "saveAuthors (Some [c4_participant]) c4_db = Inr d1"
  then have d1: "d1 = c4_db" by (simp add: c4_participants(1))
  show "\<forall>row \<in> set (participants_query_data [c4_participant] 5 d1).
         (Some (fst row), Some (snd row)) \<in> set (author_pull_request c4_db)"
    unfolding d1 c4_participants(2) by (simp add: c4_db_def)
qed

lemma c4_labels:
  "saveLabels (Some [c4_label]) c4_db = Inr c4_db"
  "labels_query_data [c4_label] 5 c4_db = [(1, 5)]"
  by (simp_all add: saveLabels_def insert_labels_def c4_label_def
        getLabelIDByName_def c4_like c4_db_def)

lemma c4_h6:
  "\<forall>d1. saveLabels (Some [c4_label]) c4_db = Inr d1 \<longrightarrow>
      (\<forall>row \<in> set (labels_query_data [c4_label] 5 d1).
         (Some (fst row), Some (snd row)) \<in> set (label_pull_request c4_db))"
proof (intro allI impI)
  fix d1 assume "saveLabels (Some [c4_label]) c4_db = Inr d1"
  then have d1: "d1 = c4_db" by (simp add: c4_labels(1))
  show "\<forall>row \<in> set (labels_query_data [c4_label] 5 d1).
         (Some (fst row), Some (snd row)) \<in> set (label_pull_request c4_db)"
    unfolding d1 c4_labels(2) by (simp add: c4_db_def)
qed

theorem append_only_first_write_wins_witness:
  "saveCommits (Some [c4_commit]) 5 c4_db = Inr c4_db \<and>
   saveCommits (Some [c4_commit_undated]) 5 c4_db = Inl IntegrityError \<and>
   saveFiles (Some [c4_file]) 5 c4_db = Inr c4_db \<and>
   saveLabels (Some [c4_label]) c4_db = Inr c4_db \<and>
   saveReview c4_review 5 c4_db = Inr c4_db \<and>
   (saveReview c4_review_bob 5 c4_db = Inr c4_db_bob \<and>
    saveReviews (Some [c4_review_bob]) 5 c4_db = Inr c4_db_bob \<and>
    reviews c4_db_bob = reviews c4_db \<and>
    length (authors c4_db) = 1 \<and> length (authors c4_db_bob) = 2) \<and>
   (saveParticipants (Some [c4_participant]) 5 c4_db = Inr c4_db \<and>
    author_pull_request c4_db = [(Some 1, Some 5)]) \<and>
   (linkLabelsWithPullRequest (Some [c4_label]) 5 c4_db = Inr c4_db \<and>
    label_pull_request c4_db = [(Some 1, Some 5)])"
proof -
  have w1: "saveCommits (Some [c4_commit]) 5 c4_db = Inr c4_db"
    using append_only_first_write_wins [where p = 5 and d = c4_db and cs = "[c4_commit]",
        THEN conjunct1, THEN mp, OF c4_h1]
    by (simp add: in_int64_def c4_commit_def or_empty_def)
  have w1': "saveCommits (Some [c4_commit_undated]) 5 c4_db = Inl IntegrityError"
    using append_only_first_write_wins [where p = 5 and d = c4_db and cs = "[c4_commit_undated]",
        THEN conjunct1, THEN mp, OF c4_h1_undated]
    by (simp add: in_int64_def c4_commit_undated_def or_empty_def)
  have w2: "saveFiles (Some [c4_file]) 5 c4_db = Inr c4_db"
    using append_only_first_write_wins [where p = 5 and d = c4_db and fs = "[c4_file]",
        THEN conjunct2, THEN conjunct1, THEN mp, OF c4_h2]
    by (simp add: in_int64_def opt_in_int64_def c4_file_def)
  have w3: "saveLabels (Some [c4_label]) c4_db = Inr c4_db"
    by (rule append_only_first_write_wins [where d = c4_db and ls = "[c4_label]",
        THEN conjunct2, THEN conjunct2, THEN conjunct1, THEN mp, OF c4_h3])
  have w4: "saveReview c4_review 5 c4_db = Inr c4_db"
    using append_only_first_write_wins [where p = 5 and d = c4_db and review = c4_review
        and k = 7, THEN conjunct2, THEN conjunct2, THEN conjunct2, THEN conjunct1, THEN mp,
        OF c4_h4]
    by (simp add: c4_author_none in_int64_def opt_in_int64_def)
       (simp add: c4_review_def or_empty_def saveComments_def)
  have w5: "saveReview c4_review_bob 5 c4_db = Inr c4_db_bob"
    using append_only_first_write_wins [where p = 5 and d = c4_db and review = c4_review_bob
        and k = 7, THEN conjunct2, THEN conjunct2, THEN conjunct2, THEN conjunct1, THEN mp,
        OF c4_h4_bob]
    by (simp add: c4_author_bob in_int64_def opt_in_int64_def)
       (simp add: c4_review_bob_def or_empty_def saveComments_def)
  have w6: "saveReviews (Some [c4_review_bob]) 5 c4_db = Inr c4_db_bob"
    by (simp add: saveReviews_def w5)
  have w7: "reviews c4_db_bob = reviews c4_db"
    using append_only_first_write_wins [where p = 5 and d = c4_db and rs = "[c4_review_bob]",
        THEN conjunct2, THEN conjunct2, THEN conjunct2, THEN conjunct2, THEN conjunct1,
        THEN mp, OF c4_h4_all] w6
    by simp
  have w8: "length (authors c4_db) = 1" "length (authors c4_db_bob) = 2"
    by (simp_all add: c4_db_def c4_db_bob_def)
  have w9: "saveParticipants (Some [c4_participant]) 5 c4_db = Inr c4_db"
    using append_only_first_write_wins [where p = 5 and d = c4_db and as = "[c4_participant]",
        THEN conjunct2, THEN conjunct2, THEN conjunct2, THEN conjunct2, THEN conjunct2,
        THEN conjunct1, THEN mp, OF c4_h5, THEN conjunct1]
    by (simp add: c4_participants in_int64_def del: participants_query_data.simps)
  have w10: "author_pull_request c4_db = [(Some 1, Some 5)]" by (simp add: c4_db_def)
  have w11: "linkLabelsWithPullRequest (Some [c4_label]) 5 c4_db = Inr c4_db"
    using append_only_first_write_wins [where p = 5 and d = c4_db and ks = "[c4_label]",
        THEN conjunct2, THEN conjunct2, THEN conjunct2, THEN conjunct2, THEN conjunct2,
        THEN conjunct2, THEN mp, OF c4_h6, THEN conjunct1]
    by (simp add: c4_labels in_int64_def del: labels_query_data.simps)
  have w12: "label_pull_request c4_db = [(Some 1, Some 5)]" by (simp add: c4_db_def)
  show ?thesis
    by (intro conjI w1 w1' w2 w3 w4 w5 w6 w7 w8 w9 w10 w11 w12)
qed
subsection \<open>What the schema does when a referenced row is deleted\<close>

lemma on_delete_map_set_null:
  "on_delete_map SetNull col set_null k table i =
     map_option (\<lambda>r. if col r = Some k then set_null r else r) (table i)"
  by (cases "table i") (simp_all add: on_delete_map_def)

lemma dom_on_delete_map_set_null:
  "dom (on_delete_map SetNull col set_null k table) = dom table"
  by (simp add: dom_def on_delete_map_set_null)

text \<open>
  C9. Deleting a stored author \<open>a\<close> removes no row of \<^verbatim>\<open>pull_requests\<close>, \<^verbatim>\<open>reviews\<close> or
  \<^verbatim>\<open>comments\<close>: each row is as before, but for \<^verbatim>\<open>author_id\<close> set to NULL where it was
  \<open>a\<close>. Deleting a stored pull request \<open>p\<close> removes exactly the rows of \<^verbatim>\<open>files\<close>,
  \<^verbatim>\<open>author_pull_request\<close> and \<^verbatim>\<open>label_pull_request\<close> that reference \<open>p\<close>, and removes no
  row of \<^verbatim>\<open>commits\<close>, \<^verbatim>\<open>reviews\<close> or \<^verbatim>\<open>review_threads\<close>: each is as before, but for
  \<^verbatim>\<open>pull_request_id\<close> set to NULL where it was \<open>p\<close>.
\<close>

theorem deletion_policy_asymmetry:
  assumes "list_ex (\<lambda>r. a_id r = a) (authors d)" and "pull_requests e p \<noteq> None"
  shows "(\<not> list_ex (\<lambda>r. a_id r = a) (authors (delete_author a d)) \<and>
          dom (pull_requests (delete_author a d)) = dom (pull_requests d) \<and>
          dom (reviews (delete_author a d)) = dom (reviews d) \<and>
          dom (comments (delete_author a d)) = dom (comments d) \<and>
          (\<forall>i. pull_requests (delete_author a d) i =
             map_option (\<lambda>r. if p_author_id r = Some a then r\<lparr>p_author_id := None\<rparr> else r)
               (pull_requests d i)) \<and>
          (\<forall>i. reviews (delete_author a d) i =
             map_option (\<lambda>r. if r_author_id r = Some a then r\<lparr>r_author_id := None\<rparr> else r)
               (reviews d i)) \<and>
          (\<forall>i. comments (delete_author a d) i =
             map_option (\<lambda>r. if m_author_id r = Some a then r\<lparr>m_author_id := None\<rparr> else r)
               (comments d i))) \<and>
         (pull_requests (delete_pull_request p e) p = None \<and>
          files (delete_pull_request p e) =
            filter (\<lambda>r. f_pull_request_id r \<noteq> Some p) (files e) \<and>
          author_pull_request (delete_pull_request p e) =
            filter (\<lambda>r. snd r \<noteq> Some p) (author_pull_request e) \<and>
          label_pull_request (delete_pull_request p e) =
            filter (\<lambda>r. snd r \<noteq> Some p) (label_pull_request e) \<and>
          commits (delete_pull_request p e) =
            map (\<lambda>r. if c_pull_request_id r = Some p then r\<lparr>c_pull_request_id := None\<rparr> else r)
              (commits e) \<and>
          review_threads (delete_pull_request p e) =
            map (\<lambda>r. if t_pull_request_id r = Some p then r\<lparr>t_pull_request_id := None\<rparr> else r)
              (review_threads e) \<and>
          dom (reviews (delete_pull_request p e)) = dom (reviews e) \<and>
          (\<forall>i. reviews (delete_pull_request p e) i =
             map_option (\<lambda>r. if r_pull_request_id r = Some p then r\<lparr>r_pull_request_id := None\<rparr> else r)
               (reviews e i)))"
proof (rule conjI)
  have gone: "\<not> list_ex (\<lambda>r. a_id r = a) (filter (\<lambda>r. a_id r \<noteq> a) xs)" for xs :: "author_row list"
    by (induction xs) simp_all
  show "\<not> list_ex (\<lambda>r. a_id r = a) (authors (delete_author a d)) \<and>
          dom (pull_requests (delete_author a d)) = dom (pull_requests d) \<and>
          dom (reviews (delete_author a d)) = dom (reviews d) \<and>
          dom (comments (delete_author a d)) = dom (comments d) \<and>
          (\<forall>i. pull_requests (delete_author a d) i =
             map_option (\<lambda>r. if p_author_id r = Some a then r\<lparr>p_author_id := None\<rparr> else r)
               (pull_requests d i)) \<and>
          (\<forall>i. reviews (delete_author a d) i =
             map_option (\<lambda>r. if r_author_id r = Some a then r\<lparr>r_author_id := None\<rparr> else r)
               (reviews d i)) \<and>
          (\<forall>i. comments (delete_author a d) i =
             map_option (\<lambda>r. if m_author_id r = Some a then r\<lparr>m_author_id := None\<rparr> else r)
               (comments d i))"
    using assms(1)
    by (simp add: delete_author_def fk_pull_requests_author_id_def fk_reviews_author_id_def
          fk_comments_author_id_def dom_on_delete_map_set_null on_delete_map_set_null gone)
next
  from assms(2) obtain y where stored: "pull_requests e p = Some y" by blast
  show "pull_requests (delete_pull_request p e) p = None \<and>
          files (delete_pull_request p e) =
            filter (\<lambda>r. f_pull_request_id r \<noteq> Some p) (files e) \<and>
          author_pull_request (delete_pull_request p e) =
            filter (\<lambda>r. snd r \<noteq> Some p) (author_pull_request e) \<and>
          label_pull_request (delete_pull_request p e) =
            filter (\<lambda>r. snd r \<noteq> Some p) (label_pull_request e) \<and>
          commits (delete_pull_request p e) =
            map (\<lambda>r. if c_pull_request_id r = Some p then r\<lparr>c_pull_request_id := None\<rparr> else r)
              (commits e) \<and>
          review_threads (delete_pull_request p e) =
            map (\<lambda>r. if t_pull_request_id r = Some p then r\<lparr>t_pull_request_id := None\<rparr> else r)
              (review_threads e) \<and>
          dom (reviews (delete_pull_request p e)) = dom (reviews e) \<and>
          (\<forall>i. reviews (delete_pull_request p e) i =
             map_option (\<lambda>r. if r_pull_request_id r = Some p then r\<lparr>r_pull_request_id := None\<rparr> else r)
               (reviews e i))"
    using stored
    by (simp add: delete_pull_request_def fk_files_pull_request_id_def
          fk_author_pull_request_pull_request_id_def fk_label_pull_request_pull_request_id_def
          fk_commits_pull_request_id_def fk_review_threads_pull_request_id_def
          fk_reviews_pull_request_id_def on_delete_rows_def
          dom_on_delete_map_set_null on_delete_map_set_null)
qed

theorem deletion_policy_asymmetry_witness:
  "(list_ex (\<lambda>r. a_id r = 1) (authors c9_db) \<and> pull_requests c9_db 5 \<noteq> None) \<and>
   (pull_requests (delete_author 1 c9_db) 5 = Some (c3_old\<lparr>p_author_id := None\<rparr>) \<and>
    map_option r_author_id (reviews (delete_author 1 c9_db) 7) = Some None \<and>
    map_option m_author_id (comments (delete_author 1 c9_db) 100) = Some None \<and>
    dom (pull_requests (delete_author 1 c9_db)) = {5} \<and>
    dom (reviews (delete_author 1 c9_db)) = {7} \<and>
    dom (comments (delete_author 1 c9_db)) = {100}) \<and>
   (pull_requests (delete_pull_request 5 c9_db) 5 = None \<and>
    files (delete_pull_request 5 c9_db) = [] \<and>
    author_pull_request (delete_pull_request 5 c9_db) = [] \<and>
    label_pull_request (delete_pull_request 5 c9_db) = [] \<and>
    map c_pull_request_id (commits (delete_pull_request 5 c9_db)) = [None] \<and>
    map c_id (commits (delete_pull_request 5 c9_db)) = [1] \<and>
    map t_pull_request_id (review_threads (delete_pull_request 5 c9_db)) = [None] \<and>
    map t_id (review_threads (delete_pull_request 5 c9_db)) = [3] \<and>
    map_option r_pull_request_id (reviews (delete_pull_request 5 c9_db) 7) = Some None \<and>
    dom (reviews (delete_pull_request 5 c9_db)) = {7})"
proof -
  have h1: "list_ex (\<lambda>r. a_id r = 1) (authors c9_db)"
    by (simp add: c9_db_def c4_db_def)
  have h2: "pull_requests c9_db 5 \<noteq> None"
    by (simp add: c9_db_def)
  note t = deletion_policy_asymmetry [OF h1 h2]
  have v: "pull_requests c9_db 5 = Some c3_old"
    "reviews c9_db 7 = Some \<lparr>r_author_id = Some 1, r_pull_request_id = Some 5,
       r_created_at = ''2023-09-01T00:00:00Z''\<rparr>"
    "comments c9_db 100 = Some \<lparr>m_author_id = Some 1, m_pull_request_id = Some 5,
       m_review_id = Some 7, m_review_thread_id = None,
       m_created_at = ''2023-09-02T00:00:00Z''\<rparr>"
    "dom (pull_requests c9_db) = {5}" "dom (reviews c9_db) = {7}" "dom (comments c9_db) = {100}"
    "files c9_db = [\<lparr>f_id = 1, f_pull_request_id = Some 5, f_path = ''clang/lib/a.cpp'',
                f_change_type = Some ''ADDED'', f_additions = Some 3, f_deletions = Some 0\<rparr>]"
    "author_pull_request c9_db = [(Some 1, Some 5)]"
    "label_pull_request c9_db = [(Some 1, Some 5)]"
    "commits c9_db = [\<lparr>c_id = 1, c_pull_request_id = Some 5,
                  c_url = Some ''https://example.org/commit/1'',
                  c_committed_at = ''2023-08-31T12:00:00Z''\<rparr>]"
    "review_threads c9_db = [\<lparr>t_id = 3, t_node_id = ''PRRT_kwDOa'', t_pull_request_id = Some 5\<rparr>]"
    by (simp_all add: c9_db_def c4_db_def)
  have "pull_requests (delete_author 1 c9_db) 5 = Some (c3_old\<lparr>p_author_id := None\<rparr>)"
    using t by (simp add: v c3_old_def)
  moreover have "map_option r_author_id (reviews (delete_author 1 c9_db) 7) = Some None"
    using t by (simp add: v)
  moreover have "map_option m_author_id (comments (delete_author 1 c9_db) 100) = Some None"
    using t by (simp add: v)
  moreover have "dom (pull_requests (delete_author 1 c9_db)) = {5}"
    "dom (reviews (delete_author 1 c9_db)) = {7}" "dom (comments (delete_author 1 c9_db)) = {100}"
    using t by (simp_all only: v)
  moreover have "pull_requests (delete_pull_request 5 c9_db) 5 = None"
    using t by simp
  moreover have "files (delete_pull_request 5 c9_db) = []"
    "author_pull_request (delete_pull_request 5 c9_db) = []"
    "label_pull_request (delete_pull_request 5 c9_db) = []"
    using t by (simp_all add: v)
  moreover have "map c_pull_request_id (commits (delete_pull_request 5 c9_db)) = [None]"
    "map c_id (commits (delete_pull_request 5 c9_db)) = [1]"
    "map t_pull_request_id (review_threads (delete_pull_request 5 c9_db)) = [None]"
    "map t_id (review_threads (delete_pull_request 5 c9_db)) = [3]"
    using t by (simp_all add: v)
  moreover have "map_option r_pull_request_id (reviews (delete_pull_request 5 c9_db) 7) = Some None"
    using t by (simp add: v)
  moreover have "dom (reviews (delete_pull_request 5 c9_db)) = {7}"
    using t by (simp only: v)
  ultimately show ?thesis
    using h1 h2 by (intro conjI)
qed
subsection \<open>Natural keys are looked up with \<^verbatim>\<open>LIKE\<close>\<close>



subsection \<open>Absent fields of a record\<close>

text \<open>
  C8. An absent list and an empty list are no-ops, and a comment without an author is
  stored with \<^verbatim>\<open>author_id\<close> NULL. A comment or a review whose \<^verbatim>\<open>fullDatabaseId\<close> is null
  is not skipped: \<^verbatim>\<open>int(None)\<close> raises \<^verbatim>\<open>TypeError\<close> and the save ends there.
\<close>

theorem null_fullDatabaseId_raises:
  "saveComments None (Some 5) None None c1_db0 = Inr c1_db0 \<and>
   saveComments (Some []) (Some 5) None None c1_db0 = Inr c1_db0 \<and>
   saveComments (Some [c1_comment]) (Some 5) None None c1_db0 = Inr c1_db1 \<and>
   map_option m_author_id (comments c1_db1 100) = Some None \<and>
   saveComments (Some [c8_comment]) (Some 5) None None c1_db0 = Inl TypeError \<and>
   saveReviews (Some [c8_review]) 5 c1_db0 = Inl TypeError"
proof -
  have a: "saveComments None (Some 5) None None c1_db0 = Inr c1_db0"
    "saveComments (Some []) (Some 5) None None c1_db0 = Inr c1_db0"
    by (simp_all add: saveComments_def)
  have b: "map_option m_author_id (comments c1_db1 100) = Some None"
    by (simp add: c1_db1_def)
  have c: "saveComments (Some [c8_comment]) (Some 5) None None c1_db0 = Inl TypeError"
    by (simp add: saveComments_def c8_comment_def resolve_author_def or_empty_def py_int_str_def)
  have d: "saveReviews (Some [c8_review]) 5 c1_db0 = Inl TypeError"
    by (simp add: saveReviews_def saveReview_def c8_review_def py_int_str_def)
  show ?thesis by (intro conjI a c1_first_save b c d)
qed

end
